theory Spec2Isabelle
  imports Complex_Main "HOL-Library.Log_Nat" "HOL-Library.Product_Lexorder"
begin

text \<open>
  A shallow embedding of \<^verbatim>\<open>inference.py\<close> (the multi-signal key inference engine of
  Cartographer) and of the relationship merge in \<^verbatim>\<open>app.py\<close>, followed by the
  properties proved about them.

  Conventions of the embedding:
  \<^item> a Python \<^verbatim>\<open>str\<close> is a \<open>string\<close>; names are taken to be ASCII;
  \<^item> a Python \<^verbatim>\<open>float\<close> is the rational number it denotes, and every operation
    rounds as IEEE 754 double arithmetic does;
  \<^item> a Python \<^verbatim>\<open>dict\<close> whose order matters is an association list with distinct keys;
  \<^item> a relationship \<^verbatim>\<open>dict\<close> is a record; the four key fields are the record
    \<open>rel_key\<close>, every other entry lives in the record extension;
  \<^item> pandas, NumPy, SciPy and the regular expressions of the format table are outside the
    model: what the engine asks of them is a record of functions, a parameter of every
    definition that needs one;
  \<^item> a function whose name starts with an underscore in the source loses the underscore.
\<close>

section \<open>Part I: the program\<close>

subsection \<open>Python floats\<close>

text \<open>
  A Python \<^verbatim>\<open>float\<close> is an IEEE 754 double. It is modelled by the rational number it
  denotes, and every arithmetic operation rounds its exact result to the nearest double,
  ties to even (53 significant bits). The exponent range is not modelled: every value the
  engine computes lies between \<open>2\<^sup>-\<^sup>6\<^sup>0\<close> and \<open>2\<^sup>6\<^sup>0\<close>, far from overflow and from
  subnormal numbers. NaN and the infinities do not occur.
\<close>

text \<open>Rounding a rational to the nearest integer, ties to the even one.\<close>

definition rhe :: "rat \<Rightarrow> int" where
  "rhe x = (let f = \<lfloor>x\<rfloor>; r = x - of_int f in
     if r < 1/2 then f else if 1/2 < r then f + 1 else if even f then f else f + 1)"

text \<open>The binary exponent \<open>\<lfloor>log\<^sub>2 x\<rfloor>\<close> of a positive rational.\<close>

definition expo :: "rat \<Rightarrow> int" where
  "expo x = (if 1 \<le> x then bitlen \<lfloor>x\<rfloor> - 1 else - bitlen (\<lceil>1 / x\<rceil> - 1))"

text \<open>The double nearest to \<open>x\<close>; \<open>fl (95/100)\<close> is the value of the literal \<^verbatim>\<open>0.95\<close>.\<close>

definition fl :: "rat \<Rightarrow> rat" where
  "fl x = (if x = 0 then 0 else
     let e = expo \<bar>x\<bar> in of_int (rhe (x * 2 powi (52 - e))) * 2 powi (e - 52))"

text \<open>The significand of a positive rational, scaled to lie between \<open>2\<^sup>5\<^sup>2\<close> and \<open>2\<^sup>5\<^sup>3\<close>.\<close>

definition mant :: "rat \<Rightarrow> rat" where
  "mant x = x * 2 powi (52 - expo x)"

definition fadd :: "rat \<Rightarrow> rat \<Rightarrow> rat" where
  "fadd a b = fl (a + b)"

definition fsub :: "rat \<Rightarrow> rat \<Rightarrow> rat" where
  "fsub a b = fl (a - b)"

definition fmul :: "rat \<Rightarrow> rat \<Rightarrow> rat" where
  "fmul a b = fl (a * b)"

text \<open>True division; every divisor in the engine is non-zero.\<close>

definition fdiv :: "rat \<Rightarrow> rat \<Rightarrow> rat" where
  "fdiv a b = fl (a / b)"

text \<open>
  \<^verbatim>\<open>round(x, ndigits)\<close> on a float: the exact value of \<open>x\<close> is rounded to \<open>ndigits\<close>
  decimals (ties to even), and the decimal result is converted back to the nearest double.
\<close>

definition py_round :: "rat \<Rightarrow> nat \<Rightarrow> rat" where
  "py_round x ndigits = fl (of_int (rhe (x * 10 ^ ndigits)) / 10 ^ ndigits)"

text \<open>\<^verbatim>\<open>min(a, b)\<close>: the first argument unless the second is smaller.\<close>

definition py_min :: "rat \<Rightarrow> rat \<Rightarrow> rat" where
  "py_min a b = (if b < a then b else a)"

text \<open>\<^verbatim>\<open>math.prod\<close>: the running product starts at 1 and is multiplied from the left.\<close>

definition math_prod :: "rat list \<Rightarrow> rat" where
  "math_prod xs = foldl fmul 1 xs"

subsection \<open>Formatting numbers\<close>

definition digit_char :: "nat \<Rightarrow> char" where
  "digit_char d = ''0123456789'' ! (d mod 10)"

function string_of_nat :: "nat \<Rightarrow> string" where
  "string_of_nat n = (if n < 10 then [digit_char n] else string_of_nat (n div 10) @ [digit_char n])"
  by pat_completeness auto
termination
  by (relation "measure (\<lambda>n. n)") auto

declare string_of_nat.simps [simp del]

text \<open>\<^verbatim>\<open>f"{x:.2f}"\<close>: two decimals, correctly rounded.\<close>

definition format_2f :: "rat \<Rightarrow> string" where
  "format_2f x =
     (let k = nat \<bar>rhe (x * 100)\<bar> in
      (if x < 0 then ''-'' else '''') @ string_of_nat (k div 100) @ ''.''
        @ [digit_char (k div 10), digit_char k])"

text \<open>\<^verbatim>\<open>f"{x:.0%}"\<close>: the float is multiplied by 100, then printed with no decimals.\<close>

definition format_pct :: "rat \<Rightarrow> string" where
  "format_pct x =
     (let k = nat \<bar>rhe (fmul x 100)\<bar> in
      (if x < 0 then ''-'' else '''') @ string_of_nat k @ ''%'')"

subsection \<open>Strings\<close>

definition startswith :: "string \<Rightarrow> string \<Rightarrow> bool" where
  "startswith s p = (take (length p) s = p)"

definition endswith :: "string \<Rightarrow> string \<Rightarrow> bool" where
  "endswith s p = (length p \<le> length s \<and> drop (length s - length p) s = p)"

text \<open>Whether \<open>p\<close> occurs somewhere in \<open>s\<close>.\<close>

fun contains_sub :: "string \<Rightarrow> string \<Rightarrow> bool" where
  "contains_sub [] p = (p = [])"
| "contains_sub (c # s) p = (startswith (c # s) p \<or> contains_sub s p)"

text \<open>\<^verbatim>\<open>str.lower()\<close> on ASCII.\<close>

definition lower_char :: "char \<Rightarrow> char" where
  "lower_char c =
     (case map_of (zip ''ABCDEFGHIJKLMNOPQRSTUVWXYZ'' ''abcdefghijklmnopqrstuvwxyz'') c of
        Some d \<Rightarrow> d
      | None \<Rightarrow> c)"

definition is_lower_alnum :: "char \<Rightarrow> bool" where
  "is_lower_alnum c = (c \<in> set ''abcdefghijklmnopqrstuvwxyz0123456789'')"

text \<open>\<^verbatim>\<open>re.sub(r"_+", "_", n)\<close>: every run of underscores becomes one underscore.\<close>

fun collapse_underscores :: "string \<Rightarrow> string" where
  "collapse_underscores (a # b # s) =
     (if a = CHR ''_'' \<and> b = CHR ''_'' then collapse_underscores (b # s)
      else a # collapse_underscores (b # s))"
| "collapse_underscores s = s"

text \<open>\<^verbatim>\<open>n.strip("_")\<close>.\<close>

definition strip_underscores :: "string \<Rightarrow> string" where
  "strip_underscores s =
     rev (dropWhile (\<lambda>c. c = CHR ''_'') (rev (dropWhile (\<lambda>c. c = CHR ''_'') s)))"

text \<open>
  A regular expression \<^verbatim>\<open>(a|b|...)$\<close> whose alternatives are literal strings without
  a newline. Python's \<^verbatim>\<open>$\<close> matches at the end of the string and also just before a
  newline that ends the string. Where the engine substitutes (\<^verbatim>\<open>re.sub\<close>), the
  alternatives all start with an underscore and hold no other, so at most one of them
  matches at a given end and their order does not matter; where it searches
  (\<^verbatim>\<open>re.search\<close>), only the existence of a match is used.
\<close>

definition newline :: char where
  "newline = CHR 0x0A"

definition match_end :: "string list \<Rightarrow> string \<Rightarrow> string option" where
  "match_end alts s = find (\<lambda>a. endswith s a) alts"

text \<open>\<^verbatim>\<open>re.search(r"(a|b|...)$", s)\<close> as a truth value.\<close>

definition re_search_end :: "string list \<Rightarrow> string \<Rightarrow> bool" where
  "re_search_end alts s =
     (if s \<noteq> [] \<and> last s = newline then match_end alts (butlast s) \<noteq> None
      else match_end alts s \<noteq> None)"

text \<open>\<^verbatim>\<open>re.sub(r"(a|b|...)$", "", s)\<close>.\<close>

definition strip_end :: "string list \<Rightarrow> string \<Rightarrow> string" where
  "strip_end alts s =
     (case match_end alts s of None \<Rightarrow> s | Some a \<Rightarrow> take (length s - length a) s)"

definition re_sub_end :: "string list \<Rightarrow> string \<Rightarrow> string" where
  "re_sub_end alts s =
     (if s \<noteq> [] \<and> last s = newline then strip_end alts (butlast s) @ [newline]
      else strip_end alts s)"

subsection \<open>Name helpers\<close>

text \<open>
  \<^verbatim>\<open>
  def clean_name(name: str) -> str:
      n = re.sub(r"[^a-z0-9]", "_", name.lower())
      n = re.sub(r"_+", "_", n).strip("_")
      return n
  \<close>
\<close>

definition clean_name :: "string \<Rightarrow> string" where
  "clean_name name =
     (let n = map (\<lambda>c. if is_lower_alnum c then c else CHR ''_'') (map lower_char name)
      in strip_underscores (collapse_underscores n))"

text \<open>\<^verbatim>\<open>def id_stem(col_clean): return re.sub(r"_id$", "", col_clean)\<close>\<close>

definition id_stem :: "string \<Rightarrow> string" where
  "id_stem col_clean = re_sub_end [''_id''] col_clean"

text \<open>
  \<^verbatim>\<open>
  def is_pk_name(col_clean, tname_clean):
      if col_clean == "id": return True
      if col_clean == f"{tname_clean}_id": return True
      if col_clean.endswith("_id") and tname_clean.startswith(id_stem(col_clean)): return True
      return False
  \<close>
\<close>

definition is_pk_name :: "string \<Rightarrow> string \<Rightarrow> bool" where
  "is_pk_name col_clean tname_clean =
     (if col_clean = ''id'' then True
      else if col_clean = tname_clean @ ''_id'' then True
      else if endswith col_clean ''_id'' \<and> startswith tname_clean (id_stem col_clean) then True
      else False)"

text \<open>
  \<^verbatim>\<open>
  def is_fk_for(col_clean, t2_clean):
      if col_clean == f"{t2_clean}_id": return True
      if col_clean.endswith("_id") and t2_clean.startswith(id_stem(col_clean)): return True
      return False
  \<close>
\<close>

definition is_fk_for :: "string \<Rightarrow> string \<Rightarrow> bool" where
  "is_fk_for col_clean t2_clean =
     (if col_clean = t2_clean @ ''_id'' then True
      else if endswith col_clean ''_id'' \<and> startswith t2_clean (id_stem col_clean) then True
      else False)"

text \<open>
  The stem of the name-similarity signal, written inline in \<^verbatim>\<open>_score_candidate\<close>:
  \<^verbatim>\<open>re.sub(r"_(id|key|code|num|no)$", "", c)\<close>.
\<close>

definition sim_stem :: "string \<Rightarrow> string" where
  "sim_stem c = re_sub_end [''_id'', ''_key'', ''_code'', ''_num'', ''_no''] c"

subsection \<open>Jaro-Winkler similarity\<close>

text \<open>
  The first loop of \<^verbatim>\<open>_jaro_winkler\<close>: for position \<open>i\<close> of \<open>s1\<close>, the first position
  \<open>j\<close> of \<open>s2\<close> in the window that is still free and holds the same character is matched.
  \<^verbatim>\<open>
  for i in range(l1):
      lo = max(0, i - match_dist)
      hi = min(i + match_dist + 1, l2)
      for j in range(lo, hi):
          if s2_matches[j] or s1[i] != s2[j]:
              continue
          s1_matches[i] = True
          s2_matches[j] = True
          matches += 1
          break
  \<close>
  Subtraction on \<open>nat\<close> stops at 0, which is the \<^verbatim>\<open>max(0, ...)\<close> of the source. Every
  index read is in range: \<open>i < l1\<close> and \<open>j < hi \<le> l2\<close>.
\<close>

type_synonym match_state = "bool list \<times> bool list \<times> nat"

definition match_step :: "string \<Rightarrow> string \<Rightarrow> nat \<Rightarrow> match_state \<Rightarrow> nat \<Rightarrow> match_state" where
  "match_step s1 s2 match_dist st i =
     (case st of (s1_matches, s2_matches, matches) \<Rightarrow>
        let lo = i - match_dist;
            hi = min (i + match_dist + 1) (length s2)
        in case find (\<lambda>j. \<not> (s2_matches ! j \<or> s1 ! i \<noteq> s2 ! j)) [lo..<hi] of
             None \<Rightarrow> (s1_matches, s2_matches, matches)
           | Some j \<Rightarrow> (s1_matches[i := True], s2_matches[j := True], matches + 1))"

text \<open>\<^verbatim>\<open>match_dist = max(l1, l2) // 2 - 1; match_dist = max(match_dist, 0)\<close>\<close>

definition match_dist_of :: "string \<Rightarrow> string \<Rightarrow> nat" where
  "match_dist_of s1 s2 = max (length s1) (length s2) div 2 - 1"

definition find_matches :: "string \<Rightarrow> string \<Rightarrow> match_state" where
  "find_matches s1 s2 =
     foldl (match_step s1 s2 (match_dist_of s1 s2))
       (replicate (length s1) False, replicate (length s2) False, 0)
       [0..<length s1]"

text \<open>
  \<^verbatim>\<open>while not s2_matches[k]: k += 1\<close>. Reading past the end of the list raises
  \<^verbatim>\<open>IndexError\<close>, which is the result \<open>None\<close>.
\<close>

function next_match :: "bool list \<Rightarrow> nat \<Rightarrow> nat option" where
  "next_match s2_matches k =
     (if length s2_matches \<le> k then None
      else if s2_matches ! k then Some k
      else next_match s2_matches (k + 1))"
  by pat_completeness auto
termination
  by (relation "measure (\<lambda>(s2_matches, k). length s2_matches - k)") auto

declare next_match.simps [simp del]

text \<open>
  The second loop, over the positions \<open>i\<close> that remain:
  \<^verbatim>\<open>
  k = 0
  for i in range(l1):
      if not s1_matches[i]:
          continue
      while not s2_matches[k]:
          k += 1
      if s1[i] != s2[k]:
          transpositions += 1
      k += 1
  \<close>
\<close>

fun count_transpositions ::
  "string \<Rightarrow> string \<Rightarrow> bool list \<Rightarrow> bool list \<Rightarrow> nat \<Rightarrow> nat \<Rightarrow> nat list \<Rightarrow> nat option" where
  "count_transpositions s1 s2 s1_matches s2_matches k transpositions [] = Some transpositions"
| "count_transpositions s1 s2 s1_matches s2_matches k transpositions (i # is) =
     (if \<not> s1_matches ! i
      then count_transpositions s1 s2 s1_matches s2_matches k transpositions is
      else case next_match s2_matches k of
             None \<Rightarrow> None
           | Some k' \<Rightarrow>
               count_transpositions s1 s2 s1_matches s2_matches (k' + 1)
                 (if s1 ! i \<noteq> s2 ! k' then transpositions + 1 else transpositions) is)"

text \<open>
  The local variable \<^verbatim>\<open>jaro\<close>, for two different non-empty strings with at least one
  match:
  \<^verbatim>\<open>jaro = (matches/l1 + matches/l2 + (matches - transpositions/2)/matches) / 3\<close>
\<close>

definition jaro_value :: "nat \<Rightarrow> nat \<Rightarrow> nat \<Rightarrow> nat \<Rightarrow> rat" where
  "jaro_value l1 l2 matches transpositions =
     fdiv (fadd (fadd (fdiv (of_nat matches) (of_nat l1)) (fdiv (of_nat matches) (of_nat l2)))
                (fdiv (fsub (of_nat matches) (fdiv (of_nat transpositions) 2)) (of_nat matches)))
          3"

text \<open>
  The local variable \<^verbatim>\<open>prefix\<close>:
  \<^verbatim>\<open>prefix = sum(1 for i in range(min(4, l1, l2)) if s1[i] == s2[i])\<close>
\<close>

definition prefix_count :: "string \<Rightarrow> string \<Rightarrow> nat" where
  "prefix_count s1 s2 =
     length (filter (\<lambda>i. s1 ! i = s2 ! i) [0..<min 4 (min (length s1) (length s2))])"

text \<open>
  \<^verbatim>\<open>_jaro_winkler\<close>. The result \<open>None\<close> stands for the \<^verbatim>\<open>IndexError\<close> of the second
  loop; theorem \<open>jaro_winkler_returns\<close> shows that it never happens.
  \<^verbatim>\<open>
  if s1 == s2: return 1.0
  l1, l2 = len(s1), len(s2)
  if l1 == 0 or l2 == 0: return 0.0
  ...
  if matches == 0: return 0.0
  ...
  return jaro + prefix * 0.1 * (1 - jaro)
  \<close>
\<close>

definition jaro_winkler :: "string \<Rightarrow> string \<Rightarrow> rat option" where
  "jaro_winkler s1 s2 =
     (if s1 = s2 then Some 1
      else if length s1 = 0 \<or> length s2 = 0 then Some 0
      else case find_matches s1 s2 of (s1_matches, s2_matches, matches) \<Rightarrow>
        if matches = 0 then Some 0
        else case count_transpositions s1 s2 s1_matches s2_matches 0 0 [0..<length s1] of
               None \<Rightarrow> None
             | Some transpositions \<Rightarrow>
                 let jaro = jaro_value (length s1) (length s2) matches transpositions;
                     prefix = prefix_count s1 s2
                 in Some (fadd jaro (fmul (fmul (of_nat prefix) (fl (1/10))) (fsub 1 jaro))))"

subsection \<open>Tables\<close>

text \<open>
  A pandas \<^verbatim>\<open>Series\<close>: the answers of the two pandas dtype predicates the engine asks,
  and the cells in row order, \<open>None\<close> for a null cell. A \<^verbatim>\<open>DataFrame\<close>: its number of
  rows \<^verbatim>\<open>len(df)\<close> and its columns in order, each name with its series. Column names
  are distinct, so \<^verbatim>\<open>df[c]\<close> for a name \<open>c\<close> taken from \<^verbatim>\<open>df.columns\<close> is the series
  paired with \<open>c\<close>; the model iterates over the pairs.
\<close>

record 'v series =
  is_numeric_dtype :: bool
  is_datetime64_any_dtype :: bool
  cells :: "'v option list"

record 'v dataframe =
  nrows :: nat
  columns :: "(string \<times> 'v series) list"

text \<open>
  What the engine asks of pandas, NumPy, SciPy and \<^verbatim>\<open>re\<close>, taken as parameters:
  \<^item> \<open>astype_str\<close>: the string of a cell, as \<^verbatim>\<open>astype(str)\<close> gives it;
  \<^item> \<open>pattern_match name s\<close>: whether the compiled pattern of the entry \<open>name\<close> of
    \<^verbatim>\<open>FORMAT_PATTERNS\<close> matches at the start of \<open>s\<close>, as \<^verbatim>\<open>Series.str.match\<close> asks;
  \<^item> \<open>random_state seed\<close>: a fresh generator seeded with \<open>seed\<close>;
    \<open>sample_with gen n xs\<close>: \<open>n\<close> elements of \<open>xs\<close> drawn with generator \<open>gen\<close>;
  \<^item> \<open>list_of_set xs\<close>: the distinct elements of \<open>xs\<close> in the order in which Python
    iterates the set;
  \<^item> \<open>np_dot\<close>, \<open>np_norm\<close>: \<^verbatim>\<open>np.dot\<close> and \<^verbatim>\<open>np.linalg.norm\<close>;
  \<^item> \<open>pearsonr\<close>: the coefficient \<^verbatim>\<open>scipy.stats.pearsonr\<close> returns, \<open>None\<close> when the
    import or the call raises.
\<close>

record ('v, 'g) lib =
  astype_str :: "'v \<Rightarrow> string"
  pattern_match :: "string \<Rightarrow> string \<Rightarrow> bool"
  random_state :: "nat \<Rightarrow> 'g"
  sample_with :: "'g \<Rightarrow> nat \<Rightarrow> string list \<Rightarrow> string list"
  list_of_set :: "string list \<Rightarrow> string list"
  np_dot :: "rat list \<Rightarrow> rat list \<Rightarrow> rat"
  np_norm :: "rat list \<Rightarrow> rat"
  pearsonr :: "nat list \<Rightarrow> nat list \<Rightarrow> rat option"

text \<open>\<^verbatim>\<open>series.dropna()\<close>, \<^verbatim>\<open>series.notna().all()\<close>, \<^verbatim>\<open>series.nunique()\<close>.\<close>

definition dropna :: "'v series \<Rightarrow> 'v list" where
  "dropna s = List.map_filter (\<lambda>c. c) (cells s)"

definition notna_all :: "'v series \<Rightarrow> bool" where
  "notna_all s = list_all (\<lambda>c. c \<noteq> None) (cells s)"

definition nunique :: "'v series \<Rightarrow> nat" where
  "nunique s = length (remdups (dropna s))"

text \<open>\<^verbatim>\<open>series.dropna().astype(str)\<close>\<close>

definition dropna_str :: "('v, 'g) lib \<Rightarrow> 'v series \<Rightarrow> string list" where
  "dropna_str L s = map (astype_str L) (dropna s)"

text \<open>\<^verbatim>\<open>unique()\<close> keeps the first occurrence of every value, in order.\<close>

definition unique :: "'a list \<Rightarrow> 'a list" where
  "unique xs = rev (remdups (rev xs))"

text \<open>
  \<^verbatim>\<open>Series.sample(n, random_state=rs)\<close>: an integer seed makes a fresh generator; without
  a seed the draw uses the generator \<open>g\<close> that the process shares.
\<close>

definition pd_sample :: "('v, 'g) lib \<Rightarrow> 'g \<Rightarrow> nat \<Rightarrow> nat option \<Rightarrow> string list \<Rightarrow> string list" where
  "pd_sample L g n rs vals =
     (case rs of
        None \<Rightarrow> sample_with L g n vals
      | Some seed \<Rightarrow> sample_with L (random_state L seed) n vals)"

subsection \<open>Constants\<close>

definition OVERLAP_HIGH :: rat where "OVERLAP_HIGH = fl (98/100)"
definition OVERLAP_MEDIUM :: rat where "OVERLAP_MEDIUM = fl (80/100)"
definition NAME_SIM_HIGH :: rat where "NAME_SIM_HIGH = fl (85/100)"
definition NAME_SIM_MED :: rat where "NAME_SIM_MED = fl (72/100)"
definition DIST_SIM_HIGH :: rat where "DIST_SIM_HIGH = fl (90/100)"
definition DIST_SIM_MED :: rat where "DIST_SIM_MED = fl (75/100)"

text \<open>
  \<^verbatim>\<open>FORMAT_PATTERNS\<close>, in order. The regular expressions are compiled by \<^verbatim>\<open>re\<close>,
  which is outside the model; an entry is known by its name.
  \<^verbatim>\<open>
  ("uuid",      re.compile(r"^[0-9a-f]{8}-[0-9a-f]{4}-[0-9a-f]{4}-[0-9a-f]{4}-[0-9a-f]{12}$", re.I)),
  ("email",     re.compile(r"^[^@\s]+@[^@\s]+\.[^@\s]+$")),
  ("zip_us",    re.compile(r"^\d{5}(-\d{4})?$")),
  ("phone",     re.compile(r"^\+?[\d\s\-().]{7,15}$")),
  ("iso_date",  re.compile(r"^\d{4}-\d{2}-\d{2}$")),
  ("iso_ts",    re.compile(r"^\d{4}-\d{2}-\d{2}[ T]\d{2}:\d{2}")),
  ("hex_color", re.compile(r"^#[0-9a-f]{3,6}$", re.I)),
  ("int_code",  re.compile(r"^\d{1,6}$")),
  ("alpha_code",re.compile(r"^[A-Z]{2,4}$")),
  \<close>
\<close>

definition FORMAT_PATTERNS :: "string list" where
  "FORMAT_PATTERNS =
     [''uuid'', ''email'', ''zip_us'', ''phone'', ''iso_date'', ''iso_ts'', ''hex_color'',
      ''int_code'', ''alpha_code'']"

definition WEIGHT_MAP :: "(string \<times> rat) list" where
  "WEIGHT_MAP =
     [(''naming_exact'', fl 1),
      (''cardinality_match'', fl (95/100)),
      (''overlap_high'', fl (90/100)),
      (''name_sim'', fl (60/100)),
      (''overlap_medium'', fl (55/100)),
      (''dist_high'', fl (50/100)),
      (''format_match'', fl (40/100)),
      (''dist_med'', fl (30/100)),
      (''name_sim_weak'', fl (25/100)),
      (''null_corr'', fl (20/100))]"

definition LABEL_MAP :: "(string \<times> string) list" where
  "LABEL_MAP =
     [(''naming_exact'', ''naming''),
      (''name_sim'', ''name_similarity''),
      (''name_sim_weak'', ''name_similarity''),
      (''overlap_high'', ''value_overlap''),
      (''overlap_medium'', ''value_overlap''),
      (''cardinality_match'', ''cardinality''),
      (''format_match'', ''format''),
      (''dist_high'', ''distribution''),
      (''dist_med'', ''distribution''),
      (''null_corr'', ''null_pattern'')]"

definition CONF_RANK :: "(string \<times> int) list" where
  "CONF_RANK = [(''low'', 0), (''medium'', 1), (''high'', 2)]"

text \<open>\<^verbatim>\<open>d.get(k, default)\<close>\<close>

definition dict_get :: "('k \<times> 'a) list \<Rightarrow> 'k \<Rightarrow> 'a \<Rightarrow> 'a" where
  "dict_get d k dflt = (case map_of d k of Some v \<Rightarrow> v | None \<Rightarrow> dflt)"

subsection \<open>Low-level signal functions\<close>

text \<open>
  \<^verbatim>\<open>
  def _col_dtype_class(series):
      if pd.api.types.is_numeric_dtype(series): return "numeric"
      if pd.api.types.is_datetime64_any_dtype(series): return "datetime"
      return "string"
  \<close>
\<close>

definition col_dtype_class :: "'v series \<Rightarrow> string" where
  "col_dtype_class s =
     (if is_numeric_dtype s then ''numeric''
      else if is_datetime64_any_dtype s then ''datetime''
      else ''string'')"

text \<open>
  The loop of \<^verbatim>\<open>_format_fingerprint\<close> over the patterns:
  \<^verbatim>\<open>
  for name, pat in FORMAT_PATTERNS:
      if probe.str.match(pat).sum() / len(probe) >= 0.80:
          return name
  return None
  \<close>
\<close>

fun first_format :: "('v, 'g) lib \<Rightarrow> string list \<Rightarrow> string list \<Rightarrow> string option" where
  "first_format L probe [] = None"
| "first_format L probe (name # ps) =
     (if fl (80/100) \<le> fdiv (of_nat (length (filter (pattern_match L name) probe)))
                              (of_nat (length probe))
      then Some name
      else first_format L probe ps)"

text \<open>
  \<^verbatim>\<open>
  def _format_fingerprint(series, sample=200):
      vals = series.dropna().astype(str)
      if len(vals) == 0: return None
      probe = vals.sample(min(sample, len(vals)), random_state=42)
      ...
  \<close>
  The argument \<open>g\<close> is the state of the generator shared by the process when the function
  is called. pandas returns a sample of the size asked for, here at least 1, so the
  division by \<^verbatim>\<open>len(probe)\<close> is defined.
\<close>

definition format_fingerprint :: "('v, 'g) lib \<Rightarrow> 'g \<Rightarrow> 'v series \<Rightarrow> string option" where
  "format_fingerprint L g s =
     (let vals = dropna_str L s in
      if length vals = 0 then None
      else let probe = pd_sample L g (min 200 (length vals)) (Some 42) vals
           in first_format L probe FORMAT_PATTERNS)"

text \<open>
  \<^verbatim>\<open>
  def _value_overlap(vals1, vals2):
      s1 = set(vals1.dropna().astype(str).unique()[:50_000])
      s2 = set(vals2.dropna().astype(str).unique()[:50_000])
      if not s1: return 0.0
      return len(s1 & s2) / len(s1)
  \<close>
  The two sets are kept as lists without repetition.
\<close>

definition value_overlap :: "('v, 'g) lib \<Rightarrow> 'v series \<Rightarrow> 'v series \<Rightarrow> rat" where
  "value_overlap L vals1 vals2 =
     (let s1 = take 50000 (unique (dropna_str L vals1));
          s2 = take 50000 (unique (dropna_str L vals2))
      in if s1 = [] then 0
         else fdiv (of_nat (length (filter (\<lambda>x. x \<in> set s2) s1))) (of_nat (length s1)))"

text \<open>
  \<^verbatim>\<open>
  def _distribution_similarity(vals1, vals2):
      s1 = vals1.dropna().astype(str).value_counts()
      s2 = vals2.dropna().astype(str).value_counts()
      if s1.empty or s2.empty: return 0.0
      vocab = list(set(s1.index) | set(s2.index))
      v1 = np.array([s1.get(w, 0) for w in vocab], dtype=float)
      v2 = np.array([s2.get(w, 0) for w in vocab], dtype=float)
      n1, n2 = np.linalg.norm(v1), np.linalg.norm(v2)
      if n1 == 0 or n2 == 0: return 0.0
      return float(np.dot(v1, v2) / (n1 * n2))
  \<close>
\<close>

definition distribution_similarity :: "('v, 'g) lib \<Rightarrow> 'v series \<Rightarrow> 'v series \<Rightarrow> rat" where
  "distribution_similarity L vals1 vals2 =
     (let a = dropna_str L vals1;
          b = dropna_str L vals2
      in if a = [] \<or> b = [] then 0
         else let vocab = list_of_set L (a @ b);
                  v1 = map (\<lambda>w. of_nat (count_list a w)) vocab;
                  v2 = map (\<lambda>w. of_nat (count_list b w)) vocab;
                  n1 = np_norm L v1;
                  n2 = np_norm L v2
              in if n1 = 0 \<or> n2 = 0 then 0
                 else fdiv (np_dot L v1 v2) (fmul n1 n2))"

text \<open>
  \<^verbatim>\<open>mask.std() == 0\<close> for a sequence of zeros and ones: the sample standard deviation
  is NaN below two elements, and 0 exactly when all elements are the same.
\<close>

definition std_is_zero :: "nat list \<Rightarrow> bool" where
  "std_is_zero msk =
     (case msk of x # y # rest \<Rightarrow> list_all (\<lambda>z. z = x) (y # rest) | _ \<Rightarrow> False)"

text \<open>
  \<^verbatim>\<open>
  def _null_pattern_correlation(df1, col1, df2, col2):
      if len(df1) != len(df2): return 0.0
      try:
          from scipy.stats import pearsonr
          mask1 = df1[col1].isna().astype(int)
          mask2 = df2[col2].isna().astype(int)
          if mask1.std() == 0 or mask2.std() == 0: return 0.0
          r, _ = pearsonr(mask1, mask2)
          return float(r)
      except Exception:
          return 0.0
  \<close>
\<close>

definition isna_mask :: "'v series \<Rightarrow> nat list" where
  "isna_mask s = map (\<lambda>c. if c = None then 1 else 0) (cells s)"

definition null_pattern_correlation ::
  "('v, 'g) lib \<Rightarrow> 'v dataframe \<Rightarrow> 'v series \<Rightarrow> 'v dataframe \<Rightarrow> 'v series \<Rightarrow> rat" where
  "null_pattern_correlation L df1 s1 df2 s2 =
     (if nrows df1 \<noteq> nrows df2 then 0
      else let mask1 = isna_mask s1;
               mask2 = isna_mask s2
           in if std_is_zero mask1 \<or> std_is_zero mask2 then 0
              else case pearsonr L mask1 mask2 of None \<Rightarrow> 0 | Some r \<Rightarrow> r)"

subsection \<open>Relationships\<close>

record rel_key =
  from_table :: string
  from_col :: string
  to_table :: string
  to_col :: "string option"

text \<open>The tuple \<^verbatim>\<open>(r["from_table"], r["from_col"], r["to_table"], r["to_col"])\<close>.\<close>

definition key4 :: "'a rel_key_scheme \<Rightarrow> string \<times> string \<times> string \<times> string option" where
  "key4 r = (from_table r, from_col r, to_table r, to_col r)"

text \<open>The tuple \<^verbatim>\<open>(r["from_table"], r["to_table"])\<close>.\<close>

definition table_pair :: "'a rel_key_scheme \<Rightarrow> string \<times> string" where
  "table_pair r = (from_table r, to_table r)"

subsection \<open>The merge of declared, inferred and manual relationships (app.py)\<close>

text \<open>
  \<^verbatim>\<open>
  _schema_keys = {(r["from_table"], r["from_col"], r["to_table"], r["to_col"])
                  for r in st.session_state.schema_rels}
  _schema_plus_db = st.session_state.schema_rels + [
      r for r in _db_rels
      if (r["from_table"], r["from_col"], r["to_table"], r["to_col"]) not in _schema_keys
  ]
  schema_pairs = {(r["from_table"], r["to_table"]) for r in _schema_plus_db}
  filtered_auto = [r for r in auto_rels if (r["from_table"], r["to_table"]) not in schema_pairs]
  all_rels = _schema_plus_db + filtered_auto + st.session_state.manual_rels
  \<close>
\<close>

definition schema_keys :: "'a rel_key_scheme list \<Rightarrow> (string \<times> string \<times> string \<times> string option) set" where
  "schema_keys schema_rels = set (map key4 schema_rels)"

definition schema_plus_db :: "'a rel_key_scheme list \<Rightarrow> 'a rel_key_scheme list \<Rightarrow> 'a rel_key_scheme list" where
  "schema_plus_db schema_rels db_rels =
     schema_rels @ filter (\<lambda>r. key4 r \<notin> schema_keys schema_rels) db_rels"

definition schema_pairs :: "'a rel_key_scheme list \<Rightarrow> 'a rel_key_scheme list \<Rightarrow> (string \<times> string) set" where
  "schema_pairs schema_rels db_rels = set (map table_pair (schema_plus_db schema_rels db_rels))"

definition filtered_auto ::
  "'a rel_key_scheme list \<Rightarrow> 'a rel_key_scheme list \<Rightarrow> 'a rel_key_scheme list \<Rightarrow> 'a rel_key_scheme list" where
  "filtered_auto schema_rels db_rels auto_rels =
     filter (\<lambda>r. table_pair r \<notin> schema_pairs schema_rels db_rels) auto_rels"

definition all_rels ::
  "'a rel_key_scheme list \<Rightarrow> 'a rel_key_scheme list \<Rightarrow> 'a rel_key_scheme list \<Rightarrow> 'a rel_key_scheme list
     \<Rightarrow> 'a rel_key_scheme list" where
  "all_rels schema_rels db_rels auto_rels manual_rels =
     schema_plus_db schema_rels db_rels @ filtered_auto schema_rels db_rels auto_rels @ manual_rels"

subsection \<open>The candidate scorer\<close>

text \<open>
  The \<^verbatim>\<open>dict\<close> that \<^verbatim>\<open>_score_candidate\<close> returns. \<open>signals\<close> keeps the order in which the
  keys were inserted.
\<close>

record candidate =
  signals :: "(string \<times> rat) list"
  reasons :: "string list"
  score :: rat
  confidence :: string
  detected_by :: string

text \<open>Detection flags: \<^verbatim>\<open>flags.get(k)\<close> is false for a key the \<^verbatim>\<open>dict\<close> does not hold.\<close>

definition flag_get :: "(string \<rightharpoonup> bool) \<Rightarrow> string \<Rightarrow> bool" where
  "flag_get flags k = (case flags k of Some b \<Rightarrow> b | None \<Rightarrow> False)"

text \<open>
  \<^verbatim>\<open>
  def _build_flags(method, overrides):
      if overrides is not None: return overrides
      use_naming  = method in ("naming", "both", "all")
      use_content = method in ("content", "both", "all", "uniqueness")
      return {"naming": use_naming, "value_overlap": use_content, "cardinality": use_content,
              "format": use_content, "distribution": use_content, "null_pattern": use_content}
  \<close>
\<close>

definition build_flags :: "string \<Rightarrow> (string \<rightharpoonup> bool) option \<Rightarrow> (string \<rightharpoonup> bool)" where
  "build_flags method overrides =
     (case overrides of
        Some f \<Rightarrow> f
      | None \<Rightarrow>
          let use_naming = (method \<in> set [''naming'', ''both'', ''all'']);
              use_content = (method \<in> set [''content'', ''both'', ''all'', ''uniqueness''])
          in map_of [(''naming'', use_naming), (''value_overlap'', use_content),
                     (''cardinality'', use_content), (''format'', use_content),
                     (''distribution'', use_content), (''null_pattern'', use_content)])"

text \<open>
  The entries a step of the scorer adds to \<^verbatim>\<open>signals\<close> and the lines it appends to
  \<^verbatim>\<open>reasons\<close>.
\<close>

type_synonym evidence = "(string \<times> rat) list \<times> string list"

definition add_evidence :: "evidence \<Rightarrow> evidence \<Rightarrow> evidence" where
  "add_evidence a b = (fst a @ fst b, snd a @ snd b)"

text \<open>
  The call \<^verbatim>\<open>_jaro_winkler(stem1, stem2)\<close>. The branch \<open>None\<close> is the \<^verbatim>\<open>IndexError\<close>
  that theorem \<open>jaro_winkler_returns\<close> excludes.
\<close>

definition jaro_winkler_value :: "string \<Rightarrow> string \<Rightarrow> rat" where
  "jaro_winkler_value s1 s2 = (case jaro_winkler s1 s2 of Some sim \<Rightarrow> sim | None \<Rightarrow> 0)"

text \<open>
  \<^verbatim>\<open>
  # 1. Naming
  if flags.get("naming"):
      c1  = clean_name(col1)
      t2c = clean_name(t2)
      if is_fk_for(c1, t2c):
          signals["naming_exact"] = 1.0
          reasons.append("exact FK naming")
      else:
          stem1 = re.sub(r"_(id|key|code|num|no)$", "", c1)
          stem2 = re.sub(r"_(id|key|code|num|no)$", "", clean_name(col2))
          sim   = _jaro_winkler(stem1, stem2)
          if sim >= NAME_SIM_HIGH:
              signals["name_sim"]      = sim
              reasons.append(f"name similarity {sim:.2f}")
          elif sim >= NAME_SIM_MED:
              signals["name_sim_weak"] = sim
              reasons.append(f"weak name similarity {sim:.2f}")
  \<close>
\<close>

definition naming_evidence :: "(string \<rightharpoonup> bool) \<Rightarrow> string \<Rightarrow> string \<Rightarrow> string \<Rightarrow> evidence" where
  "naming_evidence flags col1 t2 col2 =
     (if flag_get flags ''naming'' then
        let c1 = clean_name col1;
            t2c = clean_name t2
        in if is_fk_for c1 t2c then ([(''naming_exact'', 1)], [''exact FK naming''])
           else let stem1 = sim_stem c1;
                    stem2 = sim_stem (clean_name col2);
                    sim = jaro_winkler_value stem1 stem2
                in if NAME_SIM_HIGH \<le> sim
                   then ([(''name_sim'', sim)], [''name similarity '' @ format_2f sim])
                   else if NAME_SIM_MED \<le> sim
                   then ([(''name_sim_weak'', sim)], [''weak name similarity '' @ format_2f sim])
                   else ([], [])
      else ([], []))"

text \<open>
  \<^verbatim>\<open>
  # 3. Value overlap
  if flags.get("value_overlap") and len(df1) > 0 and len(df2) > 0:
      ov = _value_overlap(df1[col1], df2[col2])
      if ov >= OVERLAP_HIGH:
          signals["overlap_high"]   = ov
          reasons.append(f"value overlap {ov:.0%}")
      elif ov >= OVERLAP_MEDIUM:
          signals["overlap_medium"] = ov
          reasons.append(f"partial overlap {ov:.0%}")
  \<close>
\<close>

definition overlap_evidence ::
  "('v, 'g) lib \<Rightarrow> (string \<rightharpoonup> bool) \<Rightarrow> 'v series \<Rightarrow> 'v dataframe \<Rightarrow> 'v series \<Rightarrow> 'v dataframe \<Rightarrow> evidence" where
  "overlap_evidence L flags s1 df1 s2 df2 =
     (if flag_get flags ''value_overlap'' \<and> 0 < nrows df1 \<and> 0 < nrows df2 then
        let ov = value_overlap L s1 s2
        in if OVERLAP_HIGH \<le> ov
           then ([(''overlap_high'', ov)], [''value overlap '' @ format_pct ov])
           else if OVERLAP_MEDIUM \<le> ov
           then ([(''overlap_medium'', ov)], [''partial overlap '' @ format_pct ov])
           else ([], [])
      else ([], []))"

text \<open>
  \<^verbatim>\<open>
  # 4. Cardinality
  if flags.get("cardinality") and len(df1) > 0 and len(df2) > 0:
      u1 = set(df1[col1].dropna().astype(str))
      u2 = set(df2[col2].dropna().astype(str))
      if u1 and u2 and u1 == u2:
          signals["cardinality_match"] = 1.0
          reasons.append("identical value sets")
  \<close>
\<close>

definition cardinality_evidence ::
  "('v, 'g) lib \<Rightarrow> (string \<rightharpoonup> bool) \<Rightarrow> 'v series \<Rightarrow> 'v dataframe \<Rightarrow> 'v series \<Rightarrow> 'v dataframe \<Rightarrow> evidence" where
  "cardinality_evidence L flags s1 df1 s2 df2 =
     (if flag_get flags ''cardinality'' \<and> 0 < nrows df1 \<and> 0 < nrows df2 then
        let u1 = dropna_str L s1;
            u2 = dropna_str L s2
        in if u1 \<noteq> [] \<and> u2 \<noteq> [] \<and> set u1 = set u2
           then ([(''cardinality_match'', 1)], [''identical value sets''])
           else ([], [])
      else ([], []))"

text \<open>
  \<^verbatim>\<open>
  # 5. Format fingerprint
  if flags.get("format") and len(df1) > 0 and len(df2) > 0:
      fmt1 = _format_fingerprint(df1[col1])
      fmt2 = _format_fingerprint(df2[col2])
      if fmt1 and fmt2 and fmt1 == fmt2:
          signals["format_match"] = 0.6
          reasons.append(f"shared format [{fmt1}]")
  \<close>
\<close>

definition format_evidence ::
  "('v, 'g) lib \<Rightarrow> 'g \<Rightarrow> (string \<rightharpoonup> bool) \<Rightarrow> 'v series \<Rightarrow> 'v dataframe \<Rightarrow> 'v series \<Rightarrow> 'v dataframe \<Rightarrow> evidence" where
  "format_evidence L g flags s1 df1 s2 df2 =
     (if flag_get flags ''format'' \<and> 0 < nrows df1 \<and> 0 < nrows df2 then
        let fmt1 = format_fingerprint L g s1;
            fmt2 = format_fingerprint L g s2
        in case fmt1 of
             None \<Rightarrow> ([], [])
           | Some name1 \<Rightarrow>
               if name1 \<noteq> [] \<and> fmt2 = Some name1
               then ([(''format_match'', fl (6/10))], [''shared format ['' @ name1 @ '']''])
               else ([], [])
      else ([], []))"

text \<open>
  \<^verbatim>\<open>
  # 6. Distribution similarity
  if flags.get("distribution") and len(df1) > 0 and len(df2) > 0:
      ds = _distribution_similarity(df1[col1], df2[col2])
      if ds >= DIST_SIM_HIGH:
          signals["dist_high"] = ds
          reasons.append(f"distribution similarity {ds:.2f}")
      elif ds >= DIST_SIM_MED:
          signals["dist_med"]  = ds
          reasons.append(f"weak distribution similarity {ds:.2f}")
  \<close>
\<close>

definition distribution_evidence ::
  "('v, 'g) lib \<Rightarrow> (string \<rightharpoonup> bool) \<Rightarrow> 'v series \<Rightarrow> 'v dataframe \<Rightarrow> 'v series \<Rightarrow> 'v dataframe \<Rightarrow> evidence" where
  "distribution_evidence L flags s1 df1 s2 df2 =
     (if flag_get flags ''distribution'' \<and> 0 < nrows df1 \<and> 0 < nrows df2 then
        let ds = distribution_similarity L s1 s2
        in if DIST_SIM_HIGH \<le> ds
           then ([(''dist_high'', ds)], [''distribution similarity '' @ format_2f ds])
           else if DIST_SIM_MED \<le> ds
           then ([(''dist_med'', ds)], [''weak distribution similarity '' @ format_2f ds])
           else ([], [])
      else ([], []))"

text \<open>
  \<^verbatim>\<open>
  # 7. Null pattern correlation
  if flags.get("null_pattern") and len(df1) == len(df2):
      nr = _null_pattern_correlation(df1, col1, df2, col2)
      if nr >= 0.80:
          signals["null_corr"] = nr
          reasons.append(f"null pattern corr {nr:.2f}")
  \<close>
\<close>

definition null_pattern_evidence ::
  "('v, 'g) lib \<Rightarrow> (string \<rightharpoonup> bool) \<Rightarrow> 'v series \<Rightarrow> 'v dataframe \<Rightarrow> 'v series \<Rightarrow> 'v dataframe \<Rightarrow> evidence" where
  "null_pattern_evidence L flags s1 df1 s2 df2 =
     (if flag_get flags ''null_pattern'' \<and> nrows df1 = nrows df2 then
        let nr = null_pattern_correlation L df1 s1 df2 s2
        in if fl (80/100) \<le> nr
           then ([(''null_corr'', nr)], [''null pattern corr '' @ format_2f nr])
           else ([], [])
      else ([], []))"

text \<open>
  The composite score of the fired signals, from their keys in insertion order:
  \<^verbatim>\<open>
  score = round(
      min(1.0, 1.0 - math.prod(1.0 - WEIGHT_MAP.get(k, 0.1) for k in signals)),
      3,
  )
  \<close>
\<close>

definition composite_score :: "string list \<Rightarrow> rat" where
  "composite_score ks =
     py_round (py_min 1 (fsub 1 (math_prod (map (\<lambda>k. fsub 1 (dict_get WEIGHT_MAP k (fl (1/10)))) ks)))) 3"

text \<open>
  \<^verbatim>\<open>max(xs, key=f)\<close> on a non-empty sequence with first element \<open>m\<close>: the first
  element whose key is the largest.
\<close>

fun max_by_key :: "('a \<Rightarrow> rat) \<Rightarrow> 'a \<Rightarrow> 'a list \<Rightarrow> 'a" where
  "max_by_key f m [] = m"
| "max_by_key f m (x # xs) = max_by_key f (if f m < f x then x else m) xs"

text \<open>
  \<^verbatim>\<open>confidence = "high" if score >= 0.85 else "medium" if score >= 0.55 else "low"\<close>
\<close>

definition confidence_of :: "rat \<Rightarrow> string" where
  "confidence_of sc =
     (if fl (85/100) \<le> sc then ''high'' else if fl (55/100) \<le> sc then ''medium'' else ''low'')"

text \<open>
  \<^verbatim>\<open>_score_candidate\<close>. A column is passed as its name together with its series
  \<^verbatim>\<open>df[col]\<close>.
  \<^verbatim>\<open>
  signals = {}; reasons = []
  # 1. Naming ...
  # 2. Type compatibility guard
  if _col_dtype_class(df1[col1]) != _col_dtype_class(df2[col2]):
      return None
  # 3. ... 7.
  if not signals:
      return None
  score = ...
  top_signal  = max(signals, key=lambda k: WEIGHT_MAP.get(k, 0.1))
  detected_by = LABEL_MAP.get(top_signal, "content")
  confidence  = "high" if score >= 0.85 else "medium" if score >= 0.55 else "low"
  return {"signals": signals, "reasons": reasons, "score": score,
          "confidence": confidence, "detected_by": detected_by}
  \<close>
\<close>

definition score_candidate ::
  "('v, 'g) lib \<Rightarrow> 'g \<Rightarrow> string \<Rightarrow> string \<times> 'v series \<Rightarrow> 'v dataframe
     \<Rightarrow> string \<Rightarrow> string \<times> 'v series \<Rightarrow> 'v dataframe \<Rightarrow> (string \<rightharpoonup> bool) \<Rightarrow> candidate option" where
  "score_candidate L g t1 c1 df1 t2 c2 df2 flags =
     (case c1 of (col1, s1) \<Rightarrow> case c2 of (col2, s2) \<Rightarrow>
        let ev1 = naming_evidence flags col1 t2 col2
        in if col_dtype_class s1 \<noteq> col_dtype_class s2 then None
           else let ev = foldl add_evidence ev1
                           [overlap_evidence L flags s1 df1 s2 df2,
                            cardinality_evidence L flags s1 df1 s2 df2,
                            format_evidence L g flags s1 df1 s2 df2,
                            distribution_evidence L flags s1 df1 s2 df2,
                            null_pattern_evidence L flags s1 df1 s2 df2]
                in case map fst (fst ev) of
                     [] \<Rightarrow> None
                   | k # ks \<Rightarrow>
                       let sc = composite_score (k # ks);
                           top_signal = max_by_key (\<lambda>k. dict_get WEIGHT_MAP k (fl (1/10))) k ks
                       in Some \<lparr>signals = fst ev,
                                reasons = snd ev,
                                score = sc,
                                confidence = confidence_of sc,
                                detected_by = dict_get LABEL_MAP top_signal ''content''\<rparr>)"

subsection \<open>The primary-key detector\<close>

text \<open>
  \<^verbatim>\<open>
  def detect_pks(self, df, table_name, method="both"):
      cols = df.columns.tolist()
      n    = len(df)
      if method in ("naming", "both"):
          tname = clean_name(table_name)
          for col in cols:
              if is_pk_name(clean_name(col), tname):
                  return [col]
      if method in ("uniqueness", "both", "content", "all") and n > 0:
          unique_cols = [c for c in cols if df[c].notna().all() and df[c].nunique() == n]
          id_like = [c for c in unique_cols
                     if re.search(r"(_id|_key|_no|_num|_code)$", clean_name(c))]
          if id_like: return [id_like[0]]
          if unique_cols: return [unique_cols[0]]
      return []
  \<close>
\<close>

definition detect_pks :: "'v dataframe \<Rightarrow> string \<Rightarrow> string \<Rightarrow> string list" where
  "detect_pks df table_name method =
     (let cols = map fst (columns df);
          n = nrows df
      in case (if method \<in> set [''naming'', ''both'']
               then find (\<lambda>col. is_pk_name (clean_name col) (clean_name table_name)) cols
               else None) of
           Some col \<Rightarrow> [col]
         | None \<Rightarrow>
             if method \<in> set [''uniqueness'', ''both'', ''content'', ''all''] \<and> 0 < n then
               let unique_cols =
                     map fst (filter (\<lambda>(c, s). notna_all s \<and> nunique s = n) (columns df));
                   id_like =
                     filter (\<lambda>c. re_search_end [''_id'', ''_key'', ''_no'', ''_num'', ''_code'']
                                    (clean_name c)) unique_cols
               in case id_like of
                    c # _ \<Rightarrow> [c]
                  | [] \<Rightarrow> (case unique_cols of c # _ \<Rightarrow> [c] | [] \<Rightarrow> [])
             else [])"

subsection \<open>The pairwise search\<close>

text \<open>
  An entry of the list \<^verbatim>\<open>detect_fks\<close> returns: the four key fields and, in \<open>found\<close>,
  the five entries copied from \<^verbatim>\<open>best_result\<close>.
\<close>

record relationship = rel_key +
  found :: candidate

text \<open>The three accumulators of \<^verbatim>\<open>detect_fks\<close>, created empty by every call.\<close>

record scan_state =
  results :: "relationship list"
  seen :: "string set"
  best :: "string \<rightharpoonup> rat"

text \<open>
  \<^verbatim>\<open>
  pk_map[t] = [c for c in df.columns
               if n > 0 and df[c].notna().all() and df[c].nunique() == n]
  \<close>
\<close>

definition pk_cols :: "'v dataframe \<Rightarrow> (string \<times> 'v series) list" where
  "pk_cols df = filter (\<lambda>(c, s). 0 < nrows df \<and> notna_all s \<and> nunique s = nrows df) (columns df)"

text \<open>
  \<^verbatim>\<open>
  target_cols = pk_map[t2] if pk_map[t2] else list(df2.columns)
  if too_large:
      target_cols = [c for c in target_cols
                     if re.search(r"(_id|_key|id$|key$)", clean_name(c))]
  \<close>
\<close>

definition target_columns :: "'v dataframe \<Rightarrow> bool \<Rightarrow> (string \<times> 'v series) list" where
  "target_columns df2 too_large =
     (let target_cols = (if pk_cols df2 \<noteq> [] then pk_cols df2 else columns df2)
      in if too_large
         then filter (\<lambda>(c, s). contains_sub (clean_name c) ''_id''
                               \<or> contains_sub (clean_name c) ''_key''
                               \<or> re_search_end [''id'', ''key''] (clean_name c)) target_cols
         else target_cols)"

text \<open>
  The body of the loop over the target columns:
  \<^verbatim>\<open>
  result = self._score_candidate(t1, col1, df1, t2, col2, df2, flags)
  if result is None:
      continue
  if best_result is None or result["score"] > best_result["score"]:
      best_result = result
      best_to_col = col2
  \<close>
\<close>

definition keep_best ::
  "('v, 'g) lib \<Rightarrow> 'g \<Rightarrow> (string \<rightharpoonup> bool) \<Rightarrow> string \<Rightarrow> string \<times> 'v series \<Rightarrow> 'v dataframe
     \<Rightarrow> string \<Rightarrow> 'v dataframe \<Rightarrow> (candidate \<times> string) option \<Rightarrow> string \<times> 'v series
     \<Rightarrow> (candidate \<times> string) option" where
  "keep_best L g flags t1 c1 df1 t2 df2 acc c2 =
     (case score_candidate L g t1 c1 df1 t2 c2 df2 flags of
        None \<Rightarrow> acc
      | Some result \<Rightarrow>
          (case acc of
             None \<Rightarrow> Some (result, fst c2)
           | Some (best_result, best_to_col) \<Rightarrow>
               if score best_result < score result then Some (result, fst c2) else acc))"

text \<open>
  The body of the loop over the target tables, for the source column \<open>c1\<close> of table \<open>t1\<close>:
  \<^verbatim>\<open>
  if t2 == t1: continue
  rel_key = f"{t1}|{col1}|{t2}"
  if rel_key in seen: continue
  df2 = tables[t2]
  ...
  if best_result is None: continue
  if CONF_RANK.get(best_result["confidence"], 0) < min_rank: continue
  col_key = f"{t1}|{col1}"
  if col_key in best and best[col_key] > best_result["score"] + 0.05: continue
  best[col_key] = best_result["score"]
  seen.add(rel_key)
  results.append(dict(from_table=t1, from_col=col1, to_table=t2, to_col=best_to_col, ...))
  \<close>
\<close>

definition scan_target ::
  "('v, 'g) lib \<Rightarrow> 'g \<Rightarrow> (string \<rightharpoonup> bool) \<Rightarrow> int \<Rightarrow> string \<Rightarrow> string \<times> 'v series \<Rightarrow> 'v dataframe
     \<Rightarrow> bool \<Rightarrow> scan_state \<Rightarrow> string \<times> 'v dataframe \<Rightarrow> scan_state" where
  "scan_target L g flags min_rank t1 c1 df1 too_large st tbl2 =
     (case tbl2 of (t2, df2) \<Rightarrow>
        if t2 = t1 then st
        else let rel_key = t1 @ ''|'' @ fst c1 @ ''|'' @ t2
             in if rel_key \<in> seen st then st
                else case foldl (keep_best L g flags t1 c1 df1 t2 df2) None
                            (target_columns df2 too_large) of
                       None \<Rightarrow> st
                     | Some (best_result, best_to_col) \<Rightarrow>
                         if dict_get CONF_RANK (confidence best_result) 0 < min_rank then st
                         else let col_key = t1 @ ''|'' @ fst c1
                              in if (case best st col_key of
                                       None \<Rightarrow> False
                                     | Some b \<Rightarrow> fadd (score best_result) (fl (5/100)) < b)
                                 then st
                                 else st\<lparr>best := (best st)(col_key \<mapsto> score best_result),
                                         seen := insert rel_key (seen st),
                                         results := results st @
                                           [\<lparr>from_table = t1, from_col = fst c1, to_table = t2,
                                             to_col = Some best_to_col, found = best_result\<rparr>]\<rparr>)"

text \<open>
  The body of the loop over the columns of \<open>t1\<close>:
  \<^verbatim>\<open>
  if col1 in pk_map[t1]: continue
  too_large = len(df1) > 150_000 or len(df1.columns) > 300
  for t2 in tnames: ...
  \<close>
\<close>

definition scan_column ::
  "('v, 'g) lib \<Rightarrow> 'g \<Rightarrow> (string \<rightharpoonup> bool) \<Rightarrow> int \<Rightarrow> (string \<times> 'v dataframe) list \<Rightarrow> string
     \<Rightarrow> 'v dataframe \<Rightarrow> scan_state \<Rightarrow> string \<times> 'v series \<Rightarrow> scan_state" where
  "scan_column L g flags min_rank tables t1 df1 st c1 =
     (if fst c1 \<in> set (map fst (pk_cols df1)) then st
      else let too_large = (150000 < nrows df1 \<or> 300 < length (columns df1))
           in foldl (scan_target L g flags min_rank t1 c1 df1 too_large) st tables)"

text \<open>
  The body of the loop over the source tables:
  \<^verbatim>\<open>
  df1 = tables[t1]
  if len(df1) == 0 and not flags.get("naming"): continue
  for col1 in df1.columns: ...
  \<close>
\<close>

definition scan_table ::
  "('v, 'g) lib \<Rightarrow> 'g \<Rightarrow> (string \<rightharpoonup> bool) \<Rightarrow> int \<Rightarrow> (string \<times> 'v dataframe) list
     \<Rightarrow> scan_state \<Rightarrow> string \<times> 'v dataframe \<Rightarrow> scan_state" where
  "scan_table L g flags min_rank tables st tbl1 =
     (case tbl1 of (t1, df1) \<Rightarrow>
        if nrows df1 = 0 \<and> \<not> flag_get flags ''naming'' then st
        else foldl (scan_column L g flags min_rank tables t1 df1) st (columns df1))"

text \<open>
  \<^verbatim>\<open>detect_fks\<close>. The tables are the items of the \<^verbatim>\<open>dict\<close> in order; \<open>g\<close> is the state of
  the generator shared by the process when the call starts.
  \<^verbatim>\<open>
  if method == "manual" or len(tables) < 2:
      return []
  min_rank = CONF_RANK.get(min_confidence, 1)
  flags    = self._build_flags(method, enable_flags)
  tnames   = list(tables.keys())
  ...
  results = []; seen = set(); best = {}
  for t1 in tnames: ...
  results.sort(key=lambda r: (-CONF_RANK.get(r["confidence"], 0), -r["score"]))
  return results
  \<close>
\<close>

definition detect_fks ::
  "('v, 'g) lib \<Rightarrow> 'g \<Rightarrow> (string \<times> 'v dataframe) list \<Rightarrow> string \<Rightarrow> string
     \<Rightarrow> (string \<rightharpoonup> bool) option \<Rightarrow> relationship list" where
  "detect_fks L g tables method min_confidence enable_flags =
     (if method = ''manual'' \<or> length tables < 2 then []
      else let min_rank = dict_get CONF_RANK min_confidence 1;
               flags = build_flags method enable_flags;
               st = foldl (scan_table L g flags min_rank tables)
                      \<lparr>results = [], seen = {}, best = Map.empty\<rparr> tables
           in sort_key (\<lambda>r. (- dict_get CONF_RANK (confidence (found r)) 0, - score (found r)))
                (results st))"

subsection \<open>Auxiliary notions of the proofs\<close>

text \<open>The factor \<^verbatim>\<open>1.0 - WEIGHT_MAP.get(k, 0.1)\<close> of the product in the composite score.\<close>

definition factor :: "string \<Rightarrow> rat" where
  "factor k = fsub 1 (dict_get WEIGHT_MAP k (fl (1/10)))"

text \<open>The number of marked positions of a list of marks.\<close>

definition count_true :: "bool list \<Rightarrow> nat" where
  "count_true m = length (filter (\<lambda>b. b) m)"

text \<open>
  A stand-in for the libraries, to evaluate the model at given inputs: cells are strings,
  no format pattern matches, a sample is the first \<open>n\<close> values, and the correlation is
  not available.
\<close>

definition plain_lib :: "(string, unit) lib" where
  "plain_lib = \<lparr>astype_str = (\<lambda>v. v),
                 pattern_match = (\<lambda>name s. False),
                 random_state = (\<lambda>seed. ()),
                 sample_with = (\<lambda>gen n xs. take n xs),
                 list_of_set = remdups,
                 np_dot = (\<lambda>v w. sum_list (map (\<lambda>(x, y). x * y) (zip v w))),
                 np_norm = (\<lambda>v. sum_list v),
                 pearsonr = (\<lambda>a b. None)\<rparr>"

text \<open>Tables at which the model is evaluated.\<close>

definition demo_orders :: "string dataframe" where
  "demo_orders = \<lparr>nrows = 3, columns =
    [(''name'', \<lparr>is_numeric_dtype = False, is_datetime64_any_dtype = False,
                 cells = [Some ''ann'', Some ''bob'', Some ''cy'']\<rparr>),
     (''Order ID'', \<lparr>is_numeric_dtype = False, is_datetime64_any_dtype = False,
                     cells = [Some ''7'', None, Some ''7'']\<rparr>),
     (''id'', \<lparr>is_numeric_dtype = False, is_datetime64_any_dtype = False,
               cells = [Some ''1'', Some ''2'', Some ''3'']\<rparr>)]\<rparr>"

definition demo_str_customer_id :: "string series" where
  "demo_str_customer_id = \<lparr>is_numeric_dtype = False, is_datetime64_any_dtype = False,
                            cells = [Some ''c1'', Some ''c2'']\<rparr>"

definition demo_date_customer_id :: "string series" where
  "demo_date_customer_id = \<lparr>is_numeric_dtype = False, is_datetime64_any_dtype = True,
                             cells = [Some ''2024-01-01'', Some ''2024-01-02'']\<rparr>"

definition demo_cust :: "string series" where
  "demo_cust = \<lparr>is_numeric_dtype = False, is_datetime64_any_dtype = False,
                 cells = [Some ''a'', Some ''b'', Some ''c'', Some ''d'', Some ''e'', Some ''a'']\<rparr>"

definition demo_ident :: "string series" where
  "demo_ident = \<lparr>is_numeric_dtype = False, is_datetime64_any_dtype = False,
                  cells = [Some ''a'', Some ''b'', Some ''c'', Some ''d'', Some ''z'']\<rparr>"

definition demo_orders_table :: "string dataframe" where
  "demo_orders_table = \<lparr>nrows = 6, columns = [(''cust'', demo_cust)]\<rparr>"

definition demo_people_table :: "string dataframe" where
  "demo_people_table = \<lparr>nrows = 5, columns = [(''ident'', demo_ident)]\<rparr>"

text \<open>The candidate that the scorer returns for the two columns of these tables.\<close>

definition demo_candidate :: candidate where
  "demo_candidate = \<lparr>signals = [(''overlap_medium'', fl (4/5))],
                      reasons = [''partial overlap 80%''],
                      score = fl (55/100), confidence = ''medium'',
                      detected_by = ''value_overlap''\<rparr>"

definition demo_relationship :: relationship where
  "demo_relationship = \<lparr>from_table = ''orders'', from_col = ''cust'', to_table = ''people'',
                          to_col = Some ''ident'', found = demo_candidate\<rparr>"

definition demo_tables :: "(string \<times> string dataframe) list" where
  "demo_tables = [(''orders'', demo_orders_table), (''people'', demo_people_table)]"

text \<open>
  Three tables for the keys of the search. The table \<^verbatim>\<open>a\<close> has the column \<^verbatim>\<open>b|c\<close>, whose
  only value \<^verbatim>\<open>z\<close> is a value of the column \<^verbatim>\<open>c\<close> of the second table and is not a value
  of the key \<^verbatim>\<open>k\<close> of the table \<^verbatim>\<open>u\<close>; four of the five values of the column \<^verbatim>\<open>c\<close> are
  values of that key. The name of the second table is left open.
\<close>

definition demo_zz :: "string series" where
  "demo_zz = \<lparr>is_numeric_dtype = False, is_datetime64_any_dtype = False,
               cells = [Some ''z'', Some ''z'']\<rparr>"

definition demo_mixed :: "string series" where
  "demo_mixed = \<lparr>is_numeric_dtype = False, is_datetime64_any_dtype = False,
                  cells = [Some ''a'', Some ''b'', Some ''c'', Some ''d'', Some ''z'', Some ''a'']\<rparr>"

definition demo_key :: "string series" where
  "demo_key = \<lparr>is_numeric_dtype = False, is_datetime64_any_dtype = False,
                cells = [Some ''a'', Some ''b'', Some ''c'', Some ''d'', Some ''x'']\<rparr>"

definition demo_a_table :: "string dataframe" where
  "demo_a_table = \<lparr>nrows = 2, columns = [(''b|c'', demo_zz)]\<rparr>"

definition demo_c_table :: "string dataframe" where
  "demo_c_table = \<lparr>nrows = 6, columns = [(''c'', demo_mixed)]\<rparr>"

definition demo_u_table :: "string dataframe" where
  "demo_u_table = \<lparr>nrows = 5, columns = [(''k'', demo_key)]\<rparr>"

definition demo_three_tables :: "string \<Rightarrow> (string \<times> string dataframe) list" where
  "demo_three_tables second = [(''a'', demo_a_table), (second, demo_c_table), (''u'', demo_u_table)]"

text \<open>The candidate of a column all of whose values are in the target column.\<close>

definition demo_high_candidate :: candidate where
  "demo_high_candidate = \<lparr>signals = [(''overlap_high'', 1)],
                           reasons = [''value overlap 100%''],
                           score = fl (9/10), confidence = ''high'',
                           detected_by = ''value_overlap''\<rparr>"

text \<open>
  Four tables for the keys of the accepted triples, with no vertical bar in a column name.
  The column \<^verbatim>\<open>b\<close> of the table \<^verbatim>\<open>a\<close> holds the value \<^verbatim>\<open>z\<close> only and the column \<^verbatim>\<open>c\<close> of the
  second table the value \<^verbatim>\<open>d\<close> only; both are values of the key \<^verbatim>\<open>ident\<close> of the third
  table and of the table \<^verbatim>\<open>d\<close>. The names of the second and the third table are left
  open.
\<close>

definition demo_dd :: "string series" where
  "demo_dd = \<lparr>is_numeric_dtype = False, is_datetime64_any_dtype = False,
               cells = [Some ''d'', Some ''d'']\<rparr>"

definition demo_b_table :: "string dataframe" where
  "demo_b_table = \<lparr>nrows = 2, columns = [(''b'', demo_zz)]\<rparr>"

definition demo_d_table :: "string dataframe" where
  "demo_d_table = \<lparr>nrows = 2, columns = [(''c'', demo_dd)]\<rparr>"

definition demo_four_tables :: "string \<Rightarrow> string \<Rightarrow> (string \<times> string dataframe) list" where
  "demo_four_tables second third =
     [(''a'', demo_b_table), (second, demo_d_table), (third, demo_people_table),
      (''d'', demo_people_table)]"

text \<open>
  The near-best filter as the specification words it, on the candidates of one source
  column in the order of the target tables: there is one running value, absent at the
  start; a candidate is skipped when the running value exceeds its score by more than 0.05
  (the sum and the comparison as the source computes them, in doubles); otherwise it is
  accepted and the running value becomes its score.
\<close>

fun near_best_spec :: "rat option \<Rightarrow> relationship list \<Rightarrow> relationship list" where
  "near_best_spec running [] = []"
| "near_best_spec running (r # rs) =
     (if (case running of None \<Rightarrow> False | Some b \<Rightarrow> fadd (score (found r)) (fl (5/100)) < b)
      then near_best_spec running rs
      else r # near_best_spec (Some (score (found r))) rs)"

text \<open>
  The candidate that a target table offers to the filter: the part of the loop body of
  \<^verbatim>\<open>detect_fks\<close> between the test of \<^verbatim>\<open>rel_key\<close> and the filter, that is the best result
  over the target columns when it passes the minimum confidence.
\<close>

definition target_candidate ::
  "('v, 'g) lib \<Rightarrow> 'g \<Rightarrow> (string \<rightharpoonup> bool) \<Rightarrow> int \<Rightarrow> string \<Rightarrow> string \<times> 'v series \<Rightarrow> 'v dataframe
     \<Rightarrow> bool \<Rightarrow> string \<times> 'v dataframe \<Rightarrow> relationship option" where
  "target_candidate L g flags min_rank t1 c1 df1 too_large tbl2 =
     (case tbl2 of (t2, df2) \<Rightarrow>
        if t2 = t1 then None
        else case foldl (keep_best L g flags t1 c1 df1 t2 df2) None (target_columns df2 too_large) of
               None \<Rightarrow> None
             | Some (best_result, best_to_col) \<Rightarrow>
                 if dict_get CONF_RANK (confidence best_result) 0 < min_rank then None
                 else Some \<lparr>from_table = t1, from_col = fst c1, to_table = t2,
                            to_col = Some best_to_col, found = best_result\<rparr>)"

text \<open>
  The relationships of a source column and of a source table when the filter is applied
  to each source column on its own, with no keys.
\<close>

definition column_relationships ::
  "('v, 'g) lib \<Rightarrow> 'g \<Rightarrow> (string \<rightharpoonup> bool) \<Rightarrow> int \<Rightarrow> (string \<times> 'v dataframe) list \<Rightarrow> string
     \<Rightarrow> 'v dataframe \<Rightarrow> string \<times> 'v series \<Rightarrow> relationship list" where
  "column_relationships L g flags min_rank tables t1 df1 c1 =
     (if fst c1 \<in> set (map fst (pk_cols df1)) then []
      else near_best_spec None
             (List.map_filter
                (target_candidate L g flags min_rank t1 c1 df1
                   (150000 < nrows df1 \<or> 300 < length (columns df1))) tables))"

definition table_relationships ::
  "('v, 'g) lib \<Rightarrow> 'g \<Rightarrow> (string \<rightharpoonup> bool) \<Rightarrow> int \<Rightarrow> (string \<times> 'v dataframe) list
     \<Rightarrow> string \<times> 'v dataframe \<Rightarrow> relationship list" where
  "table_relationships L g flags min_rank tables tbl1 =
     (case tbl1 of (t1, df1) \<Rightarrow>
        if nrows df1 = 0 \<and> \<not> flag_get flags ''naming'' then []
        else concat (map (column_relationships L g flags min_rank tables t1 df1) (columns df1)))"

text \<open>
  No key of the source columns \<open>R\<close> is in the accumulators yet: no value stored under
  \<^verbatim>\<open>col_key\<close>, and no \<^verbatim>\<open>rel_key\<close> towards a table of \<open>T\<close> seen.
\<close>

definition fresh_keys :: "string set \<Rightarrow> (string \<times> string) set \<Rightarrow> scan_state \<Rightarrow> bool" where
  "fresh_keys T R st \<longleftrightarrow>
     (\<forall>(t, c) \<in> R. best st (t @ ''|'' @ c) = None
                    \<and> (\<forall>t2 \<in> T. t @ ''|'' @ c @ ''|'' @ t2 \<notin> seen st))"

section \<open>Part II: properties\<close>

subsection \<open>Rounding to a double is monotone and idempotent\<close>

lemma rhe_of_int: "rhe (of_int n) = n"
  by (simp add: rhe_def)

lemma rhe_ge_floor: "\<lfloor>x\<rfloor> \<le> rhe x"
  by (simp add: rhe_def Let_def)

lemma rhe_le_floor1: "rhe x \<le> \<lfloor>x\<rfloor> + 1"
  by (simp add: rhe_def Let_def)

lemma rhe_mono: "x \<le> y \<Longrightarrow> rhe x \<le> rhe y"
proof -
  assume xy: "x \<le> y"
  have "\<lfloor>x\<rfloor> \<le> \<lfloor>y\<rfloor>" using xy by (rule floor_mono)
  then consider "\<lfloor>x\<rfloor> = \<lfloor>y\<rfloor>" | "\<lfloor>x\<rfloor> + 1 \<le> \<lfloor>y\<rfloor>" by linarith
  then show ?thesis
  proof cases
    case 1
    then show ?thesis using xy by (auto simp: rhe_def Let_def)
  next
    case 2
    then show ?thesis using rhe_le_floor1 [of x] rhe_ge_floor [of y] by linarith
  qed
qed

lemma rhe_ge: "of_int n \<le> x \<Longrightarrow> n \<le> rhe x"
  using rhe_mono [of "of_int n" x] by (simp add: rhe_of_int)

lemma rhe_le: "x \<le> of_int n \<Longrightarrow> rhe x \<le> n"
  using rhe_mono [of x "of_int n"] by (simp add: rhe_of_int)

lemma powi_mono2: "(a::int) \<le> b \<Longrightarrow> (2::rat) powi a \<le> 2 powi b"
  by (rule power_int_increasing) simp_all

lemma powi_pos2 [simp]: "0 < (2::rat) powi a"
  by (simp add: zero_less_power_int)

lemma bitlen_pos: "0 < n \<Longrightarrow> 1 \<le> bitlen n"
  by (simp add: bitlen_alt_def)

lemma expo_bounds_ge1:
  assumes "1 \<le> x"
  shows "2 powi expo x \<le> x \<and> x < 2 powi (expo x + 1)"
proof -
  define n where "n = \<lfloor>x\<rfloor>"
  have n: "0 < n" using assms by (simp add: n_def)
  have b: "1 \<le> bitlen n" using n by (rule bitlen_pos)
  have e: "expo x = bitlen n - 1" using assms by (simp add: expo_def n_def)
  from bitlen_bounds [OF n] have lo: "2 ^ nat (bitlen n - 1) \<le> n" and hi: "n < 2 ^ nat (bitlen n)"
    by simp_all
  have "(2::rat) powi (bitlen n - 1) = of_int (2 ^ nat (bitlen n - 1))"
    using b by (simp add: power_int_def)
  also have "\<dots> \<le> of_int n" using lo by (simp only: of_int_le_iff)
  also have "\<dots> \<le> x" by (simp add: n_def)
  finally have 1: "2 powi expo x \<le> x" by (simp add: e)
  have "n + 1 \<le> 2 ^ nat (bitlen n)" using hi by simp
  then have "(of_int (n + 1) :: rat) \<le> of_int (2 ^ nat (bitlen n))" by (simp only: of_int_le_iff)
  moreover have "x < of_int (n + 1)" using floor_correct [of x] by (simp add: n_def)
  moreover have "(of_int (2 ^ nat (bitlen n)) :: rat) = 2 powi (bitlen n)"
    using b by (simp add: power_int_def)
  ultimately have 2: "x < 2 powi (expo x + 1)" by (simp add: e)
  from 1 2 show ?thesis ..
qed

lemma expo_bounds_lt1:
  assumes "0 < x" "x < 1"
  shows "2 powi expo x \<le> x \<and> x < 2 powi (expo x + 1)"
proof -
  define y where "y = 1 / x"
  define m where "m = \<lceil>y\<rceil> - 1"
  define k where "k = bitlen m"
  have y1: "1 < y" using assms by (simp add: y_def)
  have ypos: "0 < y" using y1 by simp
  have x: "1 / y = x" using assms by (simp add: y_def)
  have m: "0 < m" using y1 by (simp add: m_def less_ceiling_iff)
  have k1: "1 \<le> k" unfolding k_def using m by (rule bitlen_pos)
  have e: "expo x = - k" using assms by (simp add: expo_def k_def m_def y_def)
  from bitlen_bounds [OF m] have lo: "2 ^ nat (k - 1) \<le> m" and hi: "m < 2 ^ nat k"
    by (simp_all add: k_def)
  have "\<lceil>y\<rceil> \<le> 2 ^ nat k" using hi by (simp add: m_def)
  then have "y \<le> of_int (2 ^ nat k)" by (simp only: ceiling_le_iff)
  also have "\<dots> = 2 powi k" using k1 by (simp add: power_int_def)
  finally have yk: "y \<le> 2 powi k" .
  have "2 powi (- k) = 1 / ((2::rat) powi k)" by (rule power_int_minus_divide)
  also have "\<dots> \<le> 1 / y" using yk ypos by (simp add: frac_le)
  finally have 1: "2 powi expo x \<le> x" by (simp only: e x)
  have "(2::rat) powi (k - 1) = of_int (2 ^ nat (k - 1))" using k1 by (simp add: power_int_def)
  also have "\<dots> \<le> of_int m" using lo by (simp only: of_int_le_iff)
  also have "\<dots> < y" by (simp add: m_def) linarith
  finally have ky: "2 powi (k - 1) < y" .
  have "1 / y < 1 / (2 powi (k - 1))" using ky by (simp add: frac_less2)
  also have "1 / ((2::rat) powi (k - 1)) = 2 powi (- k + 1)"
    using power_int_minus_divide [of "2::rat" "k - 1"] by simp
  finally have 2: "x < 2 powi (expo x + 1)" by (simp only: e x)
  from 1 2 show ?thesis ..
qed

lemma expo_bounds:
  assumes "0 < x"
  shows "2 powi expo x \<le> x" and "x < 2 powi (expo x + 1)"
  using expo_bounds_ge1 [of x] expo_bounds_lt1 [of x] assms by (cases "1 \<le> x"; simp)+

lemma powi_less_imp: "(2::rat) powi a < 2 powi b \<Longrightarrow> a < b"
  using powi_mono2 [of b a] by (cases "a < b") auto

lemma expo_unique:
  assumes "0 < x" "2 powi e \<le> x" "x < 2 powi (e + 1)"
  shows "expo x = e"
proof -
  have "(2::rat) powi e < 2 powi (expo x + 1)" using assms(2) expo_bounds(2) [OF assms(1)] by simp
  then have "e < expo x + 1" by (rule powi_less_imp)
  moreover have "(2::rat) powi (expo x) < 2 powi (e + 1)" using assms(3) expo_bounds(1) [OF assms(1)] by simp
  then have "expo x < e + 1" by (rule powi_less_imp)
  ultimately show ?thesis by simp
qed

lemma expo_mono:
  assumes "0 < x" "x \<le> y"
  shows "expo x \<le> expo y"
proof -
  have "0 < y" using assms by simp
  have "(2::rat) powi (expo x) < 2 powi (expo y + 1)"
    using expo_bounds(1) [OF assms(1)] expo_bounds(2) [OF \<open>0 < y\<close>] assms(2) by simp
  then have "expo x < expo y + 1" by (rule powi_less_imp)
  then show ?thesis by simp
qed

lemma powi_nonneg2: "0 \<le> (2::rat) powi a"
  using powi_pos2 [of a] by simp

lemma powi2_add: "(2::rat) powi (a + b) = 2 powi a * 2 powi b"
  by (rule power_int_add) simp

lemma powi2_52: "(2::rat) powi 52 = 2 ^ 52" and powi2_53: "(2::rat) powi 53 = 2 ^ 53"
  by simp_all

lemma fl_pos: "0 < x \<Longrightarrow> fl x = of_int (rhe (mant x)) * 2 powi (expo x - 52)"
  by (simp add: fl_def mant_def Let_def)

lemma mant_bounds:
  assumes "0 < x"
  shows "2 ^ 52 \<le> mant x" and "mant x < 2 ^ 53"
proof -
  have "2 powi expo x * 2 powi (52 - expo x) \<le> x * 2 powi (52 - expo x)"
    using expo_bounds(1) [OF assms] by (simp add: mult_right_mono)
  moreover have "(2::rat) powi expo x * 2 powi (52 - expo x) = 2 powi 52"
    using powi2_add [of "expo x" "52 - expo x"] by simp
  ultimately show "2 ^ 52 \<le> mant x" by (simp add: mant_def)
  have "x * 2 powi (52 - expo x) < 2 powi (expo x + 1) * 2 powi (52 - expo x)"
    using expo_bounds(2) [OF assms] by (simp add: mult_strict_right_mono)
  moreover have "(2::rat) powi (expo x + 1) * 2 powi (52 - expo x) = 2 powi 53"
    using powi2_add [of "expo x + 1" "52 - expo x"] by simp
  ultimately show "mant x < 2 ^ 53" by (simp add: mant_def)
qed

lemma rhe_mant_bounds:
  assumes "0 < x"
  shows "2 ^ 52 \<le> rhe (mant x)" and "rhe (mant x) \<le> 2 ^ 53"
proof -
  have "(of_int (2 ^ 52) :: rat) \<le> mant x" using mant_bounds(1) [OF assms] by simp
  then show "2 ^ 52 \<le> rhe (mant x)" by (rule rhe_ge)
  have "mant x \<le> of_int (2 ^ 53)" using mant_bounds(2) [OF assms] by simp
  then show "rhe (mant x) \<le> 2 ^ 53" by (rule rhe_le)
qed

lemma fl_bounds:
  assumes "0 < x"
  shows "2 powi expo x \<le> fl x" and "fl x \<le> 2 powi (expo x + 1)"
proof -
  have "(2::rat) powi expo x = of_int (2 ^ 52) * 2 powi (expo x - 52)"
    using powi2_add [of 52 "expo x - 52"] by simp
  also have "\<dots> \<le> of_int (rhe (mant x)) * 2 powi (expo x - 52)"
    using rhe_mant_bounds(1) [OF assms] by (intro mult_right_mono) (simp_all only: of_int_le_iff powi_nonneg2)
  finally show "2 powi expo x \<le> fl x" by (simp only: fl_pos [OF assms])
  have "(of_int (rhe (mant x)) :: rat) * 2 powi (expo x - 52) \<le> of_int (2 ^ 53) * 2 powi (expo x - 52)"
    using rhe_mant_bounds(2) [OF assms] by (intro mult_right_mono) (simp_all only: of_int_le_iff powi_nonneg2)
  also have "\<dots> = 2 powi (expo x + 1)"
    using powi2_add [of 53 "expo x - 52"] by (simp add: add.commute)
  finally show "fl x \<le> 2 powi (expo x + 1)" by (simp only: fl_pos [OF assms])
qed

lemma fl_pos_pos: "0 < x \<Longrightarrow> 0 < fl x"
  using fl_bounds(1) [of x] powi_pos2 [of "expo x"] by linarith

lemma fl_0 [simp]: "fl 0 = 0"
  by (simp add: fl_def)

lemma fl_nonneg: "0 \<le> x \<Longrightarrow> 0 \<le> fl x"
  using fl_pos_pos [of x] by (cases "x = 0") auto

lemma fl_mono_pos:
  assumes "0 < x" "x \<le> y"
  shows "fl x \<le> fl y"
proof -
  have y: "0 < y" using assms by simp
  have "expo x \<le> expo y" using assms by (rule expo_mono)
  then consider "expo x = expo y" | "expo x + 1 \<le> expo y" by linarith
  then show ?thesis
  proof cases
    case 1
    have "mant x \<le> mant y" using assms 1 by (simp add: mant_def mult_right_mono)
    then have "rhe (mant x) \<le> rhe (mant y)" by (rule rhe_mono)
    then have "(of_int (rhe (mant x)) :: rat) \<le> of_int (rhe (mant y))" by (simp only: of_int_le_iff)
    then show ?thesis
      by (simp add: fl_pos [OF assms(1)] fl_pos [OF y] 1 mult_right_mono)
  next
    case 2
    have "fl x \<le> 2 powi (expo x + 1)" using assms(1) by (rule fl_bounds)
    also have "\<dots> \<le> 2 powi expo y" using 2 by (rule powi_mono2)
    also have "\<dots> \<le> fl y" using y by (rule fl_bounds)
    finally show ?thesis .
  qed
qed

lemma fl_mono: "0 \<le> x \<Longrightarrow> x \<le> y \<Longrightarrow> fl x \<le> fl y"
  using fl_mono_pos [of x y] fl_nonneg [of y] by (cases "x = 0") auto

lemma fl_idem_pos:
  assumes "0 < x"
  shows "fl (fl x) = fl x"
proof -
  define n where "n = rhe (mant x)"
  define e where "e = expo x"
  have flx: "fl x = of_int n * 2 powi (e - 52)" by (simp add: fl_pos [OF assms] n_def e_def)
  have pos: "0 < fl x" using assms by (rule fl_pos_pos)
  have n: "2 ^ 52 \<le> n" "n \<le> 2 ^ 53" using rhe_mant_bounds [OF assms] by (simp_all add: n_def)
  show ?thesis
  proof (cases "n = 2 ^ 53")
    case True
    have "(of_int (2 ^ 53) :: rat) * 2 powi (e - 52) = 2 powi (e + 1)"
      using powi2_add [of 53 "e - 52"] by (simp add: add.commute)
    then have v: "fl x = 2 powi (e + 1)"
      by (simp only: flx True)
    have ex: "expo (fl x) = e + 1"
    proof (rule expo_unique [OF pos])
      show "2 powi (e + 1) \<le> fl x" by (simp add: v)
      show "fl x < 2 powi (e + 1 + 1)"
        unfolding v by (rule power_int_strict_increasing) simp_all
    qed
    have "mant (fl x) = fl x * 2 powi (52 - (e + 1))" by (simp only: mant_def ex)
    also have "\<dots> = 2 powi (e + 1) * 2 powi (52 - (e + 1))" by (simp only: v)
    also have "\<dots> = 2 powi 52" using powi2_add [of "e + 1" "52 - (e + 1)"] by simp
    finally have m: "mant (fl x) = of_int (2 ^ 52)" by simp
    have "fl (fl x) = of_int (rhe (mant (fl x))) * 2 powi (expo (fl x) - 52)"
      using pos by (rule fl_pos)
    also have "\<dots> = of_int (2 ^ 52) * 2 powi (e + 1 - 52)"
      by (simp only: m rhe_of_int ex)
    also have "\<dots> = 2 powi (e + 1)" using powi2_add [of 52 "e + 1 - 52"] by (simp add: add.commute)
    finally show ?thesis by (simp add: v)
  next
    case False
    then have n53: "n + 1 \<le> 2 ^ 53" using n by simp
    have ex: "expo (fl x) = e"
    proof (rule expo_unique [OF pos])
      show "2 powi e \<le> fl x" using fl_bounds(1) [OF assms] by (simp add: e_def)
      have "n < 2 ^ 53" using n53 by simp
      then have "(of_int n :: rat) < of_int (2 ^ 53)" by (simp only: of_int_less_iff)
      then have "(of_int n :: rat) * 2 powi (e - 52) < of_int (2 ^ 53) * 2 powi (e - 52)"
        by (intro mult_strict_right_mono) (simp_all only: powi_pos2)
      also have "(of_int (2 ^ 53) :: rat) * 2 powi (e - 52) = 2 powi (e + 1)"
        using powi2_add [of 53 "e - 52"] by (simp add: add.commute)
      finally show "fl x < 2 powi (e + 1)" by (simp only: flx)
    qed
    have "mant (fl x) = fl x * 2 powi (52 - e)" by (simp only: mant_def ex)
    also have "\<dots> = of_int n * (2 powi (e - 52) * 2 powi (52 - e))"
      by (simp only: flx mult.assoc)
    also have "(2::rat) powi (e - 52) * 2 powi (52 - e) = 1"
      using powi2_add [of "e - 52" "52 - e"] by simp
    finally have m: "mant (fl x) = of_int n" by simp
    have "fl (fl x) = of_int (rhe (mant (fl x))) * 2 powi (expo (fl x) - 52)"
      using pos by (rule fl_pos)
    also have "\<dots> = of_int n * 2 powi (e - 52)" by (simp only: m rhe_of_int ex)
    also have "\<dots> = fl x" by (simp only: flx)
    finally show ?thesis .
  qed
qed

lemma fl_idem: "0 \<le> x \<Longrightarrow> fl (fl x) = fl x"
  using fl_idem_pos [of x] by (cases "x = 0") auto

subsection \<open>The rounding error\<close>

text \<open>Below 2 a number and the double nearest to it differ by at most \<open>2\<^sup>-\<^sup>5\<^sup>3\<close>.\<close>

lemma rhe_err: "\<bar>of_int (rhe x) - x\<bar> \<le> 1/2"
proof -
  have "of_int \<lfloor>x\<rfloor> \<le> x" "x < of_int \<lfloor>x\<rfloor> + 1" by linarith+
  then show ?thesis by (auto simp: rhe_def Let_def abs_le_iff)
qed

lemma fl_err:
  assumes "0 \<le> x" "x < 2"
  shows "\<bar>fl x - x\<bar> \<le> 1 / 2 ^ 53"
proof (cases "x = 0")
  case True
  then show ?thesis by simp
next
  case False
  then have pos: "0 < x" using assms(1) by simp
  have "(2::rat) powi expo x < 2 powi 1" using expo_bounds(1) [OF pos] assms(2) by simp
  then have e: "expo x \<le> 0" using powi_less_imp [of "expo x" 1] by simp
  have x: "x = mant x * 2 powi (expo x - 52)"
    using powi2_add [of "52 - expo x" "expo x - 52"] by (simp add: mant_def)
  have "fl x - x = (of_int (rhe (mant x)) - mant x) * 2 powi (expo x - 52)"
    using x by (simp add: fl_pos [OF pos] algebra_simps)
  then have "\<bar>fl x - x\<bar> = \<bar>of_int (rhe (mant x)) - mant x\<bar> * 2 powi (expo x - 52)"
    by (simp add: abs_mult)
  also have "\<dots> \<le> 1/2 * 2 powi (expo x - 52)"
    using rhe_err [of "mant x"] by (intro mult_right_mono) simp_all
  also have "\<dots> \<le> 1/2 * 2 powi (- 52)"
    using e by (intro mult_left_mono powi_mono2) simp_all
  also have "\<dots> = 1 / 2 ^ 53" by (simp add: power_int_minus_divide)
  finally show ?thesis .
qed

subsection \<open>Evaluating the rounding at a given number\<close>

text \<open>
  The double nearest to \<open>x\<close> is \<open>n / 2\<^sup>5\<^sup>2\<^sup>+\<^sup>j\<close> when \<open>x\<close> lies in
  \<open>[2\<^sup>-\<^sup>j, 2\<^sup>1\<^sup>-\<^sup>j)\<close> and \<open>n\<close> is within a half of \<open>x \<sqdot> 2\<^sup>5\<^sup>2\<^sup>+\<^sup>j\<close>; likewise for
  \<open>x\<close> in \<open>[2\<^sup>j, 2\<^sup>j\<^sup>+\<^sup>1)\<close>.
\<close>

lemma rhe_eval:
  assumes "\<bar>x - of_int n\<bar> < 1/2"
  shows "rhe x = n"
proof (cases "of_int n \<le> x")
  case True
  have "x < of_int n + 1" using assms by linarith
  with True have f: "\<lfloor>x\<rfloor> = n" by (simp add: floor_eq_iff)
  have "x - of_int n < 1/2" using assms by linarith
  then show ?thesis by (simp add: rhe_def Let_def f)
next
  case False
  have a: "of_int n - 1 \<le> x" "1/2 < x - (of_int n - 1)" using assms by linarith+
  have "of_int (n - 1) \<le> x" "x < of_int (n - 1) + 1" using a(1) False by simp_all
  then have f: "\<lfloor>x\<rfloor> = n - 1" by (simp only: floor_eq_iff)
  have "1/2 < x - of_int (n - 1)" using a(2) by simp
  then show ?thesis by (simp add: rhe_def Let_def f)
qed

lemma fl_eval_lt1_rhe:
  assumes "1 \<le> x * 2 ^ j" "x * 2 ^ j < 2" "rhe (x * 2 ^ (52 + j)) = n"
  shows "fl x = of_int n / 2 ^ (52 + j)"
proof -
  have pos: "0 < x"
  proof (rule ccontr)
    assume "\<not> 0 < x"
    then have "x * 2 ^ j \<le> 0" by (simp add: mult_le_0_iff)
    with assms(1) show False by simp
  qed
  have p: "(2::rat) powi (- int j) = 1 / 2 ^ j" by (simp add: power_int_minus_divide)
  have lo: "2 powi (- int j) \<le> x" using assms(1) by (simp add: p field_simps)
  have h: "(2::rat) powi (- int j + 1) = 2 / 2 ^ j"
    using powi2_add [of "- int j" 1] by (simp add: p)
  have "x < 2 / 2 ^ j" using assms(2) by (simp add: pos_less_divide_eq)
  then have hi: "x < 2 powi (- int j + 1)" by (simp only: h)
  have e: "expo x = - int j" using pos lo hi by (rule expo_unique)
  have m: "mant x = x * 2 ^ (52 + j)"
    by (simp add: mant_def e power_int_def nat_add_distrib)
  have r: "rhe (mant x) = n" unfolding m using assms(3) .
  have "(2::rat) powi (- int (52 + j)) = 1 / 2 powi (int (52 + j))"
    by (rule power_int_minus_divide)
  also have "\<dots> = 1 / 2 ^ (52 + j)" by (simp only: power_int_of_nat)
  finally have "(2::rat) powi (- int j - 52) = 1 / 2 ^ (52 + j)" by (simp add: algebra_simps)
  then show ?thesis by (simp add: fl_pos [OF pos] r e)
qed

lemma fl_eval_ge1_rhe:
  assumes "2 ^ j \<le> x" "x < 2 * 2 ^ j" "j \<le> 52" "rhe (x * 2 ^ (52 - j)) = n"
  shows "fl x = of_int n / 2 ^ (52 - j)"
proof -
  have "(0::rat) < 2 ^ j" by simp
  then have pos: "0 < x" using assms(1) by (rule less_le_trans)
  have lo: "2 powi (int j) \<le> x" using assms(1) by (simp only: power_int_of_nat)
  have "(2::rat) powi (int j + 1) = 2 powi (int j) * 2 powi 1" by (rule powi2_add)
  also have "\<dots> = 2 * 2 ^ j" by (simp only: power_int_of_nat power_int_1_right mult.commute)
  finally have hi: "x < 2 powi (int j + 1)" using assms(2) by (simp only:)
  have e: "expo x = int j" using pos lo hi by (rule expo_unique)
  have d: "52 - int j = int (52 - j)" using assms(3) by linarith
  have m: "mant x = x * 2 ^ (52 - j)" unfolding mant_def e d by (simp only: power_int_of_nat)
  have r: "rhe (mant x) = n" unfolding m using assms(4) .
  have d': "int j - 52 = - int (52 - j)" using assms(3) by linarith
  have "(2::rat) powi (int j - 52) = 1 / 2 powi (int (52 - j))"
    unfolding d' by (rule power_int_minus_divide)
  also have "\<dots> = 1 / 2 ^ (52 - j)" by (simp only: power_int_of_nat)
  finally have s: "(2::rat) powi (int j - 52) = 1 / 2 ^ (52 - j)" .
  have "fl x = of_int (rhe (mant x)) * 2 powi (expo x - 52)" using pos by (rule fl_pos)
  also have "\<dots> = of_int n * (1 / 2 ^ (52 - j))" by (simp only: r e s)
  finally show ?thesis by simp
qed

lemma rhe_eval_tie:
  assumes "x = of_int m + 1/2"
  shows "rhe x = (if even m then m else m + 1)"
proof -
  have "of_int m \<le> x" "x < of_int m + 1" using assms by simp_all
  then have f: "\<lfloor>x\<rfloor> = m" by (simp only: floor_eq_iff)
  have "x - of_int m = 1/2" using assms by simp
  then show ?thesis by (simp add: rhe_def Let_def f)
qed

lemma fl_eval_lt1:
  assumes "1 \<le> x * 2 ^ j" "x * 2 ^ j < 2" "\<bar>x * 2 ^ (52 + j) - of_int n\<bar> < 1/2"
  shows "fl x = of_int n / 2 ^ (52 + j)"
  using assms(1,2) rhe_eval [OF assms(3)] by (rule fl_eval_lt1_rhe)

lemma fl_eval_ge1:
  assumes "2 ^ j \<le> x" "x < 2 * 2 ^ j" "j \<le> 52" "\<bar>x * 2 ^ (52 - j) - of_int n\<bar> < 1/2"
  shows "fl x = of_int n / 2 ^ (52 - j)"
  using assms(1-3) rhe_eval [OF assms(4)] by (rule fl_eval_ge1_rhe)

lemma fl_eval_lt1_tie:
  assumes "1 \<le> x * 2 ^ j" "x * 2 ^ j < 2" "x * 2 ^ (52 + j) = of_int m + 1/2"
    "n = (if even m then m else m + 1)"
  shows "fl x = of_int n / 2 ^ (52 + j)"
  using assms(1,2) rhe_eval_tie [OF assms(3)] unfolding assms(4) by (rule fl_eval_lt1_rhe)

lemma fl_eval_ge1_tie:
  assumes "2 ^ j \<le> x" "x < 2 * 2 ^ j" "j \<le> 52" "x * 2 ^ (52 - j) = of_int m + 1/2"
    "n = (if even m then m else m + 1)"
  shows "fl x = of_int n / 2 ^ (52 - j)"
  using assms(1-3) rhe_eval_tie [OF assms(4)] unfolding assms(5) by (rule fl_eval_ge1_rhe)

lemma fl_1 [simp]: "fl 1 = 1"
  by (rule fl_eval_ge1 [where j = 0 and n = 4503599627370496, THEN trans]) simp_all

subsection \<open>The rounding at the numbers of the examples\<close>

lemma fl_at_1: "fl (3 / 4) = 3 / 4"
  by (rule fl_eval_lt1 [where j = 1 and n = 6755399441055744, THEN trans]) simp_all

lemma fl_at_2: "fl (3 / 2) = 3 / 2"
  by (rule fl_eval_lt1 [where j = 0 and n = 6755399441055744, THEN trans]) simp_all

lemma fl_at_3: "fl 3 = 3"
  by (rule fl_eval_ge1 [where j = 1 and n = 6755399441055744, THEN trans]) simp_all

lemma fl_at_4: "fl (5 / 2) = 5 / 2"
  by (rule fl_eval_ge1 [where j = 1 and n = 5629499534213120, THEN trans]) simp_all

lemma fl_at_5: "fl (5 / 6) = 7505999378950827 / 9007199254740992"
  by (rule fl_eval_lt1 [where j = 1 and n = 7505999378950827, THEN trans]) simp_all

lemma fl_at_6: "fl (1 / 10) = 3602879701896397 / 36028797018963968"
  by (rule fl_eval_lt1 [where j = 4 and n = 7205759403792794, THEN trans]) simp_all

lemma fl_at_7: "fl (10808639105689191 / 36028797018963968) = 1351079888211149 / 4503599627370496"
  by (rule fl_eval_lt1_tie [where j = 2 and m = 5404319552844595 and n = 5404319552844596, THEN trans]) simp_all

lemma fl_at_8: "fl (1501199875790165 / 9007199254740992) = 1501199875790165 / 9007199254740992"
  by (rule fl_eval_lt1 [where j = 3 and n = 6004799503160660, THEN trans]) simp_all

lemma fl_at_9: "fl (2028240960365166892274737549585 / 40564819207303340847894502572032) = 7205759403792793 / 144115188075855872"
  by (rule fl_eval_lt1 [where j = 5 and n = 7205759403792793, THEN trans]) simp_all

lemma fl_at_10: "fl (127301749467006025 / 144115188075855872) = 7956359341687877 / 9007199254740992"
  by (rule fl_eval_lt1 [where j = 1 and n = 7956359341687877, THEN trans]) simp_all

lemma fl_at_11: "fl (849 / 1000) = 3823556083637551 / 4503599627370496"
  by (rule fl_eval_lt1 [where j = 1 and n = 7647112167275102, THEN trans]) simp_all

lemma fl_at_12: "fl (17 / 20) = 7656119366529843 / 9007199254740992"
  by (rule fl_eval_lt1 [where j = 1 and n = 7656119366529843, THEN trans]) simp_all

lemma fl_at_13: "fl (549 / 1000) = 4944952390852805 / 9007199254740992"
  by (rule fl_eval_lt1 [where j = 1 and n = 4944952390852805, THEN trans]) simp_all

lemma fl_at_14: "fl (11 / 20) = 2476979795053773 / 4503599627370496"
  by (rule fl_eval_lt1 [where j = 1 and n = 4953959590107546, THEN trans]) simp_all

lemma fl_at_15: "fl (18 / 25) = 3242591731706757 / 4503599627370496"
  by (rule fl_eval_lt1 [where j = 1 and n = 6485183463413514, THEN trans]) simp_all

lemma fl_at_16: "fl (49 / 50) = 2206763817411543 / 2251799813685248"
  by (rule fl_eval_lt1 [where j = 1 and n = 8827055269646172, THEN trans]) simp_all

lemma fl_at_17: "fl (4 / 5) = 3602879701896397 / 4503599627370496"
  by (rule fl_eval_lt1 [where j = 1 and n = 7205759403792794, THEN trans]) simp_all

lemma fl_at_18: "fl (9 / 10) = 8106479329266893 / 9007199254740992"
  by (rule fl_eval_lt1 [where j = 1 and n = 8106479329266893, THEN trans]) simp_all

lemma fl_at_19: "fl (1 / 20) = 3602879701896397 / 72057594037927936"
  by (rule fl_eval_lt1 [where j = 5 and n = 7205759403792794, THEN trans]) simp_all

lemma fl_at_20: "fl (2026619832316723 / 4503599627370496) = 2026619832316723 / 4503599627370496"
  by (rule fl_eval_lt1 [where j = 2 and n = 8106479329266892, THEN trans]) simp_all

lemma fl_at_21: "fl (2476979795053773 / 4503599627370496) = 2476979795053773 / 4503599627370496"
  by (rule fl_eval_lt1 [where j = 1 and n = 4953959590107546, THEN trans]) simp_all

lemma fl_at_22: "fl (90071992547409925 / 1125899906842624) = 80"
  by (rule fl_eval_ge1 [where j = 6 and n = 5629499534213120, THEN trans]) simp_all

lemma fl_at_23: "fl (3 / 5) = 5404319552844595 / 9007199254740992"
  by (rule fl_eval_lt1 [where j = 1 and n = 5404319552844595, THEN trans]) simp_all

lemma fl_at_24: "fl (43234556422756765 / 72057594037927936) = 1351079888211149 / 2251799813685248"
  by (rule fl_eval_lt1 [where j = 1 and n = 5404319552844596, THEN trans]) simp_all

lemma fl_at_25: "fl (900719925474099 / 9007199254740992) = 900719925474099 / 9007199254740992"
  by (rule fl_eval_lt1 [where j = 4 and n = 7205759403792792, THEN trans]) simp_all

lemma fl_at_26: "fl (8106479329266893 / 9007199254740992) = 8106479329266893 / 9007199254740992"
  by (rule fl_eval_lt1 [where j = 1 and n = 8106479329266893, THEN trans]) simp_all

lemma fl_at_27: "fl 100 = 100"
  by (rule fl_eval_ge1 [where j = 6 and n = 7036874417766400, THEN trans]) simp_all

lemma fl_at_28: "fl (1 / 5) = 3602879701896397 / 18014398509481984"
  by (rule fl_eval_lt1 [where j = 3 and n = 7205759403792794, THEN trans]) simp_all

lemma fl_at_29: "fl (68454714336031541 / 72057594037927936) = 8556839292003943 / 9007199254740992"
  by (rule fl_eval_lt1 [where j = 1 and n = 8556839292003943, THEN trans]) simp_all

lemmas fl_values = fl_at_1 fl_at_2 fl_at_3 fl_at_4 fl_at_5 fl_at_6 fl_at_7 fl_at_8 fl_at_9
  fl_at_10 fl_at_11 fl_at_12 fl_at_13 fl_at_14 fl_at_15 fl_at_16 fl_at_17 fl_at_18
  fl_at_19 fl_at_20 fl_at_21 fl_at_22 fl_at_23 fl_at_24 fl_at_25 fl_at_26 fl_at_27
  fl_at_28 fl_at_29

subsection \<open>The Jaro-Winkler function always returns\<close>

text \<open>
  The first loop marks as many positions of \<open>s2\<close> as of \<open>s1\<close>, so the inner
  \<^verbatim>\<open>while\<close> of the second loop always finds the next marked position of \<open>s2\<close> before
  the end of the list.
\<close>

lemma count_true_update:
  "i < length m \<Longrightarrow> \<not> m ! i \<Longrightarrow> count_true (m[i := True]) = Suc (count_true m)"
proof (induction m arbitrary: i)
  case Nil
  then show ?case by simp
next
  case (Cons b m)
  then show ?case by (cases i) (auto simp: count_true_def)
qed

lemma count_true_replicate: "count_true (replicate n False) = 0"
  by (simp add: count_true_def)

lemma count_true_drop:
  "k < length m \<Longrightarrow> count_true (drop k m) = (if m ! k then 1 else 0) + count_true (drop (Suc k) m)"
  by (simp add: count_true_def flip: Cons_nth_drop_Suc)

lemma find_upt_SomeD:
  "find P [lo..<hi] = Some j \<Longrightarrow> P j \<and> lo \<le> j \<and> j < hi"
  by (auto simp: find_Some_iff)

lemma match_step_inv:
  assumes "length m1 = length s1" "length m2 = length s2" "count_true m1 = k" "count_true m2 = k"
    and "\<not> m1 ! i" "i < length s1"
    and "match_step s1 s2 d (m1, m2, k) i = (m1', m2', k')"
  shows "length m1' = length s1 \<and> length m2' = length s2 \<and> count_true m1' = k' \<and> count_true m2' = k'
         \<and> (\<forall>i'. \<not> m1 ! i' \<longrightarrow> i' \<noteq> i \<longrightarrow> \<not> m1' ! i')"
proof (cases "find (\<lambda>j. \<not> (m2 ! j \<or> s1 ! i \<noteq> s2 ! j)) [i - d..<min (i + d + 1) (length s2)]")
  case None
  then show ?thesis using assms by (simp add: match_step_def)
next
  case (Some j)
  from find_upt_SomeD [OF Some] have j: "\<not> m2 ! j" "j < length s2" by simp_all
  have eq: "m1' = m1[i := True]" "m2' = m2[j := True]" "k' = k + 1"
    using assms(7) Some by (simp_all add: match_step_def)
  show ?thesis
    using assms(1-6) j by (simp add: eq count_true_update)
qed

lemma match_loop_inv:
  assumes "length m1 = length s1" "length m2 = length s2" "count_true m1 = k" "count_true m2 = k"
    and "distinct ixs" "\<forall>i \<in> set ixs. i < length s1 \<and> \<not> m1 ! i"
    and "foldl (match_step s1 s2 d) (m1, m2, k) ixs = (m1', m2', k')"
  shows "length m1' = length s1 \<and> length m2' = length s2 \<and> count_true m1' = k' \<and> count_true m2' = k'"
  using assms
proof (induction ixs arbitrary: m1 m2 k)
  case Nil
  then show ?case by simp
next
  case (Cons i ixs)
  obtain a b c where st: "match_step s1 s2 d (m1, m2, k) i = (a, b, c)"
    by (cases "match_step s1 s2 d (m1, m2, k) i") auto
  have i: "\<not> m1 ! i" "i < length s1" using Cons.prems(6) by simp_all
  note inv = match_step_inv [OF Cons.prems(1-4) i st]
  have rest: "foldl (match_step s1 s2 d) (a, b, c) ixs = (m1', m2', k')"
    using Cons.prems(7) by (simp add: st)
  have d: "distinct ixs" and ni: "i \<notin> set ixs" using Cons.prems(5) by simp_all
  have free: "\<forall>j \<in> set ixs. j < length s1 \<and> \<not> a ! j"
    using inv Cons.prems(6) ni by auto
  show ?case
    using Cons.IH [of a b c] inv d free rest by simp
qed

lemma find_matches_inv:
  assumes "find_matches s1 s2 = (m1, m2, k)"
  shows "length m1 = length s1 \<and> length m2 = length s2 \<and> count_true m1 = k \<and> count_true m2 = k"
proof -
  have "foldl (match_step s1 s2 (match_dist_of s1 s2))
          (replicate (length s1) False, replicate (length s2) False, 0) [0..<length s1] = (m1, m2, k)"
    using assms by (simp add: find_matches_def)
  then show ?thesis
    by (rule match_loop_inv [rotated 6]) (simp_all add: count_true_replicate)
qed

lemma next_match_finds:
  "0 < count_true (drop k m2) \<Longrightarrow>
     \<exists>k'. next_match m2 k = Some k' \<and> k' < length m2
          \<and> count_true (drop k m2) = Suc (count_true (drop (Suc k') m2))"
proof (induction m2 k rule: next_match.induct)
  case (1 m2 k)
  have k: "k < length m2"
  proof (rule ccontr)
    assume "\<not> k < length m2"
    then show False using "1.prems" by (simp add: count_true_def)
  qed
  show ?case
  proof (cases "m2 ! k")
    case True
    then show ?thesis using k count_true_drop [OF k] by (simp add: next_match.simps [of m2 k])
  next
    case False
    then have "0 < count_true (drop (k + 1) m2)" using "1.prems" count_true_drop [OF k] by simp
    from "1.IH" [OF _ False this] k obtain k' where
      "next_match m2 (k + 1) = Some k'" "k' < length m2"
      "count_true (drop (k + 1) m2) = Suc (count_true (drop (Suc k') m2))" by auto
    then show ?thesis
      using k False count_true_drop [OF k] by (simp add: next_match.simps [of m2 k])
  qed
qed

lemma count_transpositions_returns:
  assumes "count_true (drop i m1) \<le> count_true (drop k m2)"
  shows "\<exists>r. count_transpositions s1 s2 m1 m2 k t [i..<length m1] = Some r"
  using assms
proof (induction "length m1 - i" arbitrary: i k t)
  case 0
  then show ?case by simp
next
  case (Suc n)
  have i: "i < length m1" using Suc.hyps(2) by simp
  have n: "n = length m1 - Suc i" using Suc.hyps(2) by simp
  have up: "[i..<length m1] = i # [Suc i..<length m1]" using i by (rule upt_conv_Cons)
  show ?case
  proof (cases "m1 ! i")
    case False
    then have "count_true (drop (Suc i) m1) \<le> count_true (drop k m2)"
      using Suc.prems count_true_drop [OF i] by simp
    from Suc.hyps(1) [OF n this, of t] obtain r where
      "count_transpositions s1 s2 m1 m2 k t [Suc i..<length m1] = Some r" by auto
    then show ?thesis using False by (simp only: up count_transpositions.simps) simp
  next
    case True
    then have c: "Suc (count_true (drop (Suc i) m1)) \<le> count_true (drop k m2)"
      using Suc.prems count_true_drop [OF i] by simp
    then have "0 < count_true (drop k m2)" by simp
    from next_match_finds [OF this] obtain k' where k':
      "next_match m2 k = Some k'" "count_true (drop k m2) = Suc (count_true (drop (Suc k') m2))"
      by auto
    have "count_true (drop (Suc i) m1) \<le> count_true (drop (k' + 1) m2)" using c k'(2) by simp
    from Suc.hyps(1) [OF n this, of "if s1 ! i \<noteq> s2 ! k' then t + 1 else t"] obtain r where
      "count_transpositions s1 s2 m1 m2 (k' + 1) (if s1 ! i \<noteq> s2 ! k' then t + 1 else t)
         [Suc i..<length m1] = Some r" by auto
    then show ?thesis using True k'(1) by (simp only: up count_transpositions.simps) simp
  qed
qed

text \<open>\<^verbatim>\<open>_jaro_winkler\<close> never raises \<^verbatim>\<open>IndexError\<close>: it returns a number for every input.\<close>

theorem jaro_winkler_returns: "\<exists>sim. jaro_winkler s1 s2 = Some sim"
proof -
  obtain m1 m2 k where fm: "find_matches s1 s2 = (m1, m2, k)"
    by (cases "find_matches s1 s2") auto
  from find_matches_inv [OF fm] have inv: "length m1 = length s1" "count_true m1 = count_true m2"
    by simp_all
  have "\<exists>r. count_transpositions s1 s2 m1 m2 0 0 [0..<length m1] = Some r"
    by (rule count_transpositions_returns) (simp add: inv)
  then obtain r where "count_transpositions s1 s2 m1 m2 0 0 [0..<length s1] = Some r"
    by (auto simp: inv)
  then show ?thesis by (simp add: jaro_winkler_def fm Let_def)
qed

subsection \<open>The Winkler adjustment\<close>

lemma jaro_winkler_eval:
  assumes "s1 \<noteq> s2" "s1 \<noteq> []" "s2 \<noteq> []" "find_matches s1 s2 = (m1, m2, m)" "m \<noteq> 0"
    "count_transpositions s1 s2 m1 m2 0 0 [0..<length s1] = Some t"
  shows "jaro_winkler s1 s2 =
           Some (fadd (jaro_value (length s1) (length s2) m t)
                      (fmul (fmul (of_nat (prefix_count s1 s2)) (fl (1/10)))
                            (fsub 1 (jaro_value (length s1) (length s2) m t))))"
  using assms by (simp add: jaro_winkler_def Let_def)

text \<open>
  Claim C8 (the Winkler adjustment uses the length of the common prefix). The source
  counts, among the first four positions, every position at which the two strings agree,
  whether or not the positions before it agree. For \<^verbatim>\<open>rate\<close> and \<^verbatim>\<open>date\<close> the common
  prefix is empty, so the adjustment of the claim is 0 and the similarity would be the
  Jaro similarity \<open>fl (5/6)\<close>, below \<^verbatim>\<open>NAME_SIM_HIGH\<close>; the source counts 3 positions
  and returns 0.8833333333333334, above \<^verbatim>\<open>NAME_SIM_HIGH\<close>.
\<close>

theorem jaro_winkler_prefix_counts_positions:
  "prefix_count ''rate'' ''date'' = 3
   \<and> length (takeWhile (\<lambda>(a, b). a = b) (zip ''rate'' ''date'')) = 0
   \<and> find_matches ''rate'' ''date'' = ([False, True, True, True], [False, True, True, True], 3)
   \<and> jaro_value 4 4 3 0 = 7505999378950827 / 9007199254740992
   \<and> jaro_winkler ''rate'' ''date'' = Some (7956359341687877 / 9007199254740992)
   \<and> 7505999378950827 / 9007199254740992 < NAME_SIM_HIGH
   \<and> NAME_SIM_HIGH \<le> 7956359341687877 / 9007199254740992"
proof -
  have pc: "prefix_count ''rate'' ''date'' = 3" by code_simp
  have cp: "length (takeWhile (\<lambda>(a, b). a = b) (zip ''rate'' ''date'')) = 0" by simp
  have fm: "find_matches ''rate'' ''date'' = ([False, True, True, True], [False, True, True, True], 3)"
    by code_simp
  have ct: "count_transpositions ''rate'' ''date'' [False, True, True, True] [False, True, True, True]
              0 0 [0..<length ''rate''] = Some 0"
    by code_simp
  have jv: "jaro_value 4 4 3 0 = 7505999378950827 / 9007199254740992"
    by (simp add: jaro_value_def fdiv_def fadd_def fsub_def fl_values)
  have jw: "jaro_winkler ''rate'' ''date'' = Some (7956359341687877 / 9007199254740992)"
  proof -
    have l: "length ''rate'' = 4" "length ''date'' = 4" by simp_all
    have "jaro_winkler ''rate'' ''date'' =
            Some (fadd (7505999378950827 / 9007199254740992)
                       (fmul (fmul (of_nat 3) (fl (1/10)))
                             (fsub 1 (7505999378950827 / 9007199254740992))))"
      using jaro_winkler_eval [OF _ _ _ fm _ ct] unfolding l pc jv by simp
    then show ?thesis
      by (simp add: fadd_def fmul_def fsub_def fl_values)
  qed
  have hi: "7505999378950827 / 9007199254740992 < NAME_SIM_HIGH"
    "NAME_SIM_HIGH \<le> 7956359341687877 / 9007199254740992"
    by (simp_all add: NAME_SIM_HIGH_def fl_values)
  show ?thesis using pc cp fm jv jw hi by simp
qed

subsection \<open>Stems\<close>

lemma endswith_append: "endswith (b @ p) p"
  by (simp add: endswith_def)

lemma endswith_last: "endswith s p \<Longrightarrow> p \<noteq> [] \<Longrightarrow> last s = last p"
proof -
  assume e: "endswith s p" and p: "p \<noteq> []"
  have "s = take (length s - length p) s @ drop (length s - length p) s" by simp
  also have "drop (length s - length p) s = p" using e by (simp add: endswith_def)
  finally have "s = take (length s - length p) s @ p" .
  then have "last s = last (take (length s - length p) s @ p)" by simp
  also have "\<dots> = last p" using p by simp
  finally show ?thesis .
qed

lemma strip_end_append:
  assumes "match_end alts (b @ p) = Some p"
  shows "strip_end alts (b @ p) = b"
  using assms by (simp add: strip_end_def)

lemma last_not_newline: "p \<noteq> [] \<Longrightarrow> last p \<noteq> newline \<Longrightarrow> \<not> (b @ p \<noteq> [] \<and> last (b @ p) = newline)"
  by simp

lemma sim_stem_strips:
  assumes "sfx \<in> set [''_id'', ''_key'', ''_code'', ''_num'', ''_no'']"
  shows "sim_stem (b @ sfx) = b"
proof -
  have nl: "\<not> (b @ sfx \<noteq> [] \<and> last (b @ sfx) = newline)"
    using assms by (auto simp: newline_def)
  have other: "\<And>a. a \<in> set [''_id'', ''_key'', ''_code'', ''_num'', ''_no''] \<Longrightarrow> a \<noteq> sfx
                 \<Longrightarrow> \<not> endswith (b @ sfx) a"
  proof
    fix a assume a: "a \<in> set [''_id'', ''_key'', ''_code'', ''_num'', ''_no'']" "a \<noteq> sfx"
      and e: "endswith (b @ sfx) a"
    have "a \<noteq> []" using a by auto
    from endswith_last [OF e this] have "last sfx = last a" using assms by auto
    then show False using a assms by auto
  qed
  have "match_end [''_id'', ''_key'', ''_code'', ''_num'', ''_no''] (b @ sfx) = Some sfx"
    using assms other endswith_append [of b sfx] by (auto simp: match_end_def)
  then show ?thesis
    using nl by (simp only: sim_stem_def re_sub_end_def if_False strip_end_append)
qed

lemma id_stem_strips: "id_stem (b @ ''_id'') = b"
proof -
  have "match_end [''_id''] (b @ ''_id'') = Some ''_id''"
    using endswith_append [of b "''_id''"] by (simp add: match_end_def)
  then have "strip_end [''_id''] (b @ ''_id'') = b" by (rule strip_end_append)
  then show ?thesis by (simp add: id_stem_def re_sub_end_def newline_def)
qed

lemma id_stem_keeps:
  assumes "\<not> endswith c ''_id''" "c = [] \<or> last c \<noteq> newline"
  shows "id_stem c = c"
  using assms by (auto simp: id_stem_def re_sub_end_def match_end_def strip_end_def)

lemma sim_stem_keeps:
  assumes "\<forall>sfx \<in> set [''_id'', ''_key'', ''_code'', ''_num'', ''_no'']. \<not> endswith c sfx"
    "c = [] \<or> last c \<noteq> newline"
  shows "sim_stem c = c"
  using assms by (auto simp: sim_stem_def re_sub_end_def match_end_def strip_end_def)

lemma endswith_split: "endswith c p \<Longrightarrow> c = take (length c - length p) c @ p"
  by (simp add: endswith_def) (metis append_take_drop_id)

lemma stems_agree:
  assumes "endswith c ''_id''"
  shows "id_stem c = sim_stem c"
proof -
  from endswith_split [OF assms] obtain b where c: "c = b @ ''_id''" by blast
  show ?thesis unfolding c using sim_stem_strips [of "''_id''" b] by (simp add: id_stem_strips)
qed

text \<open>
  Claim C7 as stated fails for \<^verbatim>\<open>id_stem\<close>, the stem function of the name helpers: it
  does not map \<^verbatim>\<open>customer_key\<close> to \<^verbatim>\<open>customer\<close>.
\<close>

theorem id_stem_counterexample: "id_stem ''customer_key'' \<noteq> ''customer''"
  by code_simp

text \<open>
  Claim C7, amended. The stem of the name-similarity signal (the expression written inline
  in the scorer) strips one trailing occurrence of any of \<^verbatim>\<open>_id\<close>, \<^verbatim>\<open>_key\<close>,
  \<^verbatim>\<open>_code\<close>, \<^verbatim>\<open>_num\<close>, \<^verbatim>\<open>_no\<close> and leaves every other name unchanged. The helper
  \<^verbatim>\<open>id_stem\<close>, used by the naming rules, strips only a trailing \<^verbatim>\<open>_id\<close> and leaves
  every other name unchanged. On a name that ends in \<^verbatim>\<open>_id\<close> the two agree. (A name
  that is unchanged is taken not to end in a newline, as every canonical name is.)
\<close>

theorem stem_functions:
  "(sfx \<in> set [''_id'', ''_key'', ''_code'', ''_num'', ''_no''] \<longrightarrow> sim_stem (b @ sfx) = b)
   \<and> ((\<forall>sfx \<in> set [''_id'', ''_key'', ''_code'', ''_num'', ''_no'']. \<not> endswith c sfx)
        \<longrightarrow> (c = [] \<or> last c \<noteq> newline) \<longrightarrow> sim_stem c = c)
   \<and> id_stem (b' @ ''_id'') = b'
   \<and> (\<not> endswith k ''_id'' \<longrightarrow> (k = [] \<or> last k \<noteq> newline) \<longrightarrow> id_stem k = k)
   \<and> (endswith d ''_id'' \<longrightarrow> id_stem d = sim_stem d)"
  using sim_stem_strips [of sfx b] sim_stem_keeps [of c] id_stem_strips [of b'] id_stem_keeps [of k]
    stems_agree [of d]
  by blast

text \<open>
  The stems of \<^verbatim>\<open>customer_key\<close>, \<^verbatim>\<open>amount\<close> and \<^verbatim>\<open>order_id\<close> under both functions.
\<close>

theorem stem_functions_witness:
  "sim_stem ''customer_key'' = ''customer'' \<and> sim_stem ''amount'' = ''amount''
   \<and> id_stem ''order_id'' = ''order'' \<and> id_stem ''customer_key'' = ''customer_key''
   \<and> sim_stem ''order_id'' = ''order''"
  using stem_functions [of "''_key''" "''customer''" "''amount''" "''order''" "''customer_key''" "''order_id''"]
  by (auto simp: endswith_def newline_def)

subsection \<open>The primary-key detector\<close>

lemma find_first:
  assumes "xs = pre @ x # post" "\<forall>p \<in> set pre. \<not> P p" "P x"
  shows "find P xs = Some x"
  using assms(2) unfolding assms(1) by (induction pre) (simp_all add: assms(3))

lemma detect_pks_length: "length (detect_pks df table_name method) \<le> 1"
  by (simp add: detect_pks_def Let_def split: option.splits list.splits)

text \<open>
  Claim C5. The primary-key detector returns at most one column. When the mode is
  \<^verbatim>\<open>naming\<close> or \<^verbatim>\<open>both\<close> and some column's canonical name is \<^verbatim>\<open>id\<close>, or is the
  table's canonical name followed by \<^verbatim>\<open>_id\<close>, or ends in \<^verbatim>\<open>_id\<close> with the table's
  canonical name starting with the column's stem, the first such column in column order
  is the result, whatever the cells of the columns hold.
\<close>

theorem detect_pks_naming_first:
  "length (detect_pks df table_name method) \<le> 1
   \<and> (method \<in> {''naming'', ''both''}
        \<longrightarrow> map fst (columns df) = pre @ col # post
        \<longrightarrow> (\<forall>p \<in> set pre.
              \<not> (clean_name p = ''id'' \<or> clean_name p = clean_name table_name @ ''_id''
                 \<or> (endswith (clean_name p) ''_id''
                     \<and> startswith (clean_name table_name) (id_stem (clean_name p)))))
        \<longrightarrow> (clean_name col = ''id'' \<or> clean_name col = clean_name table_name @ ''_id''
             \<or> (endswith (clean_name col) ''_id''
                 \<and> startswith (clean_name table_name) (id_stem (clean_name col))))
        \<longrightarrow> detect_pks df table_name method = [col])"
proof -
  let ?P = "\<lambda>c. is_pk_name (clean_name c) (clean_name table_name)"
  have P: "\<And>c. ?P c \<longleftrightarrow> (clean_name c = ''id'' \<or> clean_name c = clean_name table_name @ ''_id''
                 \<or> (endswith (clean_name c) ''_id''
                     \<and> startswith (clean_name table_name) (id_stem (clean_name c))))"
    by (simp add: is_pk_name_def)
  show ?thesis
  proof (intro conjI impI)
    show "length (detect_pks df table_name method) \<le> 1" by (rule detect_pks_length)
  next
    assume m: "method \<in> {''naming'', ''both''}"
      and cols: "map fst (columns df) = pre @ col # post"
      and pre: "\<forall>p \<in> set pre.
              \<not> (clean_name p = ''id'' \<or> clean_name p = clean_name table_name @ ''_id''
                 \<or> (endswith (clean_name p) ''_id''
                     \<and> startswith (clean_name table_name) (id_stem (clean_name p))))"
      and col: "clean_name col = ''id'' \<or> clean_name col = clean_name table_name @ ''_id''
             \<or> (endswith (clean_name col) ''_id''
                 \<and> startswith (clean_name table_name) (id_stem (clean_name col)))"
    have "find ?P (map fst (columns df)) = Some col"
      using cols
    proof (rule find_first)
      show "\<forall>p \<in> set pre. \<not> ?P p" using pre by (simp only: P) 
      show "?P col" using col by (simp only: P)
    qed
    then show "detect_pks df table_name method = [col]"
      using m by (auto simp: detect_pks_def Let_def)
  qed
qed

text \<open>
  A table \<^verbatim>\<open>Orders\<close> whose second column \<^verbatim>\<open>Order ID\<close> holds a null and a repeated
  value and whose third column \<^verbatim>\<open>id\<close> is unique: the second column is the first that
  matches the naming rule, and it is returned.
\<close>

theorem detect_pks_naming_first_witness:
  "detect_pks demo_orders ''Orders'' ''both'' = [''Order ID'']
   \<and> \<not> notna_all (snd (columns demo_orders ! 1))
   \<and> nunique (snd (columns demo_orders ! 1)) \<noteq> nrows demo_orders"
proof -
  have c1: "clean_name ''name'' = ''name''" by code_simp
  have c2: "clean_name ''Order ID'' = ''order_id''" by code_simp
  have c3: "clean_name ''Orders'' = ''orders''" by code_simp
  have i: "id_stem ''order_id'' = ''order''" by code_simp
  have n: "\<not> notna_all (snd (columns demo_orders ! 1))
     \<and> nunique (snd (columns demo_orders ! 1)) \<noteq> nrows demo_orders" by code_simp
  show ?thesis
    using detect_pks_naming_first [of demo_orders "''Orders''" "''both''" "[''name'']" "''Order ID''" "[''id'']"] n
    by (simp add: demo_orders_def c1 c2 c3 i endswith_def startswith_def)
qed

subsection \<open>The composite score\<close>

lemma fl_unit: "0 \<le> x \<Longrightarrow> x \<le> 1 \<Longrightarrow> 0 \<le> fl x \<and> fl x \<le> 1"
  using fl_nonneg [of x] fl_mono [of x 1] by simp

lemma weight_unit: "0 \<le> dict_get WEIGHT_MAP k (fl (1/10)) \<and> dict_get WEIGHT_MAP k (fl (1/10)) \<le> 1"
proof (cases "map_of WEIGHT_MAP k")
  case None
  then show ?thesis using fl_unit [of "1/10"] by (simp add: dict_get_def)
next
  case (Some w)
  then have "(k, w) \<in> set WEIGHT_MAP" by (rule map_of_SomeD)
  then have "0 \<le> w \<and> w \<le> 1"
    using fl_unit [of "95/100"] fl_unit [of "90/100"] fl_unit [of "60/100"] fl_unit [of "55/100"]
      fl_unit [of "50/100"] fl_unit [of "40/100"] fl_unit [of "30/100"] fl_unit [of "25/100"]
      fl_unit [of "20/100"]
    by (auto simp: WEIGHT_MAP_def)
  with Some show ?thesis by (simp add: dict_get_def)
qed

lemma factor_props: "0 \<le> factor k" "factor k \<le> 1" "fl (factor k) = factor k"
proof -
  let ?w = "dict_get WEIGHT_MAP k (fl (1/10))"
  have w: "0 \<le> 1 - ?w" "1 - ?w \<le> 1" using weight_unit [of k] by simp_all
  show "0 \<le> factor k" "factor k \<le> 1" using fl_unit [OF w] by (simp_all add: factor_def fsub_def)
  show "fl (factor k) = factor k" using fl_idem [OF w(1)] by (simp add: factor_def fsub_def)
qed

lemma fmul_props:
  assumes "0 \<le> a" "fl a = a" "0 \<le> f" "f \<le> 1"
  shows "0 \<le> fmul a f" "fmul a f \<le> a" "fl (fmul a f) = fmul a f"
proof -
  have nn: "0 \<le> a * f" using assms by simp
  have le: "a * f \<le> a" using assms by (simp add: mult_left_le)
  show "0 \<le> fmul a f" using nn by (simp add: fmul_def fl_nonneg)
  show "fmul a f \<le> a" using fl_mono [OF nn le] assms(2) by (simp add: fmul_def)
  show "fl (fmul a f) = fmul a f" using fl_idem [OF nn] by (simp add: fmul_def)
qed

lemma foldl_fmul_props:
  assumes "0 \<le> a" "fl a = a" "\<forall>f \<in> set fs. 0 \<le> f \<and> f \<le> 1"
  shows "0 \<le> foldl fmul a fs \<and> foldl fmul a fs \<le> a \<and> fl (foldl fmul a fs) = foldl fmul a fs"
  using assms
proof (induction fs arbitrary: a)
  case Nil
  then show ?case by simp
next
  case (Cons f fs)
  have f: "0 \<le> f" "f \<le> 1" using Cons.prems by simp_all
  note m = fmul_props [OF Cons.prems(1,2) f]
  have "\<forall>f \<in> set fs. 0 \<le> f \<and> f \<le> 1" using Cons.prems by simp
  from Cons.IH [OF m(1) m(3) this] m(2) show ?case by simp
qed

lemma foldl_fmul_mono:
  assumes "0 \<le> a" "a \<le> b" "\<forall>f \<in> set fs. 0 \<le> f"
  shows "foldl fmul a fs \<le> foldl fmul b fs"
  using assms
proof (induction fs arbitrary: a b)
  case Nil
  then show ?case by simp
next
  case (Cons f fs)
  have f: "0 \<le> f" using Cons.prems by simp
  have 1: "0 \<le> a * f" using Cons.prems(1) f by simp
  have 2: "a * f \<le> b * f" using Cons.prems(2) f by (simp add: mult_right_mono)
  have "0 \<le> fmul a f" using 1 by (simp add: fmul_def fl_nonneg)
  moreover have "fmul a f \<le> fmul b f" using fl_mono [OF 1 2] by (simp add: fmul_def)
  moreover have "\<forall>f \<in> set fs. 0 \<le> f" using Cons.prems by simp
  ultimately show ?case using Cons.IH by simp
qed

lemma math_prod_insert:
  assumes "\<forall>f \<in> set (xs @ ys). 0 \<le> f \<and> f \<le> 1" "0 \<le> f" "f \<le> 1"
  shows "math_prod (xs @ f # ys) \<le> math_prod (xs @ ys)"
    and "0 \<le> math_prod (xs @ f # ys)" and "math_prod (xs @ ys) \<le> 1"
proof -
  have xs: "\<forall>f \<in> set xs. 0 \<le> f \<and> f \<le> 1" and ys: "\<forall>f \<in> set ys. 0 \<le> f \<and> f \<le> 1"
    using assms(1) by simp_all
  have one: "(0::rat) \<le> 1" "fl 1 = 1" by simp_all
  note p = foldl_fmul_props [OF one xs]
  have m: "0 \<le> fmul (foldl fmul 1 xs) f" "fmul (foldl fmul 1 xs) f \<le> foldl fmul 1 xs"
    using fmul_props [of "foldl fmul 1 xs" f] p assms(2,3) by simp_all
  have "foldl fmul (fmul (foldl fmul 1 xs) f) ys \<le> foldl fmul (foldl fmul 1 xs) ys"
    using m ys by (intro foldl_fmul_mono) auto
  then show "math_prod (xs @ f # ys) \<le> math_prod (xs @ ys)" by (simp add: math_prod_def)
  have all: "\<forall>g \<in> set (xs @ f # ys). 0 \<le> g \<and> g \<le> 1" using assms by auto
  show "0 \<le> math_prod (xs @ f # ys)"
    using foldl_fmul_props [OF one all] by (simp add: math_prod_def)
  show "math_prod (xs @ ys) \<le> 1"
    using foldl_fmul_props [OF one assms(1)] by (simp add: math_prod_def)
qed

lemma py_round_mono:
  assumes "0 \<le> x" "x \<le> y"
  shows "py_round x n \<le> py_round y n"
proof -
  have "(of_int 0 :: rat) \<le> x * 10 ^ n" using assms(1) by simp
  then have 0: "0 \<le> rhe (x * 10 ^ n)" by (rule rhe_ge)
  have "x * 10 ^ n \<le> y * 10 ^ n" using assms(2) by (simp add: mult_right_mono)
  then have "rhe (x * 10 ^ n) \<le> rhe (y * 10 ^ n)" by (rule rhe_mono)
  then have "(of_int (rhe (x * 10 ^ n)) :: rat) / 10 ^ n \<le> of_int (rhe (y * 10 ^ n)) / 10 ^ n"
    by (simp add: divide_right_mono)
  moreover have "(0::rat) \<le> of_int (rhe (x * 10 ^ n)) / 10 ^ n" using 0 by simp
  ultimately show ?thesis unfolding py_round_def by (intro fl_mono)
qed

lemma composite_score_factor:
  "composite_score ks = py_round (py_min 1 (fsub 1 (math_prod (map factor ks)))) 3"
  by (simp add: composite_score_def factor_def [abs_def])

text \<open>
  Claim C3 (noisy-OR monotonicity). Let the fired signals be the keys \<open>xs @ ys\<close>, in the
  order in which the scorer inserts them, and let \<open>s\<close> be one more signal, inserted at
  any place of that order. The composite score
  \<open>round(min(1.0, 1.0 - prod(1.0 - weight)), 3)\<close> of the larger collection, computed in
  double arithmetic as the source does, is at least the composite score of the smaller
  one.
\<close>

theorem noisy_or_monotone:
  "composite_score (xs @ ys) \<le> composite_score (xs @ s # ys)"
proof -
  let ?p = "math_prod (map factor (xs @ ys))"
  let ?q = "math_prod (map factor (xs @ s # ys))"
  have all: "\<forall>f \<in> set (map factor xs @ map factor ys). 0 \<le> f \<and> f \<le> 1"
    using factor_props(1,2) by auto
  note ins = math_prod_insert [OF all factor_props(1,2) [of s]]
  have qp: "?q \<le> ?p" and q0: "0 \<le> ?q" and p1: "?p \<le> 1" using ins by simp_all
  have "0 \<le> 1 - ?p" "1 - ?p \<le> 1 - ?q" using qp p1 by simp_all
  then have sub: "fsub 1 ?p \<le> fsub 1 ?q" and nn: "0 \<le> fsub 1 ?p"
    by (simp_all add: fsub_def fl_mono fl_nonneg)
  have "py_min 1 (fsub 1 ?p) \<le> py_min 1 (fsub 1 ?q)" "0 \<le> py_min 1 (fsub 1 ?p)"
    using sub nn by (auto simp: py_min_def)
  then show ?thesis unfolding composite_score_factor by (intro py_round_mono)
qed

subsection \<open>The candidate scorer\<close>

text \<open>
  Claim C1 (type gate). When the type classes of the two columns differ, the scorer
  returns none, whatever the flags, the names and the cells are; the naming signal is
  computed before the gate and its result is dropped.
\<close>

theorem type_gate:
  "col_dtype_class (snd c1) \<noteq> col_dtype_class (snd c2)
     \<Longrightarrow> score_candidate L g t1 c1 df1 t2 c2 df2 flags = None"
  by (cases c1; cases c2) (simp add: score_candidate_def)

text \<open>
  A string column \<^verbatim>\<open>customer_id\<close> of \<^verbatim>\<open>orders\<close> against a datetime column
  \<^verbatim>\<open>customer_id\<close> of \<^verbatim>\<open>customers\<close>: the naming signal fires with an exact match, and
  the scorer returns none.
\<close>

theorem type_gate_witness:
  "fst (naming_evidence (build_flags ''both'' None) ''customer_id'' ''customers'' ''customer_id'')
     = [(''naming_exact'', 1)]
   \<and> score_candidate plain_lib () ''orders''
        (''customer_id'', demo_str_customer_id)
        \<lparr>nrows = 2, columns = [(''customer_id'', demo_str_customer_id)]\<rparr>
        ''customers''
        (''customer_id'', demo_date_customer_id)
        \<lparr>nrows = 2, columns = [(''customer_id'', demo_date_customer_id)]\<rparr>
        (build_flags ''both'' None) = None"
proof -
  have n: "fst (naming_evidence (build_flags ''both'' None) ''customer_id'' ''customers'' ''customer_id'')
     = [(''naming_exact'', 1)]" by code_simp
  show ?thesis
    using n type_gate [of
        "(''customer_id'', demo_str_customer_id)"
        "(''customer_id'', demo_date_customer_id)"
        plain_lib "()" "''orders''"
        "\<lparr>nrows = 2, columns = [(''customer_id'', demo_str_customer_id)]\<rparr>" "''customers''"
        "\<lparr>nrows = 2, columns = [(''customer_id'', demo_date_customer_id)]\<rparr>"
        "build_flags ''both'' None"]
    by (simp add: col_dtype_class_def demo_str_customer_id_def demo_date_customer_id_def)
qed

lemma math_prod_unit:
  "0 \<le> math_prod (map factor ks) \<and> math_prod (map factor ks) \<le> 1"
proof -
  have "\<forall>f \<in> set (map factor ks). 0 \<le> f \<and> f \<le> 1" using factor_props(1,2) by auto
  from foldl_fmul_props [OF _ _ this, of 1] show ?thesis by (simp add: math_prod_def)
qed

lemma composite_score_grid:
  "\<exists>k \<le> 1000. composite_score ks = fl (of_nat k / 1000)"
proof -
  define x where "x = py_min 1 (fsub 1 (math_prod (map factor ks)))"
  have p: "0 \<le> 1 - math_prod (map factor ks)" "1 - math_prod (map factor ks) \<le> 1"
    using math_prod_unit [of ks] by simp_all
  have x: "0 \<le> x" "x \<le> 1" using fl_unit [OF p] by (simp_all add: x_def py_min_def fsub_def)
  have "(of_int 0 :: rat) \<le> x * 10 ^ 3" using x(1) by simp
  then have lo: "0 \<le> rhe (x * 10 ^ 3)" by (rule rhe_ge)
  have "x * 10 ^ 3 \<le> of_int 1000" using x(2) by simp
  then have hi: "rhe (x * 10 ^ 3) \<le> 1000" by (rule rhe_le)
  define k where "k = nat (rhe (x * 10 ^ 3))"
  have "composite_score ks = fl (of_int (rhe (x * 10 ^ 3)) / 10 ^ 3)"
    by (simp add: composite_score_factor x_def py_round_def)
  also have "of_int (rhe (x * 10 ^ 3)) = (of_nat k :: rat)" using lo by (simp add: k_def)
  finally have "composite_score ks = fl (of_nat k / 1000)" by simp
  moreover have "k \<le> 1000" using hi by (simp add: k_def)
  ultimately show ?thesis by blast
qed

lemma grid_high: "k \<le> 1000 \<Longrightarrow> fl (85/100) \<le> fl (of_nat k / 1000) \<longleftrightarrow> 850 \<le> k"
proof
  assume "850 \<le> k"
  then have "(850::rat) \<le> of_nat k" by (metis of_nat_le_iff of_nat_numeral)
  then have "(85/100 :: rat) \<le> of_nat k / 1000" by simp
  then show "fl (85/100) \<le> fl (of_nat k / 1000)" by (intro fl_mono) simp_all
next
  assume a: "fl (85/100) \<le> fl (of_nat k / 1000)"
  show "850 \<le> k"
  proof (rule ccontr)
    assume "\<not> 850 \<le> k"
    then have "k \<le> 849" by simp
    then have "(of_nat k :: rat) \<le> 849" by (metis of_nat_le_iff of_nat_numeral)
    then have "(of_nat k :: rat) / 1000 \<le> 849 / 1000" by simp
    then have "fl (of_nat k / 1000) \<le> fl (849 / 1000)" by (intro fl_mono) simp_all
    moreover have "fl (849 / 1000) < fl (85/100)" by (simp add: fl_values)
    ultimately show False using a by simp
  qed
qed

lemma grid_medium: "k \<le> 1000 \<Longrightarrow> fl (55/100) \<le> fl (of_nat k / 1000) \<longleftrightarrow> 550 \<le> k"
proof
  assume "550 \<le> k"
  then have "(550::rat) \<le> of_nat k" by (metis of_nat_le_iff of_nat_numeral)
  then have "(55/100 :: rat) \<le> of_nat k / 1000" by simp
  then show "fl (55/100) \<le> fl (of_nat k / 1000)" by (intro fl_mono) simp_all
next
  assume a: "fl (55/100) \<le> fl (of_nat k / 1000)"
  show "550 \<le> k"
  proof (rule ccontr)
    assume "\<not> 550 \<le> k"
    then have "k \<le> 549" by simp
    then have "(of_nat k :: rat) \<le> 549" by (metis of_nat_le_iff of_nat_numeral)
    then have "(of_nat k :: rat) / 1000 \<le> 549 / 1000" by simp
    then have "fl (of_nat k / 1000) \<le> fl (549 / 1000)" by (intro fl_mono) simp_all
    moreover have "fl (549 / 1000) < fl (55/100)" by (simp add: fl_values)
    ultimately show False using a by simp
  qed
qed

lemma score_candidate_SomeD:
  assumes "score_candidate L g t1 c1 df1 t2 c2 df2 flags = Some r"
  shows "\<exists>ks. score r = composite_score ks \<and> confidence r = confidence_of (score r)"
  using assms
  by (cases c1; cases c2)
     (auto simp: score_candidate_def Let_def split: if_splits list.splits)

text \<open>
  Claim C9 (confidence tier). The tier of a candidate is computed from its score alone, by
  the expression \<^verbatim>\<open>"high" if score >= 0.85 else "medium" if score >= 0.55 else "low"\<close>,
  and the score is the double nearest to \<open>k / 1000\<close> for a whole number \<open>k \<le> 1000\<close> of
  thousandths. On every such score the expression gives \<^verbatim>\<open>high\<close> exactly when
  \<open>k \<ge> 850\<close>, \<^verbatim>\<open>medium\<close> exactly when \<open>550 \<le> k < 850\<close>, and \<^verbatim>\<open>low\<close> otherwise: the
  comparisons of the source, between doubles, agree with the comparisons of the decimal
  numbers. Both bounds are included: the score 0.85 itself is \<^verbatim>\<open>high\<close> and the score
  0.55 itself is \<^verbatim>\<open>medium\<close>, while 0.849 is \<^verbatim>\<open>medium\<close> and 0.549 is \<^verbatim>\<open>low\<close>.
\<close>

theorem confidence_tier:
  "(\<forall>r. score_candidate L g t1 c1 df1 t2 c2 df2 flags = Some r \<longrightarrow>
         confidence r = confidence_of (score r)
       \<and> (\<exists>k \<le> 1000. score r = fl (of_nat k / 1000)))
   \<and> (\<forall>k \<le> 1000. confidence_of (fl (of_nat k / 1000))
         = (if 850 \<le> k then ''high'' else if 550 \<le> k then ''medium'' else ''low''))
   \<and> confidence_of (fl (85/100)) = ''high''
   \<and> confidence_of (fl (849/1000)) = ''medium''
   \<and> confidence_of (fl (55/100)) = ''medium''
   \<and> confidence_of (fl (549/1000)) = ''low''"
proof -
  have grid: "confidence_of (fl (of_nat k / 1000))
         = (if 850 \<le> k then ''high'' else if 550 \<le> k then ''medium'' else ''low'')"
    if "k \<le> 1000" for k
    unfolding confidence_of_def using grid_high [OF that] grid_medium [OF that] by simp
  have cand: "confidence r = confidence_of (score r) \<and> (\<exists>k \<le> 1000. score r = fl (of_nat k / 1000))"
    if "score_candidate L g t1 c1 df1 t2 c2 df2 flags = Some r" for r
  proof -
    from score_candidate_SomeD [OF that] obtain ks where
      s: "score r = composite_score ks" and c: "confidence r = confidence_of (score r)" by blast
    from composite_score_grid [of ks] s c show ?thesis by auto
  qed
  have "confidence_of (fl (85/100)) = ''high''" using grid [of 850] by simp
  moreover have "confidence_of (fl (849/1000)) = ''medium''" using grid [of 849] by simp
  moreover have "confidence_of (fl (55/100)) = ''medium''" using grid [of 550] by simp
  moreover have "confidence_of (fl (549/1000)) = ''low''" using grid [of 549] by simp
  ultimately show ?thesis using grid cand by blast
qed

lemma demo_value_overlap: "value_overlap plain_lib demo_cust demo_ident = fl (4/5)"
  by (simp add: value_overlap_def dropna_str_def dropna_def plain_lib_def demo_cust_def demo_ident_def
      unique_def List.map_filter_simps fdiv_def)

lemma demo_overlap_evidence:
  "overlap_evidence plain_lib [''value_overlap'' \<mapsto> True] demo_cust demo_orders_table
     demo_ident demo_people_table
   = ([(''overlap_medium'', fl (4/5))], [''partial overlap 80%''])"
  by (simp add: overlap_evidence_def flag_get_def demo_value_overlap OVERLAP_HIGH_def
        OVERLAP_MEDIUM_def fl_values format_pct_def fmul_def rhe_of_int [of 80, simplified]
        string_of_nat.simps digit_char_def demo_orders_table_def demo_people_table_def)

lemma demo_composite_score: "composite_score [''overlap_medium''] = fl (55/100)"
  by (simp add: composite_score_def dict_get_def WEIGHT_MAP_def math_prod_def fsub_def fmul_def
        py_min_def py_round_def fl_values rhe_eval [where n = 550])

lemma demo_dtype_class:
  "col_dtype_class demo_cust = ''string''" "col_dtype_class demo_ident = ''string''"
  by (simp_all add: col_dtype_class_def demo_cust_def demo_ident_def)

lemma demo_score_candidate:
  "score_candidate plain_lib () ''orders'' (''cust'', demo_cust) demo_orders_table
     ''people'' (''ident'', demo_ident) demo_people_table [''value_overlap'' \<mapsto> True]
   = Some demo_candidate"
  by (simp add: score_candidate_def demo_overlap_evidence demo_composite_score naming_evidence_def
        cardinality_evidence_def format_evidence_def distribution_evidence_def
        null_pattern_evidence_def flag_get_def add_evidence_def demo_dtype_class confidence_of_def
        fl_values dict_get_def LABEL_MAP_def WEIGHT_MAP_def demo_candidate_def)

text \<open>
  A column whose five distinct values have four in the target column, with only the
  value-overlap signal enabled: the overlap is 0.8, the score exactly 0.55, and the tier
  is that of the score, \<^verbatim>\<open>medium\<close>. At 850 thousandths the tier is \<^verbatim>\<open>high\<close>, at 849
  and at 550 it is \<^verbatim>\<open>medium\<close>, at 549 it is \<^verbatim>\<open>low\<close>.
\<close>

theorem confidence_tier_witness:
  "score_candidate plain_lib () ''orders'' (''cust'', demo_cust) demo_orders_table
     ''people'' (''ident'', demo_ident) demo_people_table [''value_overlap'' \<mapsto> True]
     = Some demo_candidate
   \<and> score demo_candidate = fl (55/100)
   \<and> confidence demo_candidate = confidence_of (score demo_candidate)
   \<and> confidence demo_candidate = ''medium''
   \<and> (850::nat) \<le> 1000 \<and> confidence_of (fl (of_nat 850 / 1000)) = ''high''
   \<and> (849::nat) \<le> 1000 \<and> confidence_of (fl (of_nat 849 / 1000)) = ''medium''
   \<and> (550::nat) \<le> 1000 \<and> confidence_of (fl (of_nat 550 / 1000)) = ''medium''
   \<and> (549::nat) \<le> 1000 \<and> confidence_of (fl (of_nat 549 / 1000)) = ''low''"
proof -
  note t = confidence_tier [of plain_lib "()" "''orders''" "(''cust'', demo_cust)" demo_orders_table
      "''people''" "(''ident'', demo_ident)" demo_people_table "[''value_overlap'' \<mapsto> True]"]
  from t have c: "confidence demo_candidate = confidence_of (score demo_candidate)"
    using demo_score_candidate by blast
  from t have g: "\<And>k. k \<le> 1000 \<Longrightarrow> confidence_of (fl (of_nat k / 1000))
         = (if 850 \<le> k then ''high'' else if 550 \<le> k then ''medium'' else ''low'')"
    by blast
  have s: "score demo_candidate = fl (55/100)" "confidence demo_candidate = ''medium''"
    by (simp_all add: demo_candidate_def)
  show ?thesis
    using demo_score_candidate c s g [of 850] g [of 849] g [of 550] g [of 549] by simp
qed
subsection \<open>The pairwise search\<close>

lemma format_fingerprint_seeded: "format_fingerprint L g s = format_fingerprint L g' s"
  by (simp add: format_fingerprint_def pd_sample_def Let_def cong: if_cong)

lemma format_evidence_seeded:
  "format_evidence L g flags s1 df1 s2 df2 = format_evidence L g' flags s1 df1 s2 df2"
  by (simp add: format_evidence_def format_fingerprint_seeded [of L g _ g'] Let_def cong: if_cong)

lemma score_candidate_seeded: "score_candidate L g = score_candidate L g'"
  by (intro ext)
     (simp add: score_candidate_def format_evidence_seeded [of L g _ _ _ _ _ g'] Let_def
        split: prod.splits cong: if_cong)

lemma keep_best_seeded: "keep_best L g = keep_best L g'"
  by (intro ext) (simp add: keep_best_def score_candidate_seeded [of L g g'])

lemma scan_target_seeded: "scan_target L g = scan_target L g'"
  by (intro ext)
     (simp add: scan_target_def keep_best_seeded [of L g g'] Let_def split: prod.splits cong: if_cong)

lemma scan_column_seeded: "scan_column L g = scan_column L g'"
  by (intro ext) (simp add: scan_column_def scan_target_seeded [of L g g'] Let_def cong: if_cong)

lemma scan_table_seeded: "scan_table L g = scan_table L g'"
  by (intro ext)
     (simp add: scan_table_def scan_column_seeded [of L g g'] split: prod.splits cong: if_cong)

text \<open>
  Claim C4 (determinism). The result of \<^verbatim>\<open>detect_fks\<close> is a function of its arguments
  alone: two calls on the same tables, method, minimum confidence and flags return the same
  ordered list, whatever the state of the random generator that the process shares is when
  each call starts. The accumulators are local to a call, and the sample of the format
  fingerprint is drawn with a generator seeded afresh with 42.
\<close>

theorem detect_fks_deterministic:
  "detect_fks L g tables method min_confidence enable_flags
     = detect_fks L g' tables method min_confidence enable_flags"
  by (simp add: detect_fks_def scan_table_seeded [of L g g'] Let_def cong: if_cong)

text \<open>
  The comparison \<^verbatim>\<open>best[col_key] > score + 0.05\<close> is made between doubles. For a running
  value \<open>j / 1000\<close> and a score \<open>k / 1000\<close>, both rounded to doubles as the scorer leaves
  them, it holds whenever \<open>j > k + 50\<close> and fails whenever \<open>j < k + 50\<close>; when the two
  differ by exactly 0.05 the rounding of the sum decides.
\<close>

lemma grid_err:
  assumes "k \<le> 1000"
  shows "\<bar>fl (of_nat k / 1000) - of_nat k / 1000\<bar> \<le> 1 / 2 ^ 53"
proof (rule fl_err)
  show "(0::rat) \<le> of_nat k / 1000" by simp
  have "(of_nat k :: rat) \<le> 1000" using assms by (metis of_nat_le_iff of_nat_numeral)
  then show "(of_nat k :: rat) / 1000 < 2" by simp
qed

lemma abs_le_D: "\<bar>(x::rat) - y\<bar> \<le> e \<Longrightarrow> x \<le> y + e \<and> y - e \<le> x"
  by linarith

lemma abs_le_I: "(x::rat) \<le> y + e \<Longrightarrow> y - e \<le> x \<Longrightarrow> \<bar>x - y\<bar> \<le> e"
  by linarith

lemma near_best_sum_err:
  assumes "k \<le> 1000"
  shows "\<bar>fadd (fl (of_nat k / 1000)) (fl (5/100)) - (of_nat k + 50) / 1000\<bar> \<le> 3 / 2 ^ 53"
proof -
  define eps :: rat where "eps = 1 / 2 ^ 53"
  define a where "a = fl (of_nat k / 1000)"
  define c where "c = fl (5/100)"
  define q :: rat where "q = of_nat k / 1000"
  have eps: "0 < eps" "eps < 1/4" by (simp_all add: eps_def)
  have k: "(of_nat k :: rat) \<le> 1000" using assms by (metis of_nat_le_iff of_nat_numeral)
  then have q: "0 \<le> q" "q \<le> 1" by (simp_all add: q_def)
  have a: "a \<le> q + eps \<and> q - eps \<le> a"
    unfolding a_def q_def eps_def using assms by (intro abs_le_D grid_err)
  have c: "c \<le> 5/100 + eps \<and> 5/100 - eps \<le> c"
    unfolding c_def eps_def by (intro abs_le_D fl_err) simp_all
  have a0: "0 \<le> a" unfolding a_def by (rule fl_nonneg) simp
  have c0: "0 \<le> c" unfolding c_def by (rule fl_nonneg) simp
  have lt: "a + c < 2" using a c q eps by linarith
  have s: "fl (a + c) \<le> (a + c) + eps \<and> (a + c) - eps \<le> fl (a + c)"
    unfolding eps_def using a0 c0 lt by (intro abs_le_D fl_err) simp_all
  have m: "\<bar>fl (a + c) - (q + 5/100)\<bar> \<le> 3 * eps"
    using s a c by (intro abs_le_I) linarith+
  have e: "(of_nat k + 50) / 1000 = q + 5/100" by (simp add: q_def field_simps)
  show ?thesis
    unfolding fadd_def e a_def [symmetric] c_def [symmetric] using m by (simp add: eps_def)
qed

lemma near_best_decimal:
  assumes "k \<le> 1000" "j \<le> 1000"
  shows "k + 50 < j \<Longrightarrow> fadd (fl (of_nat k / 1000)) (fl (5/100)) < fl (of_nat j / 1000)"
    and "j < k + 50 \<Longrightarrow> \<not> fadd (fl (of_nat k / 1000)) (fl (5/100)) < fl (of_nat j / 1000)"
proof -
  define eps :: rat where "eps = 1 / 2 ^ 53"
  define s where "s = fadd (fl (of_nat k / 1000)) (fl (5/100))"
  define b where "b = fl (of_nat j / 1000)"
  define q :: rat where "q = of_nat k / 1000"
  define r :: rat where "r = of_nat j / 1000"
  have eps: "0 < eps" "8 * eps < 1/1000" by (simp_all add: eps_def)
  have e: "(of_nat k + 50) / 1000 = q + 5/100" by (simp add: q_def field_simps)
  have "\<bar>s - (q + 5/100)\<bar> \<le> 3 * eps"
    using near_best_sum_err [OF assms(1)] unfolding e s_def [symmetric] by (simp add: eps_def)
  then have s: "s \<le> q + 5/100 + 3 * eps \<and> q + 5/100 - 3 * eps \<le> s"
    by linarith
  have b: "b \<le> r + eps \<and> r - eps \<le> b"
    unfolding b_def r_def eps_def using assms(2) by (intro abs_le_D grid_err)
  {
    assume "k + 50 < j"
    then have "k + 51 \<le> j" by simp
    then have "(of_nat (k + 51) :: rat) \<le> of_nat j" by (simp only: of_nat_le_iff)
    then have "q + 51/1000 \<le> r" by (simp add: q_def r_def field_simps)
    then have "s < b" using s b eps by linarith
    then show "fadd (fl (of_nat k / 1000)) (fl (5/100)) < fl (of_nat j / 1000)"
      by (simp add: s_def b_def)
  }
  {
    assume "j < k + 50"
    then have "j + 1 \<le> k + 50" by simp
    then have "(of_nat (j + 1) :: rat) \<le> of_nat (k + 50)" by (simp only: of_nat_le_iff)
    then have "r + 1/1000 \<le> q + 50/1000" by (simp add: q_def r_def field_simps)
    then have "\<not> s < b" using s b eps by linarith
    then show "\<not> fadd (fl (of_nat k / 1000)) (fl (5/100)) < fl (of_nat j / 1000)"
      by (simp add: s_def b_def)
  }
qed

text \<open>
  The key \<^verbatim>\<open>f"{t1}|{col1}"\<close> of the running value identifies the source column as long
  as table names hold no vertical bar.
\<close>

lemma col_key_inj:
  assumes "CHR ''|'' \<notin> set t1" "CHR ''|'' \<notin> set t1'" "t1 @ ''|'' @ col1 = t1' @ ''|'' @ col1'"
  shows "t1 = t1' \<and> col1 = col1'"
proof -
  have tw: "\<And>t c. CHR ''|'' \<notin> set t \<Longrightarrow> takeWhile (\<lambda>x. x \<noteq> CHR ''|'') (t @ ''|'' @ c) = t"
    by (subst takeWhile_append2) auto
  have "t1 = takeWhile (\<lambda>x. x \<noteq> CHR ''|'') (t1 @ ''|'' @ col1)" using tw [OF assms(1)] by simp
  also have "\<dots> = t1'" unfolding assms(3) using tw [OF assms(2)] by simp
  finally have t: "t1 = t1'" .
  then show ?thesis using assms(3) by simp
qed

lemma scan_target_step:
  assumes "t2 \<noteq> t1"
    and "t1 @ ''|'' @ fst c1 @ ''|'' @ t2 \<notin> seen st"
    and "foldl (keep_best L g flags t1 c1 df1 t2 df2) None (target_columns df2 too_large)
           = Some (best_result, best_to_col)"
    and "min_rank \<le> dict_get CONF_RANK (confidence best_result) 0"
  shows "scan_target L g flags min_rank t1 c1 df1 too_large st (t2, df2) =
           (if \<exists>b. best st (t1 @ ''|'' @ fst c1) = Some b \<and> fadd (score best_result) (fl (5/100)) < b
            then st
            else st\<lparr>best := (best st)(t1 @ ''|'' @ fst c1 \<mapsto> score best_result),
                    seen := insert (t1 @ ''|'' @ fst c1 @ ''|'' @ t2) (seen st),
                    results := results st @
                      [\<lparr>from_table = t1, from_col = fst c1, to_table = t2,
                        to_col = Some best_to_col, found = best_result\<rparr>]\<rparr>)"
  using assms by (auto simp: scan_target_def Let_def split: option.splits)

text \<open>
  One step of the near-best filter. Let the scan of a source column reach a target table
  that is not the source table, under a key \<^verbatim>\<open>rel_key\<close> not seen before, and let the best
  candidate of that table pass the confidence filter. The candidate is skipped, and nothing
  changes, exactly when a value is stored under \<^verbatim>\<open>col_key\<close> and is greater than the
  candidate's score plus 0.05 (the sum and the comparison in double arithmetic, as in the
  source). Otherwise the candidate is appended to the results and the value under
  \<^verbatim>\<open>col_key\<close> becomes the candidate's score, also when the value before was greater: it
  is the score accepted last, not the greatest one.
\<close>

lemma near_best_step:
  assumes "t2 \<noteq> t1"
    and "t1 @ ''|'' @ fst c1 @ ''|'' @ t2 \<notin> seen st"
    and "foldl (keep_best L g flags t1 c1 df1 t2 df2) None (target_columns df2 too_large)
           = Some (best_result, best_to_col)"
    and "min_rank \<le> dict_get CONF_RANK (confidence best_result) 0"
  shows "((\<exists>b. best st (t1 @ ''|'' @ fst c1) = Some b \<and> fadd (score best_result) (fl (5/100)) < b)
           \<longrightarrow> scan_target L g flags min_rank t1 c1 df1 too_large st (t2, df2) = st)
       \<and> (\<not> (\<exists>b. best st (t1 @ ''|'' @ fst c1) = Some b \<and> fadd (score best_result) (fl (5/100)) < b)
           \<longrightarrow> scan_target L g flags min_rank t1 c1 df1 too_large st (t2, df2)
                 = st\<lparr>best := (best st)(t1 @ ''|'' @ fst c1 \<mapsto> score best_result),
                      seen := insert (t1 @ ''|'' @ fst c1 @ ''|'' @ t2) (seen st),
                      results := results st @
                        [\<lparr>from_table = t1, from_col = fst c1, to_table = t2,
                          to_col = Some best_to_col, found = best_result\<rparr>]\<rparr>)"
  unfolding scan_target_step [OF assms] by auto

lemma demo_pk_cols:
  "pk_cols demo_orders_table = []" "pk_cols demo_people_table = [(''ident'', demo_ident)]"
  by (simp_all add: pk_cols_def demo_orders_table_def demo_people_table_def notna_all_def nunique_def
        dropna_def List.map_filter_simps) (simp_all add: demo_cust_def demo_ident_def List.map_filter_simps)

lemma demo_target_columns: "target_columns demo_people_table False = [(''ident'', demo_ident)]"
  by (simp add: target_columns_def demo_pk_cols)

lemma demo_keep_best:
  "foldl (keep_best plain_lib () [''value_overlap'' \<mapsto> True] ''orders'' (''cust'', demo_cust)
            demo_orders_table ''people'' demo_people_table) None
         (target_columns demo_people_table False)
   = Some (demo_candidate, ''ident'')"
  by (simp add: demo_target_columns keep_best_def demo_score_candidate)

lemma demo_rank: "dict_get CONF_RANK (confidence demo_candidate) 0 = 1"
  by (simp add: demo_candidate_def dict_get_def CONF_RANK_def)

text \<open>
  The candidate of score 0.55 is skipped when the running value is 0.9. When the running
  value is 0.6 it is accepted, since \<open>0.55 + 0.05\<close> is not below 0.6, and the running
  value drops from 0.6 to 0.55.
\<close>

lemma near_best_step_example:
  "scan_target plain_lib () [''value_overlap'' \<mapsto> True] 1 ''orders'' (''cust'', demo_cust)
       demo_orders_table False
       \<lparr>results = [], seen = {}, best = [''orders|cust'' \<mapsto> fl (9/10)]\<rparr>
       (''people'', demo_people_table)
     = \<lparr>results = [], seen = {}, best = [''orders|cust'' \<mapsto> fl (9/10)]\<rparr>
   \<and> scan_target plain_lib () [''value_overlap'' \<mapsto> True] 1 ''orders'' (''cust'', demo_cust)
       demo_orders_table False
       \<lparr>results = [], seen = {}, best = [''orders|cust'' \<mapsto> fl (3/5)]\<rparr>
       (''people'', demo_people_table)
     = \<lparr>results = [demo_relationship], seen = {''orders|cust|people''},
         best = [''orders|cust'' \<mapsto> fl (55/100)]\<rparr>"
proof -
  have r: "(1::int) \<le> dict_get CONF_RANK (confidence demo_candidate) 0" by (simp add: demo_rank)
  have s: "score demo_candidate = fl (55/100)" by (simp add: demo_candidate_def)
  have skip: "fadd (fl (55/100)) (fl (5/100)) < fl (9/10)"
    and keep: "\<not> fadd (fl (55/100)) (fl (5/100)) < fl (3/5)"
    by (simp_all add: fadd_def fl_values)
  note a = near_best_step [of "''people''" "''orders''" "(''cust'', demo_cust)"
      "\<lparr>results = [], seen = {}, best = [''orders|cust'' \<mapsto> fl (9/10)]\<rparr>"
      plain_lib "()" "[''value_overlap'' \<mapsto> True]" demo_orders_table demo_people_table False
      demo_candidate "''ident''" 1, OF _ _ demo_keep_best r]
  note b = near_best_step [of "''people''" "''orders''" "(''cust'', demo_cust)"
      "\<lparr>results = [], seen = {}, best = [''orders|cust'' \<mapsto> fl (3/5)]\<rparr>"
      plain_lib "()" "[''value_overlap'' \<mapsto> True]" demo_orders_table demo_people_table False
      demo_candidate "''ident''" 1, OF _ _ demo_keep_best r]
  have a': "scan_target plain_lib () [''value_overlap'' \<mapsto> True] 1 ''orders'' (''cust'', demo_cust)
       demo_orders_table False
       \<lparr>results = [], seen = {}, best = [''orders|cust'' \<mapsto> fl (9/10)]\<rparr>
       (''people'', demo_people_table)
     = \<lparr>results = [], seen = {}, best = [''orders|cust'' \<mapsto> fl (9/10)]\<rparr>"
    using a skip by (simp add: s)
  have b': "scan_target plain_lib () [''value_overlap'' \<mapsto> True] 1 ''orders'' (''cust'', demo_cust)
       demo_orders_table False
       \<lparr>results = [], seen = {}, best = [''orders|cust'' \<mapsto> fl (3/5)]\<rparr>
       (''people'', demo_people_table)
     = \<lparr>results = [demo_relationship], seen = {''orders|cust|people''},
         best = [''orders|cust'' \<mapsto> fl (55/100)]\<rparr>"
    using b keep by (simp add: s demo_relationship_def)
  from a' b' show ?thesis by simp
qed

text \<open>
  In decimal terms: a running value more than 0.05 above the candidate's score makes the
  search skip the candidate; a running value less than 0.05 above it, or below it, makes
  the search accept the candidate and take its score as the new running value.
\<close>

lemma near_best_step_decimal:
  assumes "t2 \<noteq> t1"
    and "t1 @ ''|'' @ fst c1 @ ''|'' @ t2 \<notin> seen st"
    and "foldl (keep_best L g flags t1 c1 df1 t2 df2) None (target_columns df2 too_large)
           = Some (best_result, best_to_col)"
    and "min_rank \<le> dict_get CONF_RANK (confidence best_result) 0"
    and "k \<le> 1000" "score best_result = fl (of_nat k / 1000)"
    and "j \<le> 1000" "best st (t1 @ ''|'' @ fst c1) = Some (fl (of_nat j / 1000))"
  shows "k + 50 < j \<Longrightarrow> scan_target L g flags min_rank t1 c1 df1 too_large st (t2, df2) = st"
    and "j < k + 50 \<Longrightarrow>
           best (scan_target L g flags min_rank t1 c1 df1 too_large st (t2, df2)) (t1 @ ''|'' @ fst c1)
             = Some (fl (of_nat k / 1000))
           \<and> results (scan_target L g flags min_rank t1 c1 df1 too_large st (t2, df2))
             = results st @ [\<lparr>from_table = t1, from_col = fst c1, to_table = t2,
                               to_col = Some best_to_col, found = best_result\<rparr>]"
proof -
  note step = scan_target_step [OF assms(1-4)]
  {
    assume "k + 50 < j"
    from near_best_decimal(1) [OF assms(5,7) this]
    show "scan_target L g flags min_rank t1 c1 df1 too_large st (t2, df2) = st"
      unfolding step using assms(6,8) by auto
  }
  {
    assume "j < k + 50"
    from near_best_decimal(2) [OF assms(5,7) this]
    show "best (scan_target L g flags min_rank t1 c1 df1 too_large st (t2, df2)) (t1 @ ''|'' @ fst c1)
             = Some (fl (of_nat k / 1000))
           \<and> results (scan_target L g flags min_rank t1 c1 df1 too_large st (t2, df2))
             = results st @ [\<lparr>from_table = t1, from_col = fst c1, to_table = t2,
                               to_col = Some best_to_col, found = best_result\<rparr>]"
      unfolding step using assms(6,8) by auto
  }
qed

text \<open>
  Over the whole loop on the target tables of one source column: either nothing was
  accepted, or the running value at the end is the score of the relationship appended
  last.
\<close>

lemma scan_target_cases:
  "scan_target L g flags min_rank t1 c1 df1 too_large st tbl2 = st
   \<or> (\<exists>r k. scan_target L g flags min_rank t1 c1 df1 too_large st tbl2
               = st\<lparr>best := (best st)(t1 @ ''|'' @ fst c1 \<mapsto> score (found r)),
                    seen := insert k (seen st),
                    results := results st @ [r]\<rparr>)"
proof (cases tbl2)
  case (Pair t2 df2)
  show ?thesis
    unfolding Pair scan_target_def Let_def
    by (auto split: option.splits prod.splits) (metis rel_key.select_convs relationship.select_convs)+
qed

lemma scan_targets_last_accepted:
  "(results (foldl (scan_target L g flags min_rank t1 c1 df1 too_large) st tbls) = results st
      \<and> best (foldl (scan_target L g flags min_rank t1 c1 df1 too_large) st tbls) = best st)
   \<or> (\<exists>new. new \<noteq> []
         \<and> results (foldl (scan_target L g flags min_rank t1 c1 df1 too_large) st tbls)
             = results st @ new
         \<and> best (foldl (scan_target L g flags min_rank t1 c1 df1 too_large) st tbls)
               (t1 @ ''|'' @ fst c1)
             = Some (score (found (last new))))"
proof (induction tbls rule: rev_induct)
  case Nil
  then show ?case by simp
next
  case (snoc tbl tbls)
  let ?st = "foldl (scan_target L g flags min_rank t1 c1 df1 too_large) st tbls"
  from scan_target_cases [of L g flags min_rank t1 c1 df1 too_large ?st tbl]
  show ?case
  proof
    assume "scan_target L g flags min_rank t1 c1 df1 too_large ?st tbl = ?st"
    then show ?thesis using snoc.IH by simp
  next
    assume "\<exists>r k. scan_target L g flags min_rank t1 c1 df1 too_large ?st tbl
               = ?st\<lparr>best := (best ?st)(t1 @ ''|'' @ fst c1 \<mapsto> score (found r)),
                    seen := insert k (seen ?st),
                    results := results ?st @ [r]\<rparr>"
    then obtain r k where s: "scan_target L g flags min_rank t1 c1 df1 too_large ?st tbl
               = ?st\<lparr>best := (best ?st)(t1 @ ''|'' @ fst c1 \<mapsto> score (found r)),
                    seen := insert k (seen ?st),
                    results := results ?st @ [r]\<rparr>" by blast
    from snoc.IH obtain old where "results ?st = results st @ old" by auto
    then have "results (foldl (scan_target L g flags min_rank t1 c1 df1 too_large) st (tbls @ [tbl]))
                 = results st @ (old @ [r])"
      and "best (foldl (scan_target L g flags min_rank t1 c1 df1 too_large) st (tbls @ [tbl]))
             (t1 @ ''|'' @ fst c1) = Some (score (found (last (old @ [r]))))"
      by (simp_all add: s)
    then show ?thesis by (intro disjI2 exI [of _ "old @ [r]"]) simp
  qed
qed

text \<open>
  The loop over the target columns returns a best-scoring candidate: none when the scorer
  returns none for every target column, otherwise the result of a target column whose
  score no other result exceeds.
\<close>

lemma keep_best_cases:
  "keep_best L g flags t1 c1 df1 t2 df2 acc c2 = new \<Longrightarrow>
     (score_candidate L g t1 c1 df1 t2 c2 df2 flags = None \<and> new = acc)
   \<or> (\<exists>r. score_candidate L g t1 c1 df1 t2 c2 df2 flags = Some r
          \<and> ((acc = None \<and> new = Some (r, fst c2))
            \<or> (\<exists>r0 n0. acc = Some (r0, n0) \<and> score r0 < score r \<and> new = Some (r, fst c2))
            \<or> (\<exists>r0 n0. acc = Some (r0, n0) \<and> \<not> score r0 < score r \<and> new = acc)))"
  by (auto simp: keep_best_def split: option.splits if_splits)

lemma keep_best_none:
  "foldl (keep_best L g flags t1 c1 df1 t2 df2) None cols = None
     \<longleftrightarrow> (\<forall>c2 \<in> set cols. score_candidate L g t1 c1 df1 t2 c2 df2 flags = None)"
proof (induction cols rule: rev_induct)
  case Nil
  then show ?case by simp
next
  case (snoc c cols)
  define acc where "acc = foldl (keep_best L g flags t1 c1 df1 t2 df2) None cols"
  have f: "foldl (keep_best L g flags t1 c1 df1 t2 df2) None (cols @ [c])
             = keep_best L g flags t1 c1 df1 t2 df2 acc c" by (simp add: acc_def)
  have "\<exists>new. keep_best L g flags t1 c1 df1 t2 df2 acc c = new" by simp
  then obtain new where n: "keep_best L g flags t1 c1 df1 t2 df2 acc c = new" by blast
  from keep_best_cases [OF n] snoc.IH [folded acc_def]
  show ?case unfolding f n by auto
qed

lemma keep_best_is_best:
  assumes "foldl (keep_best L g flags t1 c1 df1 t2 df2) None cols = Some (r, n)"
  shows "(\<exists>c2 \<in> set cols. fst c2 = n \<and> score_candidate L g t1 c1 df1 t2 c2 df2 flags = Some r)
       \<and> (\<forall>c2 \<in> set cols. \<forall>r'. score_candidate L g t1 c1 df1 t2 c2 df2 flags = Some r'
              \<longrightarrow> score r' \<le> score r)"
  using assms
proof (induction cols arbitrary: r n rule: rev_induct)
  case Nil
  then show ?case by simp
next
  case (snoc c cols)
  define acc where "acc = foldl (keep_best L g flags t1 c1 df1 t2 df2) None cols"
  have f: "keep_best L g flags t1 c1 df1 t2 df2 acc c = Some (r, n)"
    using snoc.prems by (simp add: acc_def)
  note none = keep_best_none [of L g flags t1 c1 df1 t2 df2 cols, folded acc_def]
  note ih = snoc.IH [unfolded acc_def [symmetric]]
  from keep_best_cases [OF f]
  consider (skip) "score_candidate L g t1 c1 df1 t2 c df2 flags = None" "acc = Some (r, n)"
    | (first) "score_candidate L g t1 c1 df1 t2 c df2 flags = Some r" "acc = None" "n = fst c"
    | (better) r0 n0 where "score_candidate L g t1 c1 df1 t2 c df2 flags = Some r"
        "acc = Some (r0, n0)" "score r0 < score r" "n = fst c"
    | (worse) r' where "score_candidate L g t1 c1 df1 t2 c df2 flags = Some r'"
        "acc = Some (r, n)" "\<not> score r < score r'"
    by auto
  then show ?case
  proof cases
    case skip
    with ih [OF skip(2)] show ?thesis by auto
  next
    case first
    with none show ?thesis by auto
  next
    case better
    with ih [OF better(2)] show ?thesis by fastforce
  next
    case worse
    with ih [OF worse(2)] show ?thesis by fastforce
  qed
qed

text \<open>
  When no table name holds a vertical bar, the key \<^verbatim>\<open>f"{t1}|{col1}|{t2}"\<close> identifies
  the triple.
\<close>

lemma rel_key_inj:
  assumes "CHR ''|'' \<notin> set t1" "CHR ''|'' \<notin> set t1'" "CHR ''|'' \<notin> set t2" "CHR ''|'' \<notin> set t2'"
    and "t1 @ ''|'' @ c @ ''|'' @ t2 = t1' @ ''|'' @ c' @ ''|'' @ t2'"
  shows "t1 = t1' \<and> c = c' \<and> t2 = t2'"
proof -
  from col_key_inj [OF assms(1,2,5)] have 1: "t1 = t1'" and 2: "c @ ''|'' @ t2 = c' @ ''|'' @ t2'"
    by simp_all
  from 2 have "rev (c @ ''|'' @ t2) = rev (c' @ ''|'' @ t2')" by simp
  then have 3: "rev t2 @ ''|'' @ rev c = rev t2' @ ''|'' @ rev c'" by simp
  have "CHR ''|'' \<notin> set (rev t2)" "CHR ''|'' \<notin> set (rev t2')" using assms(3,4) by simp_all
  from col_key_inj [OF this 3] have "t2 = t2'" "c = c'" by simp_all
  with 1 show ?thesis by simp
qed

text \<open>
  The loop over the target tables of one source column, started in a state where no triple
  of this column was seen: it applies the filter to the candidates of the target tables
  with the value stored under \<^verbatim>\<open>col_key\<close> as running value, adds only keys of this
  column to \<^verbatim>\<open>seen\<close>, and leaves the values of other keys alone.
\<close>

lemma scan_target_candidate:
  "scan_target L g flags min_rank t1 c1 df1 too_large st tbl2 =
     (if t1 @ ''|'' @ fst c1 @ ''|'' @ fst tbl2 \<in> seen st then st
      else case target_candidate L g flags min_rank t1 c1 df1 too_large tbl2 of
             None \<Rightarrow> st
           | Some r \<Rightarrow>
               if (case best st (t1 @ ''|'' @ fst c1) of
                     None \<Rightarrow> False
                   | Some b \<Rightarrow> fadd (score (found r)) (fl (5/100)) < b)
               then st
               else st\<lparr>best := (best st)(t1 @ ''|'' @ fst c1 \<mapsto> score (found r)),
                       seen := insert (t1 @ ''|'' @ fst c1 @ ''|'' @ fst tbl2) (seen st),
                       results := results st @ [r]\<rparr>)"
  by (cases tbl2) (auto simp: scan_target_def target_candidate_def Let_def split: option.splits)

lemma scan_targets_near_best:
  assumes "distinct (map fst tbls)"
    and "\<forall>t2 \<in> fst ` set tbls. t1 @ ''|'' @ fst c1 @ ''|'' @ t2 \<notin> seen st"
  shows "results (foldl (scan_target L g flags min_rank t1 c1 df1 too_large) st tbls)
           = results st @ near_best_spec (best st (t1 @ ''|'' @ fst c1))
                            (List.map_filter (target_candidate L g flags min_rank t1 c1 df1 too_large) tbls)
       \<and> seen (foldl (scan_target L g flags min_rank t1 c1 df1 too_large) st tbls)
           \<subseteq> seen st \<union> (\<lambda>t2. t1 @ ''|'' @ fst c1 @ ''|'' @ t2) ` fst ` set tbls
       \<and> (\<forall>k. k \<noteq> t1 @ ''|'' @ fst c1
              \<longrightarrow> best (foldl (scan_target L g flags min_rank t1 c1 df1 too_large) st tbls) k = best st k)"
  using assms
proof (induction tbls arbitrary: st)
  case Nil
  then show ?case by (simp add: List.map_filter_simps)
next
  case (Cons tbl tbls)
  define st1 where "st1 = scan_target L g flags min_rank t1 c1 df1 too_large st tbl"
  have new: "t1 @ ''|'' @ fst c1 @ ''|'' @ fst tbl \<notin> seen st" using Cons.prems(2) by simp
  have d: "distinct (map fst tbls)" "fst tbl \<notin> fst ` set tbls" using Cons.prems(1) by simp_all
  have sub: "seen st1 \<subseteq> insert (t1 @ ''|'' @ fst c1 @ ''|'' @ fst tbl) (seen st)"
    unfolding st1_def scan_target_candidate by (auto split: option.splits)
  have f: "\<forall>t2 \<in> fst ` set tbls. t1 @ ''|'' @ fst c1 @ ''|'' @ t2 \<notin> seen st1"
  proof
    fix t2 assume t2: "t2 \<in> fst ` set tbls"
    then have "t2 \<noteq> fst tbl" using d(2) by blast
    then have "t1 @ ''|'' @ fst c1 @ ''|'' @ t2 \<noteq> t1 @ ''|'' @ fst c1 @ ''|'' @ fst tbl" by simp
    moreover have "t1 @ ''|'' @ fst c1 @ ''|'' @ t2 \<notin> seen st" using Cons.prems(2) t2 by auto
    ultimately show "t1 @ ''|'' @ fst c1 @ ''|'' @ t2 \<notin> seen st1" using sub by blast
  qed
  note ih = Cons.IH [OF d(1) f]
  have step: "results st1 @ near_best_spec (best st1 (t1 @ ''|'' @ fst c1))
                (List.map_filter (target_candidate L g flags min_rank t1 c1 df1 too_large) tbls)
              = results st @ near_best_spec (best st (t1 @ ''|'' @ fst c1))
                (List.map_filter (target_candidate L g flags min_rank t1 c1 df1 too_large) (tbl # tbls))"
    unfolding st1_def scan_target_candidate using new
    by (auto simp: List.map_filter_simps split: option.splits)
  have other: "\<forall>k. k \<noteq> t1 @ ''|'' @ fst c1 \<longrightarrow> best st1 k = best st k"
    unfolding st1_def scan_target_candidate by (auto split: option.splits)
  have fold: "foldl (scan_target L g flags min_rank t1 c1 df1 too_large) st (tbl # tbls)
                = foldl (scan_target L g flags min_rank t1 c1 df1 too_large) st1 tbls"
    by (simp add: st1_def)
  show ?case unfolding fold using ih step other sub by auto
qed

text \<open>
  With distinct table names that hold no vertical bar and distinct column names in every
  table, no two source columns share a key, and \<^verbatim>\<open>detect_fks\<close> is the near-best filter of
  the specification: for every source column it runs the filter, with a running value of its own that is
  absent at the start, over the best-scoring candidates of the target tables that pass
  the minimum confidence.
\<close>

lemma fresh_keys_mono: "fresh_keys T R st \<Longrightarrow> R' \<subseteq> R \<Longrightarrow> fresh_keys T R' st"
  unfolding fresh_keys_def by blast

lemma scan_column_near_best:
  assumes "distinct (map fst tables)"
    and names: "\<forall>t \<in> fst ` set tables. CHR ''|'' \<notin> set t"
    and t1: "CHR ''|'' \<notin> set t1"
    and R: "\<forall>(t, c) \<in> R. CHR ''|'' \<notin> set t \<and> (t, c) \<noteq> (t1, fst c1)"
    and fresh: "fresh_keys (fst ` set tables) (insert (t1, fst c1) R) st"
  shows "results (scan_column L g flags min_rank tables t1 df1 st c1)
           = results st @ column_relationships L g flags min_rank tables t1 df1 c1
       \<and> fresh_keys (fst ` set tables) R (scan_column L g flags min_rank tables t1 df1 st c1)"
proof (cases "fst c1 \<in> set (map fst (pk_cols df1))")
  case True
  then show ?thesis
    using fresh_keys_mono [OF fresh, of R]
    by (auto simp: scan_column_def column_relationships_def)
next
  case False
  define too_large where "too_large = (150000 < nrows df1 \<or> 300 < length (columns df1))"
  define st' where "st' = foldl (scan_target L g flags min_rank t1 c1 df1 too_large) st tables"
  have sc: "scan_column L g flags min_rank tables t1 df1 st c1 = st'"
    using False by (simp add: scan_column_def st'_def too_large_def Let_def)
  have b: "best st (t1 @ ''|'' @ fst c1) = None"
    and s: "\<forall>t2 \<in> fst ` set tables. t1 @ ''|'' @ fst c1 @ ''|'' @ t2 \<notin> seen st"
    using fresh unfolding fresh_keys_def by auto
  from scan_targets_near_best [OF assms(1) s, of L g flags min_rank df1 too_large, folded st'_def]
  have res: "results st' = results st @ near_best_spec (best st (t1 @ ''|'' @ fst c1))
               (List.map_filter (target_candidate L g flags min_rank t1 c1 df1 too_large) tables)"
    and sub: "seen st' \<subseteq> seen st \<union> (\<lambda>t2. t1 @ ''|'' @ fst c1 @ ''|'' @ t2) ` fst ` set tables"
    and oth: "\<forall>k. k \<noteq> t1 @ ''|'' @ fst c1 \<longrightarrow> best st' k = best st k"
    by blast+
  have r: "results st' = results st @ column_relationships L g flags min_rank tables t1 df1 c1"
    using res False unfolding b by (simp add: column_relationships_def too_large_def)
  have "fresh_keys (fst ` set tables) R st'"
    unfolding fresh_keys_def
  proof (intro ballI, clarify, intro conjI ballI)
    fix t c assume tc: "(t, c) \<in> R"
    then have bar: "CHR ''|'' \<notin> set t" and ne: "(t, c) \<noteq> (t1, fst c1)" using R by auto
    from tc fresh have old: "best st (t @ ''|'' @ c) = None"
      "\<forall>t2 \<in> fst ` set tables. t @ ''|'' @ c @ ''|'' @ t2 \<notin> seen st"
      unfolding fresh_keys_def by auto
    have "t @ ''|'' @ c \<noteq> t1 @ ''|'' @ fst c1" using col_key_inj [OF bar t1] ne by blast
    then show "best st' (t @ ''|'' @ c) = None" using oth old(1) by simp
    fix t2 assume t2: "t2 \<in> fst ` set tables"
    show "t @ ''|'' @ c @ ''|'' @ t2 \<notin> seen st'"
    proof
      assume "t @ ''|'' @ c @ ''|'' @ t2 \<in> seen st'"
      with sub old(2) t2 obtain t2' where t2': "t2' \<in> fst ` set tables"
        and e: "t @ ''|'' @ c @ ''|'' @ t2 = t1 @ ''|'' @ fst c1 @ ''|'' @ t2'" by blast
      from names t2 t2' have "CHR ''|'' \<notin> set t2" "CHR ''|'' \<notin> set t2'" by blast+
      from rel_key_inj [OF bar t1 this e] ne show False by simp
    qed
  qed
  with r show ?thesis unfolding sc by simp
qed

lemma scan_columns_near_best:
  assumes "distinct (map fst tables)"
    and names: "\<forall>t \<in> fst ` set tables. CHR ''|'' \<notin> set t"
    and t1: "CHR ''|'' \<notin> set t1"
    and "distinct (map fst cs)"
    and R: "\<forall>(t, c) \<in> R. CHR ''|'' \<notin> set t \<and> t \<noteq> t1"
    and fresh: "fresh_keys (fst ` set tables) ((\<lambda>c. (t1, fst c)) ` set cs \<union> R) st"
  shows "results (foldl (scan_column L g flags min_rank tables t1 df1) st cs)
           = results st @ concat (map (column_relationships L g flags min_rank tables t1 df1) cs)
       \<and> fresh_keys (fst ` set tables) R (foldl (scan_column L g flags min_rank tables t1 df1) st cs)"
  using assms(4,6)
proof (induction cs arbitrary: st)
  case Nil
  then show ?case by simp
next
  case (Cons c cs)
  define R' where "R' = (\<lambda>c. (t1, fst c)) ` set cs \<union> R"
  define st1 where "st1 = scan_column L g flags min_rank tables t1 df1 st c"
  have d: "distinct (map fst cs)" "fst c \<notin> fst ` set cs" using Cons.prems(1) by simp_all
  have R': "\<forall>(t, c') \<in> R'. CHR ''|'' \<notin> set t \<and> (t, c') \<noteq> (t1, fst c)"
    unfolding R'_def
  proof (intro ballI, clarify)
    fix t c' assume "(t, c') \<in> (\<lambda>c. (t1, fst c)) ` set cs \<union> R"
    then consider "t = t1 \<and> c' \<in> fst ` set cs" | "(t, c') \<in> R" by auto
    then show "CHR ''|'' \<notin> set t \<and> (t, c') \<noteq> (t1, fst c)"
    proof cases
      case 1
      then have "c' \<noteq> fst c" using d(2) by blast
      with 1 t1 show ?thesis by simp
    next
      case 2
      then show ?thesis using R by auto
    qed
  qed
  have f: "fresh_keys (fst ` set tables) (insert (t1, fst c) R') st"
    using Cons.prems(2) unfolding R'_def by simp
  from scan_column_near_best [OF assms(1) names t1 R' f, of L g flags min_rank df1, folded st1_def]
  have 1: "results st1 = results st @ column_relationships L g flags min_rank tables t1 df1 c"
    and 2: "fresh_keys (fst ` set tables) R' st1" by blast+
  from Cons.IH [OF d(1) 2 [unfolded R'_def]] 1
  show ?case by (simp add: st1_def)
qed

lemma scan_tables_near_best:
  assumes "distinct (map fst tables)"
    and names: "\<forall>t \<in> fst ` set tables. CHR ''|'' \<notin> set t"
    and "distinct (map fst tbls)"
    and "\<forall>(t, df) \<in> set tbls. CHR ''|'' \<notin> set t \<and> distinct (map fst (columns df))"
    and "fresh_keys (fst ` set tables)
           (\<Union>(t, df) \<in> set tbls. (\<lambda>c. (t, fst c)) ` set (columns df)) st"
  shows "results (foldl (scan_table L g flags min_rank tables) st tbls)
           = results st @ concat (map (table_relationships L g flags min_rank tables) tbls)"
  using assms(3-5)
proof (induction tbls arbitrary: st)
  case Nil
  then show ?case by simp
next
  case (Cons tbl tbls)
  obtain t1 df1 where tbl: "tbl = (t1, df1)" by (cases tbl)
  define R where "R = (\<Union>(t, df) \<in> set tbls. (\<lambda>c. (t, fst c)) ` set (columns df))"
  define st1 where "st1 = scan_table L g flags min_rank tables st tbl"
  have d: "distinct (map fst tbls)" "t1 \<notin> fst ` set tbls" using Cons.prems(1) tbl by simp_all
  have t1: "CHR ''|'' \<notin> set t1" and cs: "distinct (map fst (columns df1))"
    using Cons.prems(2) tbl by simp_all
  have rest: "\<forall>(t, df) \<in> set tbls. CHR ''|'' \<notin> set t \<and> distinct (map fst (columns df))"
    using Cons.prems(2) by simp
  have R: "\<forall>(t, c) \<in> R. CHR ''|'' \<notin> set t \<and> t \<noteq> t1"
    unfolding R_def using rest d(2) by force
  have f: "fresh_keys (fst ` set tables) ((\<lambda>c. (t1, fst c)) ` set (columns df1) \<union> R) st"
    using Cons.prems(3) unfolding R_def tbl by simp
  have "results st1 = results st @ table_relationships L g flags min_rank tables tbl
        \<and> fresh_keys (fst ` set tables) R st1"
  proof (cases "nrows df1 = 0 \<and> \<not> flag_get flags ''naming''")
    case True
    then show ?thesis
      using fresh_keys_mono [OF f, of R]
      by (auto simp: st1_def tbl scan_table_def table_relationships_def)
  next
    case False
    with scan_columns_near_best [OF assms(1) names t1 cs R f, of L g flags min_rank df1]
    show ?thesis by (auto simp: st1_def tbl scan_table_def table_relationships_def)
  qed
  then have 1: "results st1 = results st @ table_relationships L g flags min_rank tables tbl"
    and 2: "fresh_keys (fst ` set tables) R st1" by blast+
  from Cons.IH [OF d(1) rest 2 [unfolded R_def]] 1
  show ?case by (simp add: st1_def)
qed

lemma detect_fks_near_best:
  assumes "distinct (map fst tables)"
    and "\<forall>(t, df) \<in> set tables. CHR ''|'' \<notin> set t \<and> distinct (map fst (columns df))"
  shows "detect_fks L g tables method min_confidence enable_flags =
     (if method = ''manual'' \<or> length tables < 2 then []
      else sort_key (\<lambda>r. (- dict_get CONF_RANK (confidence (found r)) 0, - score (found r)))
             (concat (map (table_relationships L g (build_flags method enable_flags)
                             (dict_get CONF_RANK min_confidence 1) tables) tables)))"
proof -
  have names: "\<forall>t \<in> fst ` set tables. CHR ''|'' \<notin> set t" using assms(2) by force
  have f: "fresh_keys (fst ` set tables)
             (\<Union>(t, df) \<in> set tables. (\<lambda>c. (t, fst c)) ` set (columns df))
             \<lparr>results = [], seen = {}, best = Map.empty\<rparr>"
    by (auto simp: fresh_keys_def)
  from scan_tables_near_best [OF assms(1) names assms(1,2) f, of L g "build_flags method enable_flags"
      "dict_get CONF_RANK min_confidence 1"]
  show ?thesis unfolding detect_fks_def Let_def by simp
qed

text \<open>
  The evaluation of \<^verbatim>\<open>detect_fks\<close> on the tables of \<open>demo_three_tables\<close>, with only the
  value-overlap signal enabled.
\<close>

lemma demo_overlaps:
  "value_overlap plain_lib demo_zz demo_mixed = 1"
  "value_overlap plain_lib demo_zz demo_key = 0"
  "value_overlap plain_lib demo_mixed demo_zz = fl (1/5)"
  "value_overlap plain_lib demo_mixed demo_key = fl (4/5)"
  by (simp_all add: value_overlap_def dropna_str_def dropna_def plain_lib_def demo_zz_def
      demo_mixed_def demo_key_def unique_def List.map_filter_simps fdiv_def)

lemma demo_high_score: "composite_score [''overlap_high''] = fl (9/10)"
  by (simp add: composite_score_def dict_get_def WEIGHT_MAP_def math_prod_def fsub_def fmul_def
        py_min_def py_round_def fl_values rhe_eval [where n = 900])

lemma demo_classes:
  "col_dtype_class demo_zz = ''string''" "col_dtype_class demo_mixed = ''string''"
  "col_dtype_class demo_key = ''string''"
  by (simp_all add: col_dtype_class_def demo_zz_def demo_mixed_def demo_key_def)

lemma overlap_only_score:
  "score_candidate plain_lib () t1 (c1, s1) df1 t2 (c2, s2) df2 [''value_overlap'' \<mapsto> True] =
     (if col_dtype_class s1 \<noteq> col_dtype_class s2 then None
      else case map fst (fst (overlap_evidence plain_lib [''value_overlap'' \<mapsto> True] s1 df1 s2 df2)) of
             [] \<Rightarrow> None
           | k # ks \<Rightarrow>
               Some \<lparr>signals = fst (overlap_evidence plain_lib [''value_overlap'' \<mapsto> True] s1 df1 s2 df2),
                     reasons = snd (overlap_evidence plain_lib [''value_overlap'' \<mapsto> True] s1 df1 s2 df2),
                     score = composite_score (k # ks),
                     confidence = confidence_of (composite_score (k # ks)),
                     detected_by = dict_get LABEL_MAP
                       (max_by_key (\<lambda>k. dict_get WEIGHT_MAP k (fl (1/10))) k ks) ''content''\<rparr>)"
  by (simp add: score_candidate_def naming_evidence_def
        cardinality_evidence_def format_evidence_def distribution_evidence_def
        null_pattern_evidence_def flag_get_def add_evidence_def Let_def split: prod.splits list.splits)

lemma demo_evidence:
  assumes "0 < nrows df1" "0 < nrows df2"
  shows "overlap_evidence plain_lib [''value_overlap'' \<mapsto> True] demo_zz df1 demo_mixed df2
           = ([(''overlap_high'', 1)], [''value overlap 100%''])"
    and "overlap_evidence plain_lib [''value_overlap'' \<mapsto> True] demo_zz df1 demo_key df2 = ([], [])"
    and "overlap_evidence plain_lib [''value_overlap'' \<mapsto> True] demo_mixed df1 demo_zz df2 = ([], [])"
    and "overlap_evidence plain_lib [''value_overlap'' \<mapsto> True] demo_mixed df1 demo_key df2
           = ([(''overlap_medium'', fl (4/5))], [''partial overlap 80%''])"
  using assms
  by (simp_all add: overlap_evidence_def flag_get_def demo_overlaps OVERLAP_HIGH_def
        OVERLAP_MEDIUM_def fl_values format_pct_def fmul_def rhe_of_int [of 80, simplified]
        rhe_of_int [of 100, simplified]
        string_of_nat.simps digit_char_def)

lemma demo_scores:
  assumes "0 < nrows df1" "0 < nrows df2"
  shows "score_candidate plain_lib () t1 (c1, demo_zz) df1 t2 (c2, demo_mixed) df2
           [''value_overlap'' \<mapsto> True] = Some demo_high_candidate"
    and "score_candidate plain_lib () t1 (c1, demo_zz) df1 t2 (c2, demo_key) df2
           [''value_overlap'' \<mapsto> True] = None"
    and "score_candidate plain_lib () t1 (c1, demo_mixed) df1 t2 (c2, demo_zz) df2
           [''value_overlap'' \<mapsto> True] = None"
    and "score_candidate plain_lib () t1 (c1, demo_mixed) df1 t2 (c2, demo_key) df2
           [''value_overlap'' \<mapsto> True] = Some demo_candidate"
  unfolding overlap_only_score demo_evidence [OF assms]
  by (simp_all add: demo_classes demo_high_score demo_composite_score confidence_of_def fl_values
        dict_get_def LABEL_MAP_def WEIGHT_MAP_def demo_candidate_def demo_high_candidate_def)

lemma demo_three_shape:
  "columns demo_a_table = [(''b|c'', demo_zz)]" "nrows demo_a_table = 2"
  "columns demo_c_table = [(''c'', demo_mixed)]" "nrows demo_c_table = 6"
  "columns demo_u_table = [(''k'', demo_key)]" "nrows demo_u_table = 5"
  by (simp_all add: demo_a_table_def demo_c_table_def demo_u_table_def)

lemma demo_three_pk_cols:
  "pk_cols demo_a_table = []" "pk_cols demo_c_table = []"
  "pk_cols demo_u_table = [(''k'', demo_key)]"
  by (simp_all add: pk_cols_def demo_three_shape notna_all_def nunique_def dropna_def
        List.map_filter_simps)
     (simp_all add: demo_zz_def demo_mixed_def demo_key_def List.map_filter_simps)

lemma demo_three_targets:
  "target_columns demo_a_table False = [(''b|c'', demo_zz)]"
  "target_columns demo_c_table False = [(''c'', demo_mixed)]"
  "target_columns demo_u_table False = [(''k'', demo_key)]"
  by (simp_all add: target_columns_def demo_three_pk_cols demo_three_shape)

lemma demo_three_best:
  "foldl (keep_best plain_lib () [''value_overlap'' \<mapsto> True] t1 (c1, demo_zz) demo_a_table t2
            demo_c_table) None (target_columns demo_c_table False)
     = Some (demo_high_candidate, ''c'')"
  "foldl (keep_best plain_lib () [''value_overlap'' \<mapsto> True] t1 (c1, demo_zz) demo_a_table t2
            demo_u_table) None (target_columns demo_u_table False) = None"
  "foldl (keep_best plain_lib () [''value_overlap'' \<mapsto> True] t1 (c1, demo_mixed) demo_c_table t2
            demo_a_table) None (target_columns demo_a_table False) = None"
  "foldl (keep_best plain_lib () [''value_overlap'' \<mapsto> True] t1 (c1, demo_mixed) demo_c_table t2
            demo_u_table) None (target_columns demo_u_table False)
     = Some (demo_candidate, ''k'')"
  by (simp_all add: demo_three_targets keep_best_def demo_scores demo_three_shape)

lemma demo_ranks:
  "dict_get CONF_RANK (confidence demo_high_candidate) 0 = 2"
  "dict_get CONF_RANK (confidence demo_candidate) 0 = 1"
  "score demo_high_candidate = fl (9/10)" "score demo_candidate = fl (55/100)"
  by (simp_all add: demo_candidate_def demo_high_candidate_def dict_get_def CONF_RANK_def)

lemma demo_sum_below:
  "fadd (fl (55/100)) (fl (5/100)) < fl (9/10)"
  by (simp_all add: fadd_def fl_values)

lemma demo_scan_a:
  assumes "n \<noteq> ''a''" "n \<noteq> ''u''"
  shows "scan_table plain_lib () [''value_overlap'' \<mapsto> True] 1 (demo_three_tables n)
      \<lparr>results = [], seen = {}, best = Map.empty\<rparr> (''a'', demo_a_table)
     = \<lparr>results = [\<lparr>from_table = ''a'', from_col = ''b|c'', to_table = n, to_col = Some ''c'',
                      found = demo_high_candidate\<rparr>],
         seen = {''a|b|c|'' @ n}, best = [''a|b|c'' \<mapsto> fl (9/10)]\<rparr>"
  using assms
  by (simp add: scan_table_def scan_column_def scan_target_def demo_three_tables_def
        demo_three_shape demo_three_pk_cols demo_three_best demo_ranks flag_get_def)

lemma demo_scan_u:
  "scan_table plain_lib () [''value_overlap'' \<mapsto> True] 1 tables st (''u'', demo_u_table) = st"
  by (simp add: scan_table_def scan_column_def demo_three_shape demo_three_pk_cols)

lemma demo_scan_c_bar:
  "scan_table plain_lib () [''value_overlap'' \<mapsto> True] 1 (demo_three_tables ''a|b'')
      \<lparr>results = rs, seen = {''a|b|c|a|b''}, best = [''a|b|c'' \<mapsto> fl (9/10)]\<rparr>
      (''a|b'', demo_c_table)
     = \<lparr>results = rs, seen = {''a|b|c|a|b''}, best = [''a|b|c'' \<mapsto> fl (9/10)]\<rparr>"
  by (simp add: scan_table_def scan_column_def scan_target_def demo_three_tables_def
        demo_three_shape demo_three_pk_cols demo_three_best demo_ranks fadd_def fl_values Let_def
        flag_get_def)

lemma demo_scan_c_dash:
  "scan_table plain_lib () [''value_overlap'' \<mapsto> True] 1 (demo_three_tables ''a-b'')
      \<lparr>results = rs, seen = {''a|b|c|a-b''}, best = [''a|b|c'' \<mapsto> fl (9/10)]\<rparr>
      (''a-b'', demo_c_table)
     = \<lparr>results = rs @ [\<lparr>from_table = ''a-b'', from_col = ''c'', to_table = ''u'',
                           to_col = Some ''k'', found = demo_candidate\<rparr>],
         seen = {''a-b|c|u'', ''a|b|c|a-b''},
         best = [''a|b|c'' \<mapsto> fl (9/10), ''a-b|c'' \<mapsto> fl (55/100)]\<rparr>"
  by (simp add: scan_table_def scan_column_def scan_target_def demo_three_tables_def
        demo_three_shape demo_three_pk_cols demo_three_best demo_ranks fadd_def fl_values Let_def
        flag_get_def)

text \<open>
  The key of the running value collides when a table name and a column name hold a
  vertical bar: the column \<^verbatim>\<open>b|c\<close> of the table \<^verbatim>\<open>a\<close> and the column \<^verbatim>\<open>c\<close> of the table
  \<^verbatim>\<open>a|b\<close> share the key \<^verbatim>\<open>a|b|c\<close> and with it one running value. The scan of \<^verbatim>\<open>a.(b|c)\<close>
  accepts the candidate of score 0.9 for the second table and leaves 0.9 under \<^verbatim>\<open>a|b|c\<close>.
  The scan of the column \<^verbatim>\<open>c\<close> of the second table then reaches its first and only
  candidate, \<^verbatim>\<open>u.k\<close> of score 0.55 and tier \<^verbatim>\<open>medium\<close>: no candidate of this column was
  accepted before, and yet it is skipped, because 0.9 is greater than \<open>0.55 + 0.05\<close>.
  When the second table is named \<^verbatim>\<open>a-b\<close> instead, the same tables give both
  relationships.
\<close>

lemma col_key_collision:
  "detect_fks plain_lib () (demo_three_tables ''a|b'') ''content'' ''medium''
       (Some [''value_overlap'' \<mapsto> True])
     = [\<lparr>from_table = ''a'', from_col = ''b|c'', to_table = ''a|b'', to_col = Some ''c'',
          found = demo_high_candidate\<rparr>]
   \<and> detect_fks plain_lib () (demo_three_tables ''a-b'') ''content'' ''medium''
       (Some [''value_overlap'' \<mapsto> True])
     = [\<lparr>from_table = ''a'', from_col = ''b|c'', to_table = ''a-b'', to_col = Some ''c'',
          found = demo_high_candidate\<rparr>,
        \<lparr>from_table = ''a-b'', from_col = ''c'', to_table = ''u'', to_col = Some ''k'',
          found = demo_candidate\<rparr>]"
proof -
  have f: "build_flags ''content'' (Some [''value_overlap'' \<mapsto> True]) = [''value_overlap'' \<mapsto> True]"
    by (simp add: build_flags_def)
  have r: "dict_get CONF_RANK ''medium'' 1 = 1" by (simp add: dict_get_def CONF_RANK_def)
  have 1: "foldl (scan_table plain_lib () [''value_overlap'' \<mapsto> True] 1 (demo_three_tables ''a|b''))
      \<lparr>results = [], seen = {}, best = Map.empty\<rparr> (demo_three_tables ''a|b'')
     = \<lparr>results = [\<lparr>from_table = ''a'', from_col = ''b|c'', to_table = ''a|b'', to_col = Some ''c'',
                      found = demo_high_candidate\<rparr>],
         seen = {''a|b|c|a|b''}, best = [''a|b|c'' \<mapsto> fl (9/10)]\<rparr>"
    using demo_scan_a [of "''a|b''"] demo_scan_c_bar demo_scan_u [of "demo_three_tables ''a|b''"]
    by (simp add: demo_three_tables_def)
  have 2: "foldl (scan_table plain_lib () [''value_overlap'' \<mapsto> True] 1 (demo_three_tables ''a-b''))
      \<lparr>results = [], seen = {}, best = Map.empty\<rparr> (demo_three_tables ''a-b'')
     = \<lparr>results = [\<lparr>from_table = ''a'', from_col = ''b|c'', to_table = ''a-b'', to_col = Some ''c'',
                      found = demo_high_candidate\<rparr>,
                    \<lparr>from_table = ''a-b'', from_col = ''c'', to_table = ''u'',
                           to_col = Some ''k'', found = demo_candidate\<rparr>],
         seen = {''a-b|c|u'', ''a|b|c|a-b''},
         best = [''a|b|c'' \<mapsto> fl (9/10), ''a-b|c'' \<mapsto> fl (55/100)]\<rparr>"
    using demo_scan_a [of "''a-b''"] demo_scan_c_dash demo_scan_u [of "demo_three_tables ''a-b''"]
    by (simp add: demo_three_tables_def)
  have l: "length (demo_three_tables n) = 3" for n by (simp add: demo_three_tables_def)
  have o: "fl (55/100) < fl (9/10)" by (simp add: fl_values)
  show ?thesis
    unfolding detect_fks_def f r Let_def 1 2
    using o by (simp add: l demo_ranks)
qed

text \<open>
  The evaluation of \<^verbatim>\<open>detect_fks\<close> on the tables of \<open>demo_four_tables\<close>, with only the
  value-overlap signal enabled.
\<close>

lemma demo_four_overlaps:
  "value_overlap plain_lib demo_zz demo_dd = 0"
  "value_overlap plain_lib demo_dd demo_zz = 0"
  "value_overlap plain_lib demo_zz demo_ident = 1"
  "value_overlap plain_lib demo_dd demo_ident = 1"
  by (simp_all add: value_overlap_def dropna_str_def dropna_def plain_lib_def demo_zz_def
      demo_dd_def demo_ident_def unique_def List.map_filter_simps fdiv_def)

lemma demo_four_classes: "col_dtype_class demo_dd = ''string''"
  by (simp add: col_dtype_class_def demo_dd_def)

lemma demo_four_evidence:
  assumes "0 < nrows df1" "0 < nrows df2"
  shows "overlap_evidence plain_lib [''value_overlap'' \<mapsto> True] demo_zz df1 demo_dd df2 = ([], [])"
    and "overlap_evidence plain_lib [''value_overlap'' \<mapsto> True] demo_dd df1 demo_zz df2 = ([], [])"
    and "overlap_evidence plain_lib [''value_overlap'' \<mapsto> True] demo_zz df1 demo_ident df2
           = ([(''overlap_high'', 1)], [''value overlap 100%''])"
    and "overlap_evidence plain_lib [''value_overlap'' \<mapsto> True] demo_dd df1 demo_ident df2
           = ([(''overlap_high'', 1)], [''value overlap 100%''])"
  using assms
  by (simp_all add: overlap_evidence_def flag_get_def demo_four_overlaps OVERLAP_HIGH_def
        OVERLAP_MEDIUM_def fl_values format_pct_def fmul_def rhe_of_int [of 100, simplified]
        string_of_nat.simps digit_char_def)

lemma demo_four_scores:
  assumes "0 < nrows df1" "0 < nrows df2"
  shows "score_candidate plain_lib () t1 (c1, demo_zz) df1 t2 (c2, demo_dd) df2
           [''value_overlap'' \<mapsto> True] = None"
    and "score_candidate plain_lib () t1 (c1, demo_dd) df1 t2 (c2, demo_zz) df2
           [''value_overlap'' \<mapsto> True] = None"
    and "score_candidate plain_lib () t1 (c1, demo_zz) df1 t2 (c2, demo_ident) df2
           [''value_overlap'' \<mapsto> True] = Some demo_high_candidate"
    and "score_candidate plain_lib () t1 (c1, demo_dd) df1 t2 (c2, demo_ident) df2
           [''value_overlap'' \<mapsto> True] = Some demo_high_candidate"
  unfolding overlap_only_score demo_four_evidence [OF assms]
  by (simp_all add: demo_classes demo_dtype_class demo_four_classes demo_high_score
        confidence_of_def fl_values dict_get_def LABEL_MAP_def WEIGHT_MAP_def
        demo_high_candidate_def)

lemma demo_four_shape:
  "columns demo_b_table = [(''b'', demo_zz)]" "nrows demo_b_table = 2"
  "columns demo_d_table = [(''c'', demo_dd)]" "nrows demo_d_table = 2"
  "columns demo_people_table = [(''ident'', demo_ident)]" "nrows demo_people_table = 5"
  by (simp_all add: demo_b_table_def demo_d_table_def demo_people_table_def)

lemma demo_four_pk_cols: "pk_cols demo_b_table = []" "pk_cols demo_d_table = []"
  by (simp_all add: pk_cols_def demo_four_shape notna_all_def nunique_def dropna_def
        List.map_filter_simps)
     (simp_all add: demo_zz_def demo_dd_def List.map_filter_simps)

lemma demo_four_targets:
  "target_columns demo_b_table False = [(''b'', demo_zz)]"
  "target_columns demo_d_table False = [(''c'', demo_dd)]"
  by (simp_all add: target_columns_def demo_four_pk_cols demo_four_shape)

lemma demo_four_best:
  "foldl (keep_best plain_lib () [''value_overlap'' \<mapsto> True] t1 (c1, demo_zz) demo_b_table t2
            demo_d_table) None (target_columns demo_d_table False) = None"
  "foldl (keep_best plain_lib () [''value_overlap'' \<mapsto> True] t1 (c1, demo_dd) demo_d_table t2
            demo_b_table) None (target_columns demo_b_table False) = None"
  "foldl (keep_best plain_lib () [''value_overlap'' \<mapsto> True] t1 (c1, demo_zz) demo_b_table t2
            demo_people_table) None (target_columns demo_people_table False)
     = Some (demo_high_candidate, ''ident'')"
  "foldl (keep_best plain_lib () [''value_overlap'' \<mapsto> True] t1 (c1, demo_dd) demo_d_table t2
            demo_people_table) None (target_columns demo_people_table False)
     = Some (demo_high_candidate, ''ident'')"
  by (simp_all add: demo_four_targets demo_target_columns keep_best_def demo_four_scores
        demo_four_shape)

lemma demo_four_scan_people:
  "scan_table plain_lib () [''value_overlap'' \<mapsto> True] 1 tables st (t, demo_people_table) = st"
  by (simp add: scan_table_def scan_column_def demo_four_shape demo_pk_cols)

lemma demo_four_scan_b_bar:
  "scan_table plain_lib () [''value_overlap'' \<mapsto> True] 1 (demo_four_tables ''a|b'' ''c|d'')
      \<lparr>results = [], seen = {}, best = Map.empty\<rparr> (''a'', demo_b_table)
     = \<lparr>results = [\<lparr>from_table = ''a'', from_col = ''b'', to_table = ''c|d'',
                      to_col = Some ''ident'', found = demo_high_candidate\<rparr>,
                    \<lparr>from_table = ''a'', from_col = ''b'', to_table = ''d'',
                      to_col = Some ''ident'', found = demo_high_candidate\<rparr>],
         seen = {''a|b|d'', ''a|b|c|d''}, best = [''a|b'' \<mapsto> fl (9/10)]\<rparr>"
  by (simp add: scan_table_def scan_column_def scan_target_def demo_four_tables_def
        demo_four_shape demo_four_pk_cols demo_four_best demo_ranks fadd_def fl_values
        Let_def flag_get_def)

lemma demo_four_scan_c_bar:
  "scan_table plain_lib () [''value_overlap'' \<mapsto> True] 1 (demo_four_tables ''a|b'' ''c|d'')
      \<lparr>results = rs, seen = {''a|b|d'', ''a|b|c|d''}, best = [''a|b'' \<mapsto> fl (9/10)]\<rparr>
      (''a|b'', demo_d_table)
     = \<lparr>results = rs @ [\<lparr>from_table = ''a|b'', from_col = ''c'', to_table = ''c|d'',
                           to_col = Some ''ident'', found = demo_high_candidate\<rparr>],
         seen = {''a|b|c|c|d'', ''a|b|d'', ''a|b|c|d''},
         best = [''a|b'' \<mapsto> fl (9/10), ''a|b|c'' \<mapsto> fl (9/10)]\<rparr>"
  by (simp add: scan_table_def scan_column_def scan_target_def demo_four_tables_def
        demo_four_shape demo_four_pk_cols demo_four_best demo_ranks fadd_def fl_values
        Let_def flag_get_def)

lemma demo_four_scan_b_dash:
  "scan_table plain_lib () [''value_overlap'' \<mapsto> True] 1 (demo_four_tables ''a-b'' ''c-d'')
      \<lparr>results = [], seen = {}, best = Map.empty\<rparr> (''a'', demo_b_table)
     = \<lparr>results = [\<lparr>from_table = ''a'', from_col = ''b'', to_table = ''c-d'',
                      to_col = Some ''ident'', found = demo_high_candidate\<rparr>,
                    \<lparr>from_table = ''a'', from_col = ''b'', to_table = ''d'',
                      to_col = Some ''ident'', found = demo_high_candidate\<rparr>],
         seen = {''a|b|d'', ''a|b|c-d''}, best = [''a|b'' \<mapsto> fl (9/10)]\<rparr>"
  by (simp add: scan_table_def scan_column_def scan_target_def demo_four_tables_def
        demo_four_shape demo_four_pk_cols demo_four_best demo_ranks fadd_def fl_values
        Let_def flag_get_def)

lemma demo_four_scan_c_dash:
  "scan_table plain_lib () [''value_overlap'' \<mapsto> True] 1 (demo_four_tables ''a-b'' ''c-d'')
      \<lparr>results = rs, seen = {''a|b|d'', ''a|b|c-d''}, best = [''a|b'' \<mapsto> fl (9/10)]\<rparr>
      (''a-b'', demo_d_table)
     = \<lparr>results = rs @ [\<lparr>from_table = ''a-b'', from_col = ''c'', to_table = ''c-d'',
                           to_col = Some ''ident'', found = demo_high_candidate\<rparr>,
                         \<lparr>from_table = ''a-b'', from_col = ''c'', to_table = ''d'',
                           to_col = Some ''ident'', found = demo_high_candidate\<rparr>],
         seen = {''a-b|c|d'', ''a-b|c|c-d'', ''a|b|d'', ''a|b|c-d''},
         best = [''a|b'' \<mapsto> fl (9/10), ''a-b|c'' \<mapsto> fl (9/10)]\<rparr>"
  by (simp add: scan_table_def scan_column_def scan_target_def demo_four_tables_def
        demo_four_shape demo_four_pk_cols demo_four_best demo_ranks fadd_def fl_values
        Let_def flag_get_def)

text \<open>
  Claim C6 (near-best filter: one running value for each source column; the best-scoring
  candidate of a target table is skipped exactly when that value exceeds its score by
  more than 0.05; the score of an accepted candidate becomes the running value) fails on
  table names that hold a vertical bar, because the accumulators are indexed by the
  strings \<^verbatim>\<open>f"{t1}|{col1}|{t2}"\<close> and \<^verbatim>\<open>f"{t1}|{col1}"\<close>.

  On the tables of \<open>demo_four_tables\<close> named \<^verbatim>\<open>a\<close>, \<^verbatim>\<open>a|b\<close>, \<^verbatim>\<open>c|d\<close>, \<^verbatim>\<open>d\<close>, the triples
  \<^verbatim>\<open>(a, b, c|d)\<close> and \<^verbatim>\<open>(a|b, c, d)\<close> share the key \<^verbatim>\<open>a|b|c|d\<close>. The candidate \<^verbatim>\<open>d.ident\<close>
  of the column \<^verbatim>\<open>c\<close> of \<^verbatim>\<open>a|b\<close> has score 0.9, and the running value of its column is 0.9,
  which does not exceed 0.9 plus 0.05: the filter of the claim accepts it, the search
  drops it at the test \<^verbatim>\<open>rel_key in seen\<close> and returns three relationships. With the
  tables named \<^verbatim>\<open>a-b\<close> and \<^verbatim>\<open>c-d\<close> the search returns all four.

  On the tables of \<open>demo_three_tables\<close> named \<^verbatim>\<open>a\<close>, \<^verbatim>\<open>a|b\<close>, \<^verbatim>\<open>u\<close>, two source columns
  share one running value: the first candidate of the column \<^verbatim>\<open>c\<close> of \<^verbatim>\<open>a|b\<close>, of score
  0.55, is skipped because of the 0.9 that the column \<^verbatim>\<open>b|c\<close> of \<^verbatim>\<open>a\<close> left under the key
  \<^verbatim>\<open>a|b|c\<close>. With the table named \<^verbatim>\<open>a-b\<close> the search returns both relationships.
\<close>

theorem near_best_key_collision:
  "detect_fks plain_lib () (demo_four_tables ''a|b'' ''c|d'') ''content'' ''medium''
       (Some [''value_overlap'' \<mapsto> True])
     = [\<lparr>from_table = ''a'', from_col = ''b'', to_table = ''c|d'', to_col = Some ''ident'',
          found = demo_high_candidate\<rparr>,
        \<lparr>from_table = ''a'', from_col = ''b'', to_table = ''d'', to_col = Some ''ident'',
          found = demo_high_candidate\<rparr>,
        \<lparr>from_table = ''a|b'', from_col = ''c'', to_table = ''c|d'', to_col = Some ''ident'',
          found = demo_high_candidate\<rparr>]
   \<and> detect_fks plain_lib () (demo_four_tables ''a-b'' ''c-d'') ''content'' ''medium''
       (Some [''value_overlap'' \<mapsto> True])
     = [\<lparr>from_table = ''a'', from_col = ''b'', to_table = ''c-d'', to_col = Some ''ident'',
          found = demo_high_candidate\<rparr>,
        \<lparr>from_table = ''a'', from_col = ''b'', to_table = ''d'', to_col = Some ''ident'',
          found = demo_high_candidate\<rparr>,
        \<lparr>from_table = ''a-b'', from_col = ''c'', to_table = ''c-d'', to_col = Some ''ident'',
          found = demo_high_candidate\<rparr>,
        \<lparr>from_table = ''a-b'', from_col = ''c'', to_table = ''d'', to_col = Some ''ident'',
          found = demo_high_candidate\<rparr>]
   \<and> detect_fks plain_lib () (demo_three_tables ''a|b'') ''content'' ''medium''
       (Some [''value_overlap'' \<mapsto> True])
     = [\<lparr>from_table = ''a'', from_col = ''b|c'', to_table = ''a|b'', to_col = Some ''c'',
          found = demo_high_candidate\<rparr>]
   \<and> detect_fks plain_lib () (demo_three_tables ''a-b'') ''content'' ''medium''
       (Some [''value_overlap'' \<mapsto> True])
     = [\<lparr>from_table = ''a'', from_col = ''b|c'', to_table = ''a-b'', to_col = Some ''c'',
          found = demo_high_candidate\<rparr>,
        \<lparr>from_table = ''a-b'', from_col = ''c'', to_table = ''u'', to_col = Some ''k'',
          found = demo_candidate\<rparr>]"
proof -
  have f: "build_flags ''content'' (Some [''value_overlap'' \<mapsto> True]) = [''value_overlap'' \<mapsto> True]"
    by (simp add: build_flags_def)
  have r: "dict_get CONF_RANK ''medium'' 1 = 1" by (simp add: dict_get_def CONF_RANK_def)
  have l: "length (demo_four_tables n m) = 4" for n m by (simp add: demo_four_tables_def)
  have 1: "results (foldl (scan_table plain_lib () [''value_overlap'' \<mapsto> True] 1 (demo_four_tables ''a|b'' ''c|d''))
      \<lparr>results = [], seen = {}, best = Map.empty\<rparr> (demo_four_tables ''a|b'' ''c|d''))
     = [\<lparr>from_table = ''a'', from_col = ''b'', to_table = ''c|d'', to_col = Some ''ident'',
          found = demo_high_candidate\<rparr>,
        \<lparr>from_table = ''a'', from_col = ''b'', to_table = ''d'', to_col = Some ''ident'',
          found = demo_high_candidate\<rparr>,
        \<lparr>from_table = ''a|b'', from_col = ''c'', to_table = ''c|d'', to_col = Some ''ident'',
          found = demo_high_candidate\<rparr>]"
    by (simp add: demo_four_tables_def [of] demo_four_scan_people
          demo_four_scan_b_bar [unfolded demo_four_tables_def]
          demo_four_scan_c_bar [unfolded demo_four_tables_def])
  have 2: "results (foldl (scan_table plain_lib () [''value_overlap'' \<mapsto> True] 1 (demo_four_tables ''a-b'' ''c-d''))
      \<lparr>results = [], seen = {}, best = Map.empty\<rparr> (demo_four_tables ''a-b'' ''c-d''))
     = [\<lparr>from_table = ''a'', from_col = ''b'', to_table = ''c-d'', to_col = Some ''ident'',
          found = demo_high_candidate\<rparr>,
        \<lparr>from_table = ''a'', from_col = ''b'', to_table = ''d'', to_col = Some ''ident'',
          found = demo_high_candidate\<rparr>,
        \<lparr>from_table = ''a-b'', from_col = ''c'', to_table = ''c-d'', to_col = Some ''ident'',
          found = demo_high_candidate\<rparr>,
        \<lparr>from_table = ''a-b'', from_col = ''c'', to_table = ''d'', to_col = Some ''ident'',
          found = demo_high_candidate\<rparr>]"
    by (simp add: demo_four_tables_def [of] demo_four_scan_people
          demo_four_scan_b_dash [unfolded demo_four_tables_def]
          demo_four_scan_c_dash [unfolded demo_four_tables_def])
  have 3: "detect_fks plain_lib () (demo_four_tables ''a|b'' ''c|d'') ''content'' ''medium''
       (Some [''value_overlap'' \<mapsto> True])
     = [\<lparr>from_table = ''a'', from_col = ''b'', to_table = ''c|d'', to_col = Some ''ident'',
          found = demo_high_candidate\<rparr>,
        \<lparr>from_table = ''a'', from_col = ''b'', to_table = ''d'', to_col = Some ''ident'',
          found = demo_high_candidate\<rparr>,
        \<lparr>from_table = ''a|b'', from_col = ''c'', to_table = ''c|d'', to_col = Some ''ident'',
          found = demo_high_candidate\<rparr>]"
    unfolding detect_fks_def f r Let_def 1 by (simp add: l demo_ranks)
  have 4: "detect_fks plain_lib () (demo_four_tables ''a-b'' ''c-d'') ''content'' ''medium''
       (Some [''value_overlap'' \<mapsto> True])
     = [\<lparr>from_table = ''a'', from_col = ''b'', to_table = ''c-d'', to_col = Some ''ident'',
          found = demo_high_candidate\<rparr>,
        \<lparr>from_table = ''a'', from_col = ''b'', to_table = ''d'', to_col = Some ''ident'',
          found = demo_high_candidate\<rparr>,
        \<lparr>from_table = ''a-b'', from_col = ''c'', to_table = ''c-d'', to_col = Some ''ident'',
          found = demo_high_candidate\<rparr>,
        \<lparr>from_table = ''a-b'', from_col = ''c'', to_table = ''d'', to_col = Some ''ident'',
          found = demo_high_candidate\<rparr>]"
    unfolding detect_fks_def f r Let_def 2 by (simp add: l demo_ranks)
  from 3 4 col_key_collision show ?thesis by simp
qed

text \<open>
  Claim C10 (unknown minimum confidence). A minimum confidence that is none of
  \<^verbatim>\<open>low\<close>, \<^verbatim>\<open>medium\<close>, \<^verbatim>\<open>high\<close> is not rejected: \<^verbatim>\<open>detect_fks\<close> returns what it
  returns for \<^verbatim>\<open>medium\<close>.
\<close>

theorem unknown_min_confidence_is_medium:
  "min_confidence \<notin> {''low'', ''medium'', ''high''} \<Longrightarrow>
     detect_fks L g tables method min_confidence enable_flags
       = detect_fks L g tables method ''medium'' enable_flags"
  by (simp add: detect_fks_def dict_get_def CONF_RANK_def)

lemma demo_scan_target:
  "scan_target plain_lib () [''value_overlap'' \<mapsto> True] min_rank ''orders'' (''cust'', demo_cust)
       demo_orders_table False \<lparr>results = [], seen = {}, best = Map.empty\<rparr>
       (''people'', demo_people_table)
     = (if 1 < min_rank then \<lparr>results = [], seen = {}, best = Map.empty\<rparr>
        else \<lparr>results = [demo_relationship], seen = {''orders|cust|people''},
               best = [''orders|cust'' \<mapsto> fl (55/100)]\<rparr>)"
  by (simp add: scan_target_def demo_keep_best demo_rank demo_relationship_def)
     (simp add: demo_candidate_def)

lemma demo_scan_tables:
  "foldl (scan_table plain_lib () [''value_overlap'' \<mapsto> True] min_rank demo_tables)
      \<lparr>results = [], seen = {}, best = Map.empty\<rparr> demo_tables
     = (if 1 < min_rank then \<lparr>results = [], seen = {}, best = Map.empty\<rparr>
        else \<lparr>results = [demo_relationship], seen = {''orders|cust|people''},
               best = [''orders|cust'' \<mapsto> fl (55/100)]\<rparr>)"
proof -
  have c: "columns demo_orders_table = [(''cust'', demo_cust)]" "nrows demo_orders_table = 6"
    "columns demo_people_table = [(''ident'', demo_ident)]" "nrows demo_people_table = 5"
    by (simp_all add: demo_orders_table_def demo_people_table_def)
  have t: "scan_target plain_lib () [''value_overlap'' \<mapsto> True] min_rank ''orders'' (''cust'', demo_cust)
       demo_orders_table False \<lparr>results = [], seen = {}, best = Map.empty\<rparr>
       (''orders'', demo_orders_table) = \<lparr>results = [], seen = {}, best = Map.empty\<rparr>"
    by (simp add: scan_target_def)
  have 1: "scan_table plain_lib () [''value_overlap'' \<mapsto> True] min_rank demo_tables
      \<lparr>results = [], seen = {}, best = Map.empty\<rparr> (''orders'', demo_orders_table)
     = (if 1 < min_rank then \<lparr>results = [], seen = {}, best = Map.empty\<rparr>
        else \<lparr>results = [demo_relationship], seen = {''orders|cust|people''},
               best = [''orders|cust'' \<mapsto> fl (55/100)]\<rparr>)"
    by (simp add: scan_table_def scan_column_def c demo_pk_cols demo_tables_def t demo_scan_target)
  have 2: "\<And>st. scan_table plain_lib () [''value_overlap'' \<mapsto> True] min_rank demo_tables st
      (''people'', demo_people_table) = st"
    by (simp add: scan_table_def scan_column_def c demo_pk_cols)
  show ?thesis by (simp add: demo_tables_def [of] 1 [unfolded demo_tables_def] 2 [unfolded demo_tables_def])
qed

lemma demo_detect_fks:
  "detect_fks plain_lib () demo_tables ''content'' min_confidence (Some [''value_overlap'' \<mapsto> True])
     = (if 1 < dict_get CONF_RANK min_confidence 1 then [] else [demo_relationship])"
proof -
  have l: "length demo_tables = 2" by (simp add: demo_tables_def)
  show ?thesis
    by (simp add: detect_fks_def l build_flags_def demo_scan_tables Let_def)
qed

text \<open>
  On the two example tables the search finds one relationship of tier \<^verbatim>\<open>medium\<close>: it is
  reported for the minimum confidence \<^verbatim>\<open>strict\<close> as for \<^verbatim>\<open>medium\<close>, and not for
  \<^verbatim>\<open>high\<close>.
\<close>

theorem unknown_min_confidence_is_medium_witness:
  "''strict'' \<notin> {''low'', ''medium'', ''high''}
   \<and> detect_fks plain_lib () demo_tables ''content'' ''strict'' (Some [''value_overlap'' \<mapsto> True])
       = [demo_relationship]
   \<and> detect_fks plain_lib () demo_tables ''content'' ''medium'' (Some [''value_overlap'' \<mapsto> True])
       = [demo_relationship]
   \<and> detect_fks plain_lib () demo_tables ''content'' ''high'' (Some [''value_overlap'' \<mapsto> True])
       = []"
proof -
  have n: "''strict'' \<notin> {''low'', ''medium'', ''high''}" by simp
  have m: "detect_fks plain_lib () demo_tables ''content'' ''medium'' (Some [''value_overlap'' \<mapsto> True])
       = [demo_relationship]"
    and h: "detect_fks plain_lib () demo_tables ''content'' ''high'' (Some [''value_overlap'' \<mapsto> True])
       = []"
    by (simp_all add: demo_detect_fks dict_get_def CONF_RANK_def)
  from unknown_min_confidence_is_medium [OF n, of plain_lib "()" demo_tables "''content''"
      "Some [''value_overlap'' \<mapsto> True]"] n m h
  show ?thesis by simp
qed

subsection \<open>Properties of the merge\<close>

text \<open>
  A database constraint is dropped from the declared list only when a schema relationship
  has the same four-part key, so the table pairs of the deduplicated list are the table
  pairs of every declared relationship.
\<close>

lemma table_pair_of_key4: "key4 r = key4 r' \<Longrightarrow> table_pair r = table_pair r'"
  by (simp add: key4_def table_pair_def)

lemma schema_pairs_all_declared:
  "schema_pairs schema_rels db_rels = table_pair ` (set schema_rels \<union> set db_rels)"
proof
  show "schema_pairs schema_rels db_rels \<subseteq> table_pair ` (set schema_rels \<union> set db_rels)"
    by (auto simp: schema_pairs_def schema_plus_db_def)
next
  show "table_pair ` (set schema_rels \<union> set db_rels) \<subseteq> schema_pairs schema_rels db_rels"
  proof
    fix p
    assume "p \<in> table_pair ` (set schema_rels \<union> set db_rels)"
    then obtain r where r: "r \<in> set schema_rels \<union> set db_rels" and p: "p = table_pair r"
      by blast
    show "p \<in> schema_pairs schema_rels db_rels"
    proof (cases "key4 r \<in> schema_keys schema_rels")
      case True
      then obtain r' where "r' \<in> set schema_rels" and "key4 r = key4 r'"
        by (auto simp: schema_keys_def)
      then show ?thesis
        using p table_pair_of_key4 [of r r']
        by (auto simp: schema_pairs_def schema_plus_db_def)
    next
      case False
      then have "r \<in> set db_rels"
        using r by (auto simp: schema_keys_def)
      with False show ?thesis
        using p by (auto simp: schema_pairs_def schema_plus_db_def)
    qed
  qed
qed

text \<open>
  Claim C2 (merge protocol). The merged list is the declared relationships (the schema
  relationships, then the database constraints whose four-part key no schema relationship
  has), followed by the inferred relationships that survive, followed by every manual
  relationship. An inferred relationship survives exactly when no declared relationship,
  from the schema or from the database, has its (source table, target table) pair,
  whatever the columns; so no surviving inferred relationship shares its table pair with a
  declared one.
\<close>

theorem merge_protocol:
  "all_rels schema_rels db_rels auto_rels manual_rels =
     schema_plus_db schema_rels db_rels
       @ filter (\<lambda>a. \<forall>d \<in> set schema_rels \<union> set db_rels. table_pair a \<noteq> table_pair d) auto_rels
       @ manual_rels
   \<and> (\<forall>a \<in> set (filtered_auto schema_rels db_rels auto_rels).
        \<forall>d \<in> set schema_rels \<union> set db_rels. table_pair a \<noteq> table_pair d)
   \<and> set (schema_plus_db schema_rels db_rels) \<subseteq> set schema_rels \<union> set db_rels
   \<and> key4 ` set (schema_plus_db schema_rels db_rels) = key4 ` (set schema_rels \<union> set db_rels)"
proof -
  have surv: "filtered_auto schema_rels db_rels auto_rels =
      filter (\<lambda>a. \<forall>d \<in> set schema_rels \<union> set db_rels. table_pair a \<noteq> table_pair d) auto_rels"
    unfolding filtered_auto_def schema_pairs_all_declared
    by (rule filter_cong) auto
  have sub: "set (schema_plus_db schema_rels db_rels) \<subseteq> set schema_rels \<union> set db_rels"
    by (auto simp: schema_plus_db_def)
  have keys: "key4 ` set (schema_plus_db schema_rels db_rels) = key4 ` (set schema_rels \<union> set db_rels)"
  proof
    show "key4 ` set (schema_plus_db schema_rels db_rels) \<subseteq> key4 ` (set schema_rels \<union> set db_rels)"
      using sub by blast
  next
    show "key4 ` (set schema_rels \<union> set db_rels) \<subseteq> key4 ` set (schema_plus_db schema_rels db_rels)"
    proof
      fix k
      assume "k \<in> key4 ` (set schema_rels \<union> set db_rels)"
      then obtain r where r: "r \<in> set schema_rels \<union> set db_rels" and k: "k = key4 r"
        by blast
      show "k \<in> key4 ` set (schema_plus_db schema_rels db_rels)"
      proof (cases "k \<in> key4 ` set schema_rels")
        case True
        then show ?thesis by (auto simp: schema_plus_db_def)
      next
        case False
        with r k have "r \<in> set db_rels \<and> key4 r \<notin> schema_keys schema_rels"
          by (auto simp: schema_keys_def)
        then have "r \<in> set (schema_plus_db schema_rels db_rels)"
          by (simp add: schema_plus_db_def)
        with k show ?thesis by blast
      qed
    qed
  qed
  show ?thesis
    using surv sub keys by (simp add: all_rels_def)
qed


text \<open>
  The merge at a concrete input: the schema declares orders \<rightarrow> customers, the database
  repeats it and adds items \<rightarrow> orders; of three inferred relationships the one between
  orders and customers is dropped although its columns differ; the manual relationship
  between the same two tables is kept.
\<close>

theorem merge_protocol_witness:
  "all_rels
       [\<lparr>from_table = ''orders'', from_col = ''customer_id'', to_table = ''customers'', to_col = Some ''customer_id''\<rparr>]
       [\<lparr>from_table = ''orders'', from_col = ''customer_id'', to_table = ''customers'', to_col = Some ''customer_id''\<rparr>,
        \<lparr>from_table = ''items'', from_col = ''order_id'', to_table = ''orders'', to_col = Some ''order_id''\<rparr>]
       [\<lparr>from_table = ''orders'', from_col = ''cust'', to_table = ''customers'', to_col = Some ''name''\<rparr>,
        \<lparr>from_table = ''items'', from_col = ''product_id'', to_table = ''products'', to_col = Some ''product_id''\<rparr>,
        \<lparr>from_table = ''customers'', from_col = ''last_order'', to_table = ''orders'', to_col = Some ''order_id''\<rparr>]
       [\<lparr>from_table = ''orders'', from_col = ''cust'', to_table = ''customers'', to_col = Some ''name''\<rparr>]
     = [\<lparr>from_table = ''orders'', from_col = ''customer_id'', to_table = ''customers'', to_col = Some ''customer_id''\<rparr>,
        \<lparr>from_table = ''items'', from_col = ''order_id'', to_table = ''orders'', to_col = Some ''order_id''\<rparr>,
        \<lparr>from_table = ''items'', from_col = ''product_id'', to_table = ''products'', to_col = Some ''product_id''\<rparr>,
        \<lparr>from_table = ''customers'', from_col = ''last_order'', to_table = ''orders'', to_col = Some ''order_id''\<rparr>,
        \<lparr>from_table = ''orders'', from_col = ''cust'', to_table = ''customers'', to_col = Some ''name''\<rparr>]"
proof -
  let ?S = "[\<lparr>from_table = ''orders'', from_col = ''customer_id'', to_table = ''customers'', to_col = Some ''customer_id''\<rparr>]"
  let ?D = "[\<lparr>from_table = ''orders'', from_col = ''customer_id'', to_table = ''customers'', to_col = Some ''customer_id''\<rparr>,
        \<lparr>from_table = ''items'', from_col = ''order_id'', to_table = ''orders'', to_col = Some ''order_id''\<rparr>]"
  let ?A = "[\<lparr>from_table = ''orders'', from_col = ''cust'', to_table = ''customers'', to_col = Some ''name''\<rparr>,
        \<lparr>from_table = ''items'', from_col = ''product_id'', to_table = ''products'', to_col = Some ''product_id''\<rparr>,
        \<lparr>from_table = ''customers'', from_col = ''last_order'', to_table = ''orders'', to_col = Some ''order_id''\<rparr>]"
  let ?M = "[\<lparr>from_table = ''orders'', from_col = ''cust'', to_table = ''customers'', to_col = Some ''name''\<rparr>]"
  have 1: "schema_plus_db ?S ?D = [\<lparr>from_table = ''orders'', from_col = ''customer_id'', to_table = ''customers'', to_col = Some ''customer_id''\<rparr>,
        \<lparr>from_table = ''items'', from_col = ''order_id'', to_table = ''orders'', to_col = Some ''order_id''\<rparr>]"
    by (simp add: schema_plus_db_def schema_keys_def key4_def)
  have 2: "filter (\<lambda>a. \<forall>d \<in> set ?S \<union> set ?D. table_pair a \<noteq> table_pair d) ?A =
     [\<lparr>from_table = ''items'', from_col = ''product_id'', to_table = ''products'', to_col = Some ''product_id''\<rparr>,
        \<lparr>from_table = ''customers'', from_col = ''last_order'', to_table = ''orders'', to_col = Some ''order_id''\<rparr>]"
    by (simp add: table_pair_def)
  show ?thesis
    using merge_protocol [of ?S ?D ?A ?M] unfolding 1 2 by simp
qed

end
